(* ===== verification/Prelude.thy ===== *)
theory Prelude
  imports Main "HOL-Library.Char_ord" "HOL-Library.List_Lexorder" "HOL-Library.Word"
begin

text \<open>
  What every component of the development shares: the ways a run of the compiler can stop
  early, the sum type that carries them, decimal printing as \<open>to_string\<close> and \<open>%d\<close> do it,
  and generic lemmas on lists and on the result type.
\<close>

named_theorems result_simps \<open>equations of the result type and its bind\<close>
named_theorems step_simps \<open>one-step unfoldings of the loops\<close>

section \<open>Early exits\<close>

text \<open>
  A run of the compiler stops early in five ways: \<open>Output::panic\<close> (a diagnostic at a source
  location, then \<open>exit\<close>), a failed \<open>assert\<close> (the build does not define \<open>NDEBUG\<close>), a read through
  a null pointer, the internal compiler error macro \<open>ICE\<close>, and, for the loops and recursions that carry a fuel argument,
  running out of it.
\<close>

record location =
  l_source :: string
  l_line :: int
  l_column :: int
  l_offset :: nat
  l_length :: nat

text \<open>The default constructor of \<open>Location\<close>.\<close>

definition Location0 :: location where
  "Location0 = \<lparr>l_source = [], l_line = 0, l_column = 0, l_offset = 0, l_length = 0\<rparr>"

datatype failure =
    Panic location string
  | AssertFail
  | NullDeref
  | ICE string
  | NoFuel

type_synonym 'a result = "failure + 'a"

definition bindR :: "'a result \<Rightarrow> ('a \<Rightarrow> 'b result) \<Rightarrow> 'b result" where
  "bindR m f = (case m of Inl e \<Rightarrow> Inl e | Inr x \<Rightarrow> f x)"

definition assertR :: "bool \<Rightarrow> unit result" where
  "assertR b = (if b then Inr () else Inl AssertFail)"

lemma bindR_simps [simp, result_simps]:
  "bindR (Inl e) f = Inl e" "bindR (Inr x) f = f x"
  by (simp_all add: bindR_def)

lemma bindR_eq_Inr [result_simps]: "bindR m f = Inr y \<longleftrightarrow> (\<exists>x. m = Inr x \<and> f x = Inr y)"
  by (cases m) simp_all

lemma bindR_eq_Inl [result_simps]:
  "bindR m f = Inl e \<longleftrightarrow> m = Inl e \<or> (\<exists>x. m = Inr x \<and> f x = Inl e)"
  by (cases m) simp_all

lemma bindR_assoc: "bindR (bindR m f) g = bindR m (\<lambda>x. bindR (f x) g)"
  by (cases m) simp_all

lemma bindR_cong [fundef_cong]:
  "m = m' \<Longrightarrow> (\<And>x. m' = Inr x \<Longrightarrow> f x = f' x) \<Longrightarrow> bindR m f = bindR m' f'"
  by (cases m') (simp_all add: bindR_def)

lemma assertR_eq [simp, result_simps]:
  "assertR True = Inr ()" "assertR False = Inl AssertFail"
  "assertR b = Inr u \<longleftrightarrow> b" "assertR b = Inl e \<longleftrightarrow> \<not> b \<and> e = AssertFail"
  by (auto simp: assertR_def)

fun isRight :: "'a result \<Rightarrow> bool" where
  "isRight (Inr _) = True"
| "isRight (Inl _) = False"

lemma isRightE: "isRight m \<Longrightarrow> (\<And>x. m = Inr x \<Longrightarrow> P) \<Longrightarrow> P"
  by (cases m) auto

text \<open>A loop over a list that threads a state and may stop early.\<close>

fun mapS :: "('a \<Rightarrow> 's \<Rightarrow> ('b \<times> 's) result) \<Rightarrow> 'a list \<Rightarrow> 's \<Rightarrow> ('b list \<times> 's) result" where
  "mapS f [] s = Inr ([], s)"
| "mapS f (x # xs) s =
     bindR (f x s) (\<lambda>(y, s'). bindR (mapS f xs s') (\<lambda>(ys, s''). Inr (y # ys, s'')))"

lemma mapS_cong [fundef_cong]:
  "xs = xs' \<Longrightarrow> s = s' \<Longrightarrow> (\<And>x t. x \<in> set xs' \<Longrightarrow> f x t = g x t) \<Longrightarrow> mapS f xs s = mapS g xs' s'"
proof (induction xs' arbitrary: xs s s')
  case (Cons x xs')
  then show ?case by (cases "g x s'") (auto simp: bindR_def split: sum.splits)
qed simp

lemma mapS_length: "mapS f xs s = Inr (ys, s') \<Longrightarrow> length ys = length xs"
  by (induction xs arbitrary: s ys) (auto simp: bindR_eq_Inr)

text \<open>A loop over a list without a state.\<close>

fun mapR :: "('a \<Rightarrow> 'b result) \<Rightarrow> 'a list \<Rightarrow> 'b list result" where
  "mapR f [] = Inr []"
| "mapR f (x # xs) = bindR (f x) (\<lambda>y. bindR (mapR f xs) (\<lambda>ys. Inr (y # ys)))"

lemma mapR_cong [fundef_cong]:
  "xs = xs' \<Longrightarrow> (\<And>x. x \<in> set xs' \<Longrightarrow> f x = g x) \<Longrightarrow> mapR f xs = mapR g xs'"
proof (induction xs' arbitrary: xs)
  case (Cons x xs')
  then show ?case by (cases "g x") auto
qed simp

lemma mapR_map: "\<forall>x \<in> set xs. f x = Inr (g x) \<Longrightarrow> mapR f xs = Inr (map g xs)"
  by (induction xs) auto

text \<open>A loop over a list that only changes the state.\<close>

fun foldS :: "('a \<Rightarrow> 's \<Rightarrow> 's result) \<Rightarrow> 'a list \<Rightarrow> 's \<Rightarrow> 's result" where
  "foldS f [] s = Inr s"
| "foldS f (x # xs) s = bindR (f x s) (foldS f xs)"

lemma foldS_cong [fundef_cong]:
  "xs = xs' \<Longrightarrow> s = s' \<Longrightarrow> (\<And>x t. x \<in> set xs' \<Longrightarrow> f x t = g x t) \<Longrightarrow> foldS f xs s = foldS g xs' s'"
proof (induction xs' arbitrary: xs s s')
  case (Cons x xs')
  then show ?case by (cases "g x s'") (auto simp: bindR_def)
qed simp

lemma foldS_append: "foldS f (xs @ ys) s = bindR (foldS f xs s) (foldS f ys)"
  by (induction xs arbitrary: s) (simp_all add: bindR_def split: sum.splits)

lemma foldS_Inr: "foldS (\<lambda>x s. Inr (g x s)) xs s = Inr (fold g xs s)"
  by (induction xs arbitrary: s) simp_all

text \<open>What holds of every step of a loop holds of the loop.\<close>

lemma foldS_rel:
  assumes "reflp R" "transp R" "\<And>x s s'. x \<in> set xs \<Longrightarrow> f x s = Inr s' \<Longrightarrow> R s s'"
    "foldS f xs s = Inr s'"
  shows "R s s'"
  using assms(3,4)
proof (induction xs arbitrary: s)
  case Nil
  then show ?case using assms(1) by (simp add: reflpD)
next
  case (Cons x xs)
  then obtain s1 where s1: "f x s = Inr s1" "foldS f xs s1 = Inr s'" by (auto simp: bindR_eq_Inr)
  have "R s s1" by (rule Cons.prems(1)) (use s1 in auto)
  moreover have "R s1 s'" by (rule Cons.IH [OF Cons.prems(1) s1(2)]) auto
  ultimately show ?case using assms(2) by (blast dest: transpD)
qed

section \<open>Decimal printing\<close>

definition digit_char :: "nat \<Rightarrow> char" where
  "digit_char d = char_of (48 + d)"

fun show_nat :: "nat \<Rightarrow> string" where
  "show_nat n = (if n < 10 then [digit_char n] else show_nat (n div 10) @ [digit_char (n mod 10)])"

declare show_nat.simps [simp del]

definition show_int :: "int \<Rightarrow> string" where
  "show_int i = (if i < 0 then ''-'' @ show_nat (nat (- i)) else show_nat (nat i))"

definition is_digit_char :: "char \<Rightarrow> bool" where
  "is_digit_char c = (CHR ''0'' \<le> c \<and> c \<le> CHR ''9'')"

definition digit_val :: "char \<Rightarrow> nat" where
  "digit_val c = of_char c - 48"

definition read_nat :: "string \<Rightarrow> nat" where
  "read_nat s = foldl (\<lambda>n c. 10 * n + digit_val c) 0 s"

lemma of_char_digit: "d < 10 \<Longrightarrow> (of_char (digit_char d) :: nat) = 48 + d"
  by (simp add: digit_char_def)

lemma digit_val_char [simp]: "d < 10 \<Longrightarrow> digit_val (digit_char d) = d"
  by (simp add: digit_val_def of_char_digit)

lemma is_digit_char_digit [simp]: "d < 10 \<Longrightarrow> is_digit_char (digit_char d)"
  by (simp add: is_digit_char_def less_eq_char_def of_char_digit)

lemma show_nat_nonempty [simp]: "show_nat n \<noteq> []"
  by (subst show_nat.simps) simp

lemma show_nat_digits: "\<forall>c \<in> set (show_nat n). is_digit_char c"
proof (induction n rule: show_nat.induct)
  case (1 n)
  then show ?case by (subst show_nat.simps) auto
qed

lemma read_show_nat [simp]: "read_nat (show_nat n) = n"
proof (induction n rule: show_nat.induct)
  case (1 n)
  then show ?case by (subst show_nat.simps) (auto simp: read_nat_def)
qed

lemma show_nat_inject [simp]: "show_nat m = show_nat n \<longleftrightarrow> m = n"
  by (metis read_show_nat)

section \<open>Lists\<close>

lemma takeWhile_append_stop:
  "(\<forall>x \<in> set xs. P x) \<Longrightarrow> (ys = [] \<or> \<not> P (hd ys)) \<Longrightarrow> takeWhile P (xs @ ys) = xs"
  by (induction xs) (cases ys, auto)+

lemma dropWhile_append_stop:
  "(\<forall>x \<in> set xs. P x) \<Longrightarrow> (ys = [] \<or> \<not> P (hd ys)) \<Longrightarrow> dropWhile P (xs @ ys) = ys"
  by (induction xs) (cases ys, auto)+

lemma drop_nth_Cons: "i < length xs \<Longrightarrow> drop i xs = xs ! i # drop (Suc i) xs"
  by (rule Cons_nth_drop_Suc [symmetric])

lemma last_snoc_nth: "xs \<noteq> [] \<Longrightarrow> xs ! (length xs - 1) = last xs"
  by (simp add: last_conv_nth)

lemma upt_split: "i \<le> j \<Longrightarrow> j \<le> k \<Longrightarrow> [i..<k] = [i..<j] @ [j..<k]"
  by (metis le_add_diff_inverse upt_add_eq_append)

lemma takeWhile_sorted_filter:
  "sorted xs \<Longrightarrow> takeWhile (\<lambda>x. x \<le> k) xs = filter (\<lambda>x. x \<le> (k::nat)) xs"
proof (induction xs)
  case (Cons a xs)
  show ?case
  proof (cases "a \<le> k")
    case False
    with Cons.prems have "\<forall>x \<in> set xs. \<not> x \<le> k" by auto
    with False show ?thesis by (simp add: filter_empty_conv [THEN iffD2])
  qed (use Cons in simp)
qed simp

end
