(* ===== verification/Arrays.thy ===== *)
theory Arrays
  imports Prelude
begin

text \<open>
  The growable array of \<open>compiler/array.hpp\<close>: a buffer of \<open>capacity\<close> slots, of which the first
  \<open>size\<close> hold elements. A slot that \<open>new T[n]\<close> made and nobody wrote is \<open>None\<close>; an access to it
  or past the buffer is an error of the model, so the lemmas show that no operation makes one.
\<close>

record 'a arr =
  slots :: "'a option list"
  asize :: nat

definition capacity :: "'a arr \<Rightarrow> nat" where
  "capacity a = length (slots a)"

definition arr_empty :: "'a arr" where
  "arr_empty = \<lparr>slots = [], asize = 0\<rparr>"

text \<open>The range constructor: the capacity is the distance, every slot is filled.\<close>

definition arr_of_range :: "'a list \<Rightarrow> 'a arr" where
  "arr_of_range xs = \<lparr>slots = map Some xs, asize = length xs\<rparr>"

definition arr_get :: "'a arr \<Rightarrow> nat \<Rightarrow> 'a option result" where
  "arr_get a i = (if i < asize a then Inr (slots a ! i) else Inl AssertFail)"

definition arr_put :: "'a arr \<Rightarrow> nat \<Rightarrow> 'a \<Rightarrow> 'a arr result" where
  "arr_put a i x =
     (if i < asize a then Inr (a\<lparr>slots := (slots a)[i := Some x]\<rparr>) else Inl AssertFail)"

definition new_capacity :: "nat \<Rightarrow> nat" where
  "new_capacity c = c + c div 2 + 1"

definition arr_grow :: "'a arr \<Rightarrow> 'a arr" where
  "arr_grow a =
     (if asize a = capacity a
      then a\<lparr>slots := slots a @ replicate (new_capacity (capacity a) - capacity a) None\<rparr>
      else a)"

definition arr_push :: "'a arr \<Rightarrow> 'a \<Rightarrow> 'a arr" where
  "arr_push a x =
     (let b = arr_grow a
      in b\<lparr>slots := (slots b)[asize b := Some x], asize := asize b + 1\<rparr>)"

text \<open>
  The invariant: the elements fit the buffer and every slot below \<open>size\<close> was written. The
  elements are then a list, and the operations are those of lists.
\<close>

definition arr_inv :: "'a arr \<Rightarrow> bool" where
  "arr_inv a = (asize a \<le> capacity a \<and> (\<forall>i < asize a. slots a ! i \<noteq> None))"

definition arr_list :: "'a arr \<Rightarrow> 'a list" where
  "arr_list a = map the (take (asize a) (slots a))"

lemma new_capacity_greater: "c < new_capacity c"
  by (simp add: new_capacity_def)

lemma arr_grow_room: "arr_inv a \<Longrightarrow> asize (arr_grow a) < capacity (arr_grow a)"
  by (auto simp: arr_grow_def arr_inv_def capacity_def new_capacity_def)

lemma arr_grow_inv: "arr_inv a \<Longrightarrow> arr_inv (arr_grow a)"
  by (auto simp: arr_grow_def arr_inv_def capacity_def nth_append)

lemma arr_grow_list: "arr_inv a \<Longrightarrow> arr_list (arr_grow a) = arr_list a"
  by (auto simp: arr_grow_def arr_inv_def arr_list_def capacity_def)

lemma arr_list_length: "arr_inv a \<Longrightarrow> length (arr_list a) = asize a"
  by (simp add: arr_list_def arr_inv_def capacity_def)

lemma arr_empty_inv: "arr_inv arr_empty" "arr_list arr_empty = []"
  by (simp_all add: arr_inv_def arr_empty_def arr_list_def capacity_def)

lemma arr_of_range_list: "arr_inv (arr_of_range xs)" "arr_list (arr_of_range xs) = xs"
  by (simp_all add: arr_inv_def arr_of_range_def arr_list_def capacity_def comp_def)

lemma arr_push_inv:
  assumes "arr_inv a"
  shows "arr_inv (arr_push a x)"
  using arr_grow_inv [OF assms] arr_grow_room [OF assms]
  by (auto simp: arr_push_def arr_inv_def capacity_def Let_def nth_list_update less_Suc_eq)

lemma arr_push_list:
  assumes "arr_inv a"
  shows "arr_list (arr_push a x) = arr_list a @ [x]"
proof -
  let ?b = "arr_grow a"
  have "asize ?b < length (slots ?b)"
    using arr_grow_room [OF assms] by (simp add: capacity_def)
  then have "arr_list (arr_push a x) = arr_list ?b @ [x]"
    by (simp add: arr_push_def arr_list_def Let_def take_Suc_conv_app_nth)
  then show ?thesis
    using arr_grow_list [OF assms] by simp
qed

lemma arr_get_list: "arr_inv a \<Longrightarrow> i < asize a \<Longrightarrow> arr_get a i = Inr (Some (arr_list a ! i))"
  by (auto simp: arr_get_def arr_list_def arr_inv_def capacity_def)

lemma arr_put_list:
  "arr_inv a \<Longrightarrow> i < asize a \<Longrightarrow>
   \<exists>b. arr_put a i x = Inr b \<and> arr_inv b \<and> arr_list b = (arr_list a)[i := x]"
  by (auto simp: arr_put_def arr_list_def arr_inv_def capacity_def nth_list_update
      take_update_swap map_update)

text \<open>
  The interface its clients rely on: a sequence with an append, as the locale below. The
  clients build their results by pushing in a loop, so the law they use is that pushing a
  list of elements one by one yields that list.
\<close>

locale sequence_buffer =
  fixes empty :: "'s"
    and push :: "'s \<Rightarrow> 'a \<Rightarrow> 's"
    and inv :: "'s \<Rightarrow> bool"
    and elems :: "'s \<Rightarrow> 'a list"
  assumes empty_inv: "inv empty"
    and empty_elems: "elems empty = []"
    and push_inv: "inv s \<Longrightarrow> inv (push s x)"
    and push_elems: "inv s \<Longrightarrow> elems (push s x) = elems s @ [x]"
begin

lemma foldl_push_inv: "inv s \<Longrightarrow> inv (foldl push s xs)"
  by (induction xs arbitrary: s) (auto intro: push_inv)

lemma foldl_push_elems: "inv s \<Longrightarrow> elems (foldl push s xs) = elems s @ xs"
  by (induction xs arbitrary: s) (auto simp: push_inv push_elems)

lemma build_elems: "inv (foldl push empty xs) \<and> elems (foldl push empty xs) = xs"
  by (simp add: foldl_push_inv foldl_push_elems empty_inv empty_elems)

end

interpretation arr: sequence_buffer arr_empty arr_push arr_inv arr_list
  by unfold_locales (simp_all add: arr_empty_inv arr_push_inv arr_push_list)

text \<open>
  Growth is geometric: the capacity after growing is at least one and a half times the old
  one, so copies stay linear in the pushes. The bound below is the total number of slots
  copied while pushing into an array: at most three times the final size.
\<close>

definition copy_cost :: "'a arr \<Rightarrow> nat" where
  "copy_cost a = (if asize a = capacity a then capacity a else 0)"

fun push_cost :: "'a arr \<Rightarrow> 'a list \<Rightarrow> nat" where
  "push_cost a [] = 0"
| "push_cost a (x # xs) = copy_cost a + push_cost (arr_push a x) xs"

lemma arr_push_size [simp]: "asize (arr_push a x) = asize a + 1"
  by (simp add: arr_push_def arr_grow_def Let_def)

lemma arr_push_capacity:
  "capacity (arr_push a x) =
   (if asize a = capacity a then new_capacity (capacity a) else capacity a)"
  by (simp add: arr_push_def arr_grow_def capacity_def Let_def new_capacity_def)

text \<open>The potential: three units are saved per push and spent on the next copy.\<close>

definition potential :: "'a arr \<Rightarrow> int" where
  "potential a = 3 * int (asize a) - 2 * int (capacity a)"

lemma push_cost_potential:
  "asize a \<le> capacity a \<Longrightarrow>
   int (push_cost a xs) + potential (foldl arr_push a xs) \<le> potential a + 3 * int (length xs) + 0"
proof (induction xs arbitrary: a)
  case Nil
  then show ?case by simp
next
  case (Cons x xs)
  have "asize (arr_push a x) \<le> capacity (arr_push a x)"
    using Cons.prems by (auto simp: arr_push_capacity new_capacity_def)
  from Cons.IH [OF this]
  have "int (push_cost (arr_push a x) xs) + potential (foldl arr_push (arr_push a x) xs)
    \<le> potential (arr_push a x) + 3 * int (length xs)" by simp
  moreover have "int (copy_cost a) + potential (arr_push a x) \<le> potential a + 3"
    by (auto simp: copy_cost_def potential_def arr_push_capacity new_capacity_def)
  ultimately show ?case by simp
qed

end
