(* ===== verification/Strings.thy ===== *)
theory Strings
  imports Prelude
begin

unbundle bit_operations_syntax

text \<open>
  The string view of \<open>compiler/string.hpp\<close>. A \<open>Str\<close> is a pointer and a size into a buffer that
  is never written, so its value is the list of its bytes. The comparisons are those of the
  code, over \<open>memcmp\<close> and \<open>strncmp\<close> of the C library; the hash is computed at the widths the
  code computes it.
\<close>

type_synonym str = string

text \<open>\<open>memcmp (a, b, n)\<close>: the sign of the first difference, bytes compared as unsigned.\<close>

fun memcmp :: "str \<Rightarrow> str \<Rightarrow> nat \<Rightarrow> int" where
  "memcmp (x # xs) (y # ys) (Suc n) =
     (if x = y then memcmp xs ys n else if x < y then -1 else 1)"
| "memcmp _ _ _ = 0"

text \<open>
  \<open>strncmp (s, d, n)\<close> for a zero-terminated \<open>s\<close>, given without its terminator, and \<open>n\<close> readable
  bytes \<open>d\<close>: it stops at the first difference or after a zero byte that both share.
\<close>

fun strncmp :: "str \<Rightarrow> str \<Rightarrow> nat \<Rightarrow> int" where
  "strncmp s d 0 = 0"
| "strncmp s [] (Suc n) = 0"
| "strncmp [] (y # ys) (Suc n) = (if y = char_of (0::nat) then 0 else -1)"
| "strncmp (x # xs) (y # ys) (Suc n) =
     (if x = y then strncmp xs ys n else if x < y then -1 else 1)"

definition Str_eq :: "str \<Rightarrow> str \<Rightarrow> bool" where
  "Str_eq a b = (length a = length b \<and> (length a = 0 \<or> memcmp a b (length a) = 0))"

text \<open>
  Comparison with a C string: \<open>other[size]\<close> is read after \<open>strncmp\<close> agreed. \<open>None\<close> is a read
  past the terminator of \<open>other\<close>.
\<close>

definition cstr_at :: "str \<Rightarrow> nat \<Rightarrow> char option" where
  "cstr_at s i = (if i < length s then Some (s ! i)
     else if i = length s then Some (char_of (0::nat)) else None)"

definition Str_eq_c :: "str \<Rightarrow> str \<Rightarrow> bool option" where
  "Str_eq_c d other =
     (if length d = 0 \<or> strncmp other d (length d) = 0
      then map_option (\<lambda>c. c = char_of (0::nat)) (cstr_at other (length d))
      else Some False)"

definition Str_less :: "str \<Rightarrow> str \<Rightarrow> bool" where
  "Str_less a b =
     (let r = memcmp a b (min (length a) (length b))
      in if r \<noteq> 0 then r < 0 else length a < length b)"

definition Str_index :: "str \<Rightarrow> nat \<Rightarrow> char result" where
  "Str_index s i = (if i < length s then Inr (s ! i) else Inl AssertFail)"

text \<open>
  \<open>std::hash<Str>\<close>: \<open>data[i] + 0x9e3779b9\<close> adds a signed \<open>char\<close> to an \<open>unsigned int\<close>, so it is
  computed in 32 bits; the shifts of \<open>seed\<close> and the sum are in 64 bits.
\<close>

definition schar :: "char \<Rightarrow> int" where
  "schar c = (let n = of_char c in if n < 128 then n else n - 256)"

definition hash_step :: "64 word \<Rightarrow> char \<Rightarrow> 64 word" where
  "hash_step seed c =
     seed XOR (ucast (word_of_int (schar c) + 0x9e3779b9 :: 32 word)
               + push_bit 6 seed + drop_bit 2 seed)"

definition Str_hash :: "str \<Rightarrow> 64 word" where
  "Str_hash s = foldl hash_step 0 s"

section \<open>The comparisons decide equality and the lexicographic order\<close>

lemma memcmp_self [simp]: "memcmp a a n = 0"
proof (induction a arbitrary: n)
  case (Cons x a)
  then show ?case by (cases n) auto
qed simp

lemma memcmp_eq_0: "length a = length b \<Longrightarrow> memcmp a b (length a) = 0 \<longleftrightarrow> a = b"
  by (induction a b rule: list_induct2) (auto split: if_splits)

lemma Str_eq_iff [simp]: "Str_eq a b \<longleftrightarrow> a = b"
  using memcmp_eq_0 [of a b] by (auto simp: Str_eq_def)

lemma Str_less_Nil: "Str_less [] b \<longleftrightarrow> b \<noteq> []" "\<not> Str_less a []"
  by (auto simp: Str_less_def)

lemma Str_less_Cons:
  "Str_less (x # a) (y # b) \<longleftrightarrow> x < y \<or> x = y \<and> Str_less a b"
  by (auto simp: Str_less_def Let_def)

lemma Str_less_less: "Str_less a b \<longleftrightarrow> a < b"
proof (induction a arbitrary: b)
  case Nil
  then show ?case by (cases b) (auto simp: Str_less_Nil)
next
  case (Cons x a)
  then show ?case by (cases b) (auto simp: Str_less_Nil Str_less_Cons)
qed

definition no_nul :: "str \<Rightarrow> bool" where
  "no_nul s = (char_of (0::nat) \<notin> set s)"

lemma strncmp_eq_0:
  "no_nul d \<Longrightarrow> strncmp s d (length d) = 0 \<longleftrightarrow> take (length d) s = d"
proof (induction s d "length d" rule: strncmp.induct)
  case (3 y ys n)
  then show ?case by (auto simp: no_nul_def)
next
  case (4 x xs y ys n)
  then show ?case by (auto simp: no_nul_def split: if_splits)
qed auto

lemma Str_eq_c_correct:
  assumes "no_nul d" "no_nul other"
  shows "Str_eq_c d other = Some (d = other)"
proof (cases "take (length d) other = d")
  case True
  then obtain r where "other = d @ r"
    by (metis append_take_drop_id)
  with assms show ?thesis
    by (cases r) (auto simp: Str_eq_c_def strncmp_eq_0 cstr_at_def no_nul_def nth_append)
next
  case False
  with assms show ?thesis
    by (auto simp: Str_eq_c_def strncmp_eq_0)
qed

end
