(* ===== verification/Output.thy ===== *)
theory Output
  imports Strings
begin

text \<open>
  Diagnostics: \<open>compiler/location.hpp\<close> and \<open>compiler/output.cpp\<close>. Callers format their message
  first; here it is a string. \<open>Output::sources\<close> is keyed by the source name's pointer, one per
  file, so it is a list of pairs looked up by name.
\<close>

section \<open>Locations\<close>

definition Location :: "str \<Rightarrow> int \<Rightarrow> int \<Rightarrow> nat \<Rightarrow> nat \<Rightarrow> location" where
  "Location src l c off n = \<lparr>l_source = src, l_line = l, l_column = c, l_offset = off, l_length = n\<rparr>"

text \<open>The constructor from two locations: the span from the start of the first to the end of the second.\<close>

definition Location_span :: "location \<Rightarrow> location \<Rightarrow> location result" where
  "Location_span lhs rhs =
     bindR (assertR (l_source lhs = l_source rhs)) (\<lambda>_.
     bindR (assertR (l_offset lhs + l_length lhs \<le> l_offset rhs)) (\<lambda>_.
       Inr \<lparr>l_source = l_source lhs, l_line = l_line lhs, l_column = l_column lhs,
            l_offset = l_offset lhs, l_length = l_offset rhs + l_length rhs - l_offset lhs\<rparr>))"

lemma Location_span_covers:
  "Location_span a b = Inr s \<Longrightarrow>
   l_offset s = l_offset a \<and> l_offset s + l_length s = l_offset b + l_length b \<and> l_source s = l_source b"
  by (auto simp: Location_span_def result_simps)

section \<open>The line around an offset\<close>

fun line_begin :: "str \<Rightarrow> nat \<Rightarrow> nat" where
  "line_begin d 0 = 0"
| "line_begin d (Suc b) = (if d ! b \<noteq> CHR 0x0A then line_begin d b else Suc b)"

function line_end :: "str \<Rightarrow> nat \<Rightarrow> nat" where
  "line_end d e =
     (if e < length d \<and> d ! e \<noteq> CHR 0x0D \<and> d ! e \<noteq> CHR 0x0A then line_end d (e + 1) else e)"
  by pat_completeness auto
termination
  by (relation "measure (\<lambda>(d, e). length d - e)") auto

declare line_end.simps [simp del]

definition findLine :: "str \<Rightarrow> nat \<Rightarrow> nat \<times> nat" where
  "findLine data off = (line_begin data off, line_end data off)"

lemma line_begin_le: "line_begin d b \<le> b"
  by (induction b) auto

lemma line_begin_clean: "line_begin d b \<le> i \<Longrightarrow> i < b \<Longrightarrow> d ! i \<noteq> CHR 0x0A"
  by (induction b) (auto simp: less_Suc_eq split: if_splits)

lemma line_begin_start: "line_begin d b = 0 \<or> d ! (line_begin d b - 1) = CHR 0x0A"
  by (induction b) auto

lemma line_begin_unique:
  assumes "b \<le> e" "\<And>i. b \<le> i \<Longrightarrow> i < e \<Longrightarrow> d ! i \<noteq> CHR 0x0A"
    "b = 0 \<or> d ! (b - 1) = CHR 0x0A"
  shows "line_begin d e = b"
  using assms by (induction e) (auto simp: le_Suc_eq)

lemma line_end_ge: "e \<le> line_end d e"
proof (induction d e rule: line_end.induct)
  case (1 d e)
  then show ?case by (subst line_end.simps) auto
qed

lemma line_end_bound: "e \<le> length d \<Longrightarrow> line_end d e \<le> length d"
proof (induction d e rule: line_end.induct)
  case (1 d e)
  then show ?case by (subst line_end.simps) auto
qed

lemma line_end_clean: "e \<le> i \<Longrightarrow> i < line_end d e \<Longrightarrow> d ! i \<noteq> CHR 0x0A \<and> d ! i \<noteq> CHR 0x0D"
proof (induction d e rule: line_end.induct)
  case (1 d e)
  show ?case
  proof (cases "e < length d \<and> d ! e \<noteq> CHR 0x0D \<and> d ! e \<noteq> CHR 0x0A")
    case True
    with "1.prems" have "i < line_end d (e + 1)" by (subst (asm) line_end.simps) simp
    with "1.IH" [OF True] "1.prems" True show ?thesis by (cases "i = e") auto
  next
    case False
    with "1.prems" show ?thesis by (subst (asm) line_end.simps) auto
  qed
qed

lemma line_end_stop:
  "line_end d e < length d \<Longrightarrow> d ! line_end d e = CHR 0x0A \<or> d ! line_end d e = CHR 0x0D"
proof (induction d e rule: line_end.induct)
  case (1 d e)
  then show ?case
    by (cases "e < length d \<and> d ! e \<noteq> CHR 0x0D \<and> d ! e \<noteq> CHR 0x0A")
      (auto simp: line_end.simps [of d e])
qed

section \<open>Messages\<close>

text \<open>
  \<open>strprintfv\<close> formats into a buffer of 4096 bytes and appends it as a C string: what does not
  fit, and what follows a zero byte, is lost.
\<close>

definition strprintf :: "str \<Rightarrow> str" where
  "strprintf s = takeWhile (\<lambda>c. c \<noteq> char_of (0::nat)) (take 4095 s)"

record outp =
  sources :: "(str \<times> str) list"
  messages :: "str list"
  errors :: int
  warnings :: int

definition Output0 :: outp where
  "Output0 = \<lparr>sources = [], messages = [], errors = 0, warnings = 0\<rparr>"

definition print_excerpt :: "str \<Rightarrow> location \<Rightarrow> str" where
  "print_excerpt contents loc =
     (let (b, e) = findLine contents (l_offset loc)
      in CHR 0x0A # CHR 0x09 # take (e - b) (drop b contents) @
         CHR 0x0A # CHR 0x09 # replicate (l_offset loc - b) (CHR '' '') @
         replicate (max 1 (min (l_length loc) (e - l_offset loc))) (CHR ''^'') @ [CHR 0x0A])"

definition print_at :: "outp \<Rightarrow> location \<Rightarrow> str \<Rightarrow> str result" where
  "print_at out loc msg =
     (let head = strprintf (l_source loc @ ''('' @ show_int (l_line loc + 1) @ '','' @
                            show_int (l_column loc + 1) @ ''): '') @
                 strprintf msg @ [CHR 0x0A]
      in case map_of (sources out) (l_source loc) of
           None \<Rightarrow> Inr head
         | Some contents \<Rightarrow>
             bindR (assertR (l_offset loc + l_length loc \<le> length contents)) (\<lambda>_.
               Inr (head @ print_excerpt contents loc)))"

definition print_plain :: "str \<Rightarrow> str" where
  "print_plain msg = strprintf msg @ [CHR 0x0A]"

definition error_at :: "outp \<Rightarrow> location \<Rightarrow> str \<Rightarrow> outp result" where
  "error_at out loc msg =
     bindR (print_at out loc msg) (\<lambda>m.
       Inr (out\<lparr>messages := messages out @ [m], errors := errors out + 1\<rparr>))"

definition warning_at :: "outp \<Rightarrow> location \<Rightarrow> str \<Rightarrow> outp result" where
  "warning_at out loc msg =
     bindR (print_at out loc msg) (\<lambda>m.
       Inr (out\<lparr>messages := messages out @ [m], warnings := warnings out + 1\<rparr>))"

definition error_plain :: "outp \<Rightarrow> str \<Rightarrow> outp" where
  "error_plain out msg =
     out\<lparr>messages := messages out @ [print_plain msg], errors := errors out + 1\<rparr>"

definition warning_plain :: "outp \<Rightarrow> str \<Rightarrow> outp" where
  "warning_plain out msg =
     out\<lparr>messages := messages out @ [print_plain msg], warnings := warnings out + 1\<rparr>"

text \<open>\<open>flush\<close> writes every message to standard error, in order, and drops them.\<close>

definition flush :: "outp \<Rightarrow> str \<times> outp" where
  "flush out = (concat (messages out), out\<lparr>messages := []\<rparr>)"

text \<open>
  \<open>panic\<close> pushes its message, flushes and exits: what the process wrote to standard error, or
  the failed assertion of \<open>print\<close>. The other components return \<open>Panic loc msg\<close>; the driver that
  holds the \<open>output\<close> turns it into this text.
\<close>

definition panic_at :: "outp \<Rightarrow> location \<Rightarrow> str \<Rightarrow> str result" where
  "panic_at out loc msg =
     bindR (print_at out loc msg) (\<lambda>m.
       Inr (fst (flush (out\<lparr>messages := messages out @ [m]\<rparr>))))"

section \<open>The excerpt\<close>

lemma print_excerpt_lines:
  "print_excerpt contents loc =
     CHR 0x0A # CHR 0x09 #
       take (line_end contents (l_offset loc) - line_begin contents (l_offset loc))
         (drop (line_begin contents (l_offset loc)) contents) @
     CHR 0x0A # CHR 0x09 # replicate (l_offset loc - line_begin contents (l_offset loc)) (CHR '' '') @
     replicate (max 1 (min (l_length loc) (line_end contents (l_offset loc) - l_offset loc))) (CHR ''^'') @
     [CHR 0x0A]"
  by (simp add: print_excerpt_def findLine_def)

lemma error_at_counts:
  "error_at out loc msg = Inr out' \<Longrightarrow>
   errors out' = errors out + 1 \<and> length (messages out') = length (messages out) + 1 \<and>
   sources out' = sources out \<and> warnings out' = warnings out"
  by (auto simp: error_at_def result_simps)

end
