(* ===== verification/Tokenize.thy ===== *)
theory Tokenize
  imports Output
begin

text \<open>
  The tokenizer, \<open>compiler/tokenize.cpp\<close>: the line table, the scan of the buffer into tokens,
  their locations, the bracket check and the newline tokens. Loops over the buffer are
  recursions on the offset; a panic is an \<open>Inl\<close>.
\<close>

section \<open>Data\<close>

record line_rec =
  indent :: nat
  ln_offset :: nat

datatype token_type = TypeAtom | TypeBracket | TypeIdent | TypeString | TypeCharacter
  | TypeNumber | TypeLine | TypeEnd

text \<open>
  A token's \<open>data\<close> is a view into the buffer: its bytes are \<open>t_data\<close> and \<open>t_at\<close> is where the
  view starts, \<open>data.data\<close> minus the start of the buffer.
\<close>

record token =
  t_type :: token_type
  t_data :: str
  t_at :: nat
  t_offset :: nat
  t_matching :: nat
  t_location :: location

record tokens_rec =
  tk_lines :: "line_rec list"
  tk_tokens :: "token list"

section \<open>Character classes\<close>

text \<open>\<open>char\<close> is signed on the supported targets, so \<open>inRange\<close> compares signed bytes.\<close>

definition inRange :: "char \<Rightarrow> char \<Rightarrow> char \<Rightarrow> bool" where
  "inRange ch mn mx = (schar mn \<le> schar ch \<and> schar ch \<le> schar mx)"

definition isSpace :: "char \<Rightarrow> bool" where
  "isSpace ch = (ch = CHR '' '' \<or> ch = CHR 0x0D \<or> ch = CHR 0x0A)"

definition isDigit :: "char \<Rightarrow> bool" where
  "isDigit ch = inRange ch (CHR ''0'') (CHR ''9'')"

definition isNumber :: "char \<Rightarrow> bool" where
  "isNumber ch = (isDigit ch \<or> ch \<in> set ''_.eE+-'')"

definition isIdentStart :: "char \<Rightarrow> bool" where
  "isIdentStart ch = (inRange ch (CHR ''a'') (CHR ''z'') \<or> inRange ch (CHR ''A'') (CHR ''Z'') \<or>
     ch = CHR ''_'')"

definition isIdent :: "char \<Rightarrow> bool" where
  "isIdent ch = (isIdentStart ch \<or> isDigit ch)"

definition isBracket :: "char \<Rightarrow> bool" where
  "isBracket ch = (ch \<in> set ''()[]{}'')"

definition isAtom :: "char \<Rightarrow> bool" where
  "isAtom ch = (ch \<in> set (''!$%&*+,-./:;<=>?@'' @ [CHR 0x5C] @ ''^'' @ [CHR 0x60] @ ''|~''))"

section \<open>The line table\<close>

text \<open>The three nested loops of \<open>parseLines\<close>; \<open>n\<close> is \<open>result.size\<close>, used in the tab message only.\<close>

function scan_indent :: "str \<Rightarrow> nat \<Rightarrow> nat \<Rightarrow> nat \<times> nat" where
  "scan_indent d off ind =
     (if off < length d \<and> d ! off = CHR '' '' then scan_indent d (off + 1) (ind + 1)
      else (off, ind))"
  by pat_completeness auto
termination by (relation "measure (\<lambda>(d, off, ind). length d - off)") auto

function scan_line :: "str \<Rightarrow> str \<Rightarrow> nat \<Rightarrow> nat \<Rightarrow> nat \<Rightarrow> nat result" where
  "scan_line src d n ind off =
     (if off < length d \<and> d ! off \<noteq> CHR 0x0A
      then if d ! off = CHR 0x09
           then Inl (Panic (Location src (int n) (int ind) off 1) ''Source files can't have tabs'')
           else scan_line src d n ind (off + 1)
      else Inr off)"
  by pat_completeness auto
termination by (relation "measure (\<lambda>(src, d, n, ind, off). length d - off)") auto

declare scan_indent.simps [simp del] scan_line.simps [simp del]

lemma scan_indent_ge: "scan_indent d off ind = (off', ind') \<Longrightarrow> off \<le> off'"
proof (induction d off ind rule: scan_indent.induct)
  case (1 d off ind)
  then show ?case by (subst (asm) (2) scan_indent.simps) (auto split: if_splits)
qed

lemma scan_line_ge: "scan_line src d n ind off = Inr off' \<Longrightarrow> off \<le> off'"
proof (induction src d n ind off rule: scan_line.induct)
  case (1 src d n ind off)
  then show ?case by (subst (asm) (2) scan_line.simps) (auto split: if_splits)
qed

function parseLines_from :: "str \<Rightarrow> str \<Rightarrow> nat \<Rightarrow> line_rec list \<Rightarrow> line_rec list result" where
  "parseLines_from src d off result =
     (if off < length d
      then (case scan_indent d off 0 of (off1, ind) \<Rightarrow>
            (case scan_line src d (length result) ind off1 of
               Inl e \<Rightarrow> Inl e
             | Inr off2 \<Rightarrow>
                 parseLines_from src d (if off2 < length d then off2 + 1 else off2)
                   (result @ [\<lparr>indent = ind, ln_offset = off\<rparr>])))
      else Inr result)"
  by pat_completeness auto
termination
proof (relation "measure (\<lambda>(src, d, off, result). length d - off)", goal_cases)
  case (2 src d off result off1 ind off2)
  then have "off \<le> off1" "off1 \<le> off2"
    by (simp_all add: scan_indent_ge [OF sym] scan_line_ge)
  with 2 show ?case by auto
qed simp

declare parseLines_from.simps [simp del]

definition parseLines :: "str \<Rightarrow> str \<Rightarrow> line_rec list result" where
  "parseLines src d = parseLines_from src d 0 []"

text \<open>\<open>lower_bound\<close> is the first line whose offset exceeds \<open>off\<close>; its index is the length of the prefix.\<close>

definition lower_bound_line :: "line_rec list \<Rightarrow> nat \<Rightarrow> nat" where
  "lower_bound_line ls off = length (takeWhile (\<lambda>l. ln_offset l \<le> off) ls)"

definition getLocation :: "str \<Rightarrow> line_rec list \<Rightarrow> nat \<Rightarrow> nat \<Rightarrow> location result" where
  "getLocation src ls off n =
     (let it = lower_bound_line ls off
      in if it = 0 then Inl AssertFail
         else Inr (Location src (int (it - 1)) (int off - int (ln_offset (ls ! (it - 1)))) off n))"

section \<open>Scanning tokens\<close>

function scan_end :: "(char \<Rightarrow> bool) \<Rightarrow> str \<Rightarrow> nat \<Rightarrow> nat" where
  "scan_end fn d e = (if e < length d \<and> fn (d ! e) then scan_end fn d (e + 1) else e)"
  by pat_completeness auto
termination by (relation "measure (\<lambda>(fn, d, e). length d - e)") auto

declare scan_end.simps [simp del]

text \<open>The view that \<open>scan\<close> returns, as its bytes; the new offset is \<open>scan_end\<close>.\<close>

definition scan_str :: "(char \<Rightarrow> bool) \<Rightarrow> str \<Rightarrow> nat \<Rightarrow> str" where
  "scan_str fn d s = take (scan_end fn d s - s) (drop s d)"

definition mk_token :: "token_type \<Rightarrow> str \<Rightarrow> nat \<Rightarrow> nat \<Rightarrow> token" where
  "mk_token ty s at off = \<lparr>t_type = ty, t_data = s, t_at = at, t_offset = off, t_matching = 0,
     t_location = Location0\<rparr>"

lemma scan_end_ge: "e \<le> scan_end fn d e"
proof (induction fn d e rule: scan_end.induct)
  case (1 fn d e)
  then show ?case by (subst scan_end.simps) auto
qed

lemma scan_end_gr: "e < length d \<Longrightarrow> fn (d ! e) \<Longrightarrow> e < scan_end fn d e"
  using scan_end_ge [of "e + 1" fn d] by (subst scan_end.simps) auto

definition msg_unknown_char :: "char \<Rightarrow> str" where
  "msg_unknown_char ch =
     (if inRange ch (CHR 0x00) (CHR 0x20) then ''Unknown character '' @ show_int (schar ch)
      else ''Unknown character '' @ [CHR 0x27, ch, CHR 0x27])"

text \<open>
  One iteration of the loop of \<open>parseTokens\<close> at an offset inside the buffer: the tokens it pushes
  (none or one) and the next offset. An unterminated string ends at the end of the buffer and
  the offset then passes it by one.
\<close>

definition token_step :: "str \<Rightarrow> line_rec list \<Rightarrow> str \<Rightarrow> nat \<Rightarrow> (token list \<times> nat) result" where
  "token_step src ls d off =
     (let ch = d ! off in
      if isSpace ch then Inr ([], off + 1)
      else if ch = CHR ''#'' then Inr ([], scan_end (\<lambda>c. c \<noteq> CHR 0x0A) d off)
      else if isIdentStart ch then
        Inr ([mk_token TypeIdent (scan_str isIdent d off) off off], scan_end isIdent d off)
      else if isDigit ch then
        Inr ([mk_token TypeNumber (scan_str isNumber d off) off off], scan_end isNumber d off)
      else if ch = CHR 0x22 \<or> ch = CHR 0x27 then
        Inr ([mk_token (if ch = CHR 0x22 then TypeString else TypeCharacter)
                (scan_str (\<lambda>c. c \<noteq> ch) d (off + 1)) (off + 1) off],
             scan_end (\<lambda>c. c \<noteq> ch) d (off + 1) + 1)
      else if isBracket ch then Inr ([mk_token TypeBracket [ch] off off], off + 1)
      else if isAtom ch then
        Inr ([mk_token TypeAtom (scan_str isAtom d off) off off], scan_end isAtom d off)
      else bindR (getLocation src ls off 1) (\<lambda>loc.
        Inl (Panic loc (msg_unknown_char ch))))"

lemma token_step_progress:
  assumes "token_step src ls d off = Inr (ts, off')" "off < length d"
  shows "off < off'"
proof -
  have "isIdentStart ch \<Longrightarrow> isIdent ch" "isDigit ch \<Longrightarrow> isNumber ch" for ch
    by (simp_all add: isIdent_def isNumber_def)
  with assms show ?thesis
    using scan_end_gr [of off d] Suc_leD [OF scan_end_ge [of "Suc off" _ d]]
    by (auto simp: token_step_def Let_def less_Suc_eq_le result_simps split: if_splits)
qed

function parseTokens_from :: "str \<Rightarrow> line_rec list \<Rightarrow> str \<Rightarrow> nat \<Rightarrow> token list \<Rightarrow> token list result" where
  "parseTokens_from src ls d off result =
     (if off < length d
      then (case token_step src ls d off of
              Inl e \<Rightarrow> Inl e
            | Inr (ts, off') \<Rightarrow> parseTokens_from src ls d off' (result @ ts))
      else Inr result)"
  by pat_completeness auto
termination
  by (relation "measure (\<lambda>(src, ls, d, off, result). length d - off)")
    (auto dest!: token_step_progress)

declare parseTokens_from.simps [simp del]

definition parseTokens :: "str \<Rightarrow> str \<Rightarrow> line_rec list \<Rightarrow> token list result" where
  "parseTokens src d ls = parseTokens_from src ls d 0 []"

text \<open>The loop of \<open>tokenize\<close> that fills in the locations, with its two assertions.\<close>

fun locate_tokens :: "str \<Rightarrow> line_rec list \<Rightarrow> nat \<Rightarrow> token list \<Rightarrow> token list result" where
  "locate_tokens src ls prev_end [] = Inr []"
| "locate_tokens src ls prev_end (t # ts) =
     (let start = t_offset t; e = t_at t + length (t_data t) in
      bindR (assertR (start < e)) (\<lambda>_.
      bindR (assertR (prev_end \<le> start)) (\<lambda>_.
      bindR (getLocation src ls start (e - start)) (\<lambda>loc.
      bindR (locate_tokens src ls e ts) (\<lambda>ts'.
        Inr (t\<lparr>t_location := loc\<rparr> # ts'))))))"

section \<open>Brackets\<close>

definition getClosingBracket :: "str \<Rightarrow> str result" where
  "getClosingBracket open =
     bindR (assertR (open = ''{'' \<or> open = ''('' \<or> open = ''['')) (\<lambda>_.
       Inr (if open = ''{'' then ''}'' else if open = ''('' then '')'' else '']''))"

definition msg_unmatched_closing :: "token \<Rightarrow> str" where
  "msg_unmatched_closing t = ''Unmatched closing bracket '' @ t_data t"

definition msg_mismatched_closing :: "str \<Rightarrow> token \<Rightarrow> str" where
  "msg_mismatched_closing close open =
     ''Mismatched closing bracket: expected '' @ close @ '' to close bracket at ('' @
     show_int (l_line (t_location open) + 1) @ '','' @
     show_int (l_column (t_location open) + 1) @ '')''"

definition msg_unmatched_opening :: "str \<Rightarrow> str" where
  "msg_unmatched_opening close =
     ''Unmatched opening bracket: expected '' @ close @ '' to close but found end of file''"

definition isOpening :: "str \<Rightarrow> bool" where
  "isOpening s = (s = ''{'' \<or> s = ''('' \<or> s = ''['')"

text \<open>The loop of \<open>matchBrackets\<close>: \<open>i\<close> indexes \<open>tokens\<close>, the stack holds indices, its top first.\<close>

function matchBrackets_from :: "token list \<Rightarrow> nat \<Rightarrow> nat list \<Rightarrow> unit result" where
  "matchBrackets_from tokens i brackets =
     (if i < length tokens
      then (let t = tokens ! i in
        if t_type t = TypeBracket then
          if isOpening (t_data t) then matchBrackets_from tokens (i + 1) (i # brackets)
          else (case brackets of
              [] \<Rightarrow> Inl (Panic (t_location t) (msg_unmatched_closing t))
            | b # rest \<Rightarrow>
                (let open = tokens ! b in
                 (case getClosingBracket (t_data open) of
                    Inl e \<Rightarrow> Inl e
                  | Inr close \<Rightarrow>
                     if t_data t \<noteq> close then
                       Inl (Panic (t_location t) (msg_mismatched_closing close open))
                     else matchBrackets_from tokens (i + 1) rest)))
        else matchBrackets_from tokens (i + 1) brackets)
      else (case brackets of
          [] \<Rightarrow> Inr ()
        | b # _ \<Rightarrow>
            bindR (getClosingBracket (t_data (tokens ! b))) (\<lambda>close.
              Inl (Panic (t_location (tokens ! b)) (msg_unmatched_opening close)))))"
  by pat_completeness auto
termination by (relation "measure (\<lambda>(ts, i, b). length ts - i)") auto

declare matchBrackets_from.simps [simp del]

definition matchBrackets :: "token list \<Rightarrow> unit result" where
  "matchBrackets tokens = matchBrackets_from tokens 0 []"

section \<open>Newline tokens\<close>

definition continueLine :: "token \<Rightarrow> bool" where
  "continueLine t =
     ((t_type t = TypeAtom \<and> t_data t \<noteq> ''>'') \<or>
      (t_type t = TypeBracket \<and> (t_data t = ''('' \<or> t_data t = ''['' \<or> t_data t = ''{'')))"

definition getLineToken :: "token \<Rightarrow> token" where
  "getLineToken pt =
     (let pl = t_location pt; n = length (t_data pt) in
      \<lparr>t_type = TypeLine, t_data = [], t_at = 0, t_offset = t_offset pt + n, t_matching = 0,
       t_location = Location (l_source pl) (l_line pl) (l_column pl + int n) (l_offset pl + n) 0\<rparr>)"

definition line_break :: "token \<Rightarrow> token \<Rightarrow> bool" where
  "line_break a b = (l_line (t_location a) < l_line (t_location b) \<and> \<not> continueLine a)"

text \<open>\<open>insertNewline_from prev ts\<close> is the loop from the token after \<open>prev\<close> on.\<close>

fun insertNewline_from :: "token \<Rightarrow> token list \<Rightarrow> token list" where
  "insertNewline_from prev [] = [getLineToken prev]"
| "insertNewline_from prev (t # ts) =
     (if line_break prev t then [getLineToken prev] else []) @ t # insertNewline_from t ts"

definition insertNewline :: "token list \<Rightarrow> token list" where
  "insertNewline tokens =
     (case tokens of [] \<Rightarrow> [] | t # ts \<Rightarrow> t # insertNewline_from t ts)"

section \<open>The tokenizer\<close>

definition tokenize :: "str \<Rightarrow> str \<Rightarrow> tokens_rec result" where
  "tokenize src d =
     bindR (parseLines src d) (\<lambda>ls.
     bindR (parseTokens src d ls) (\<lambda>ts.
     bindR (locate_tokens src ls 0 ts) (\<lambda>ts'.
     bindR (matchBrackets ts') (\<lambda>_.
       Inr \<lparr>tk_lines = ls, tk_tokens = insertNewline ts'\<rparr>))))"

fun tokenTypeName :: "token_type \<Rightarrow> str" where
  "tokenTypeName TypeAtom = ''atom''"
| "tokenTypeName TypeBracket = ''bracket''"
| "tokenTypeName TypeIdent = ''identifier''"
| "tokenTypeName TypeString = ''string''"
| "tokenTypeName TypeCharacter = ''character''"
| "tokenTypeName TypeNumber = ''number''"
| "tokenTypeName TypeLine = ''newline''"
| "tokenTypeName TypeEnd = ''end''"

definition tokenName :: "token \<Rightarrow> str" where
  "tokenName t =
     (if length (t_data t) \<noteq> 0 then CHR 0x27 # t_data t @ [CHR 0x27] else tokenTypeName (t_type t))"

end
