(* ===== verification/TokenizeLines.thy ===== *)
theory TokenizeLines
  imports Tokenize
begin

text \<open>
  The line table of the tokenizer and the locations read from it. The table lists exactly the
  offsets that start a line, so \<open>getLocation\<close> returns the number of newlines before the offset
  and the distance to the start of its line, and its assertion holds at every offset of the
  buffer.
\<close>

definition is_line_start :: "str \<Rightarrow> nat \<Rightarrow> bool" where
  "is_line_start d i = (i = 0 \<or> d ! (i - 1) = CHR 0x0A)"

definition line_starts :: "str \<Rightarrow> nat list" where
  "line_starts d = filter (is_line_start d) [0..<length d]"

definition indent_at :: "str \<Rightarrow> nat \<Rightarrow> nat" where
  "indent_at d off = length (takeWhile (\<lambda>c. c = CHR '' '') (drop off d))"

definition line_table :: "str \<Rightarrow> line_rec list \<Rightarrow> bool" where
  "line_table d ls = (map ln_offset ls = line_starts d \<and>
     (\<forall>l \<in> set ls. indent l = indent_at d (ln_offset l)))"

section \<open>The inner loops\<close>

lemma scan_indent_eq:
  "scan_indent d off ind = (off + indent_at d off, ind + indent_at d off)"
proof (induction d off ind rule: scan_indent.induct)
  case (1 d off ind)
  show ?case
  proof (cases "off < length d")
    case True
    with "1.IH" show ?thesis
      by (subst scan_indent.simps)
        (auto simp: indent_at_def Cons_nth_drop_Suc [symmetric])
  next
    case False
    then show ?thesis by (subst scan_indent.simps) (simp add: indent_at_def)
  qed
qed

lemma indent_at_clean: "off \<le> i \<Longrightarrow> i < off + indent_at d off \<Longrightarrow> d ! i = CHR '' ''"
proof -
  assume "off \<le> i" and i: "i < off + indent_at d off"
  then have k: "i - off < length (takeWhile (\<lambda>c. c = CHR '' '') (drop off d))"
    by (simp add: indent_at_def)
  then have "takeWhile (\<lambda>c. c = CHR '' '') (drop off d) ! (i - off) = CHR '' ''"
    using set_takeWhileD [OF nth_mem [OF k]] by simp
  moreover have "off \<le> length d"
    using k by (cases "off \<le> length d") auto
  ultimately show ?thesis
    using k \<open>off \<le> i\<close> by (simp add: takeWhile_nth)
qed

lemma indent_at_bound: "off \<le> length d \<Longrightarrow> off + indent_at d off \<le> length d"
  using length_takeWhile_le [of "\<lambda>c. c = CHR '' ''" "drop off d"] by (simp add: indent_at_def)

lemma scan_line_Inr:
  assumes "scan_line src d n ind off = Inr off'" "off \<le> length d"
  shows "off' \<le> length d \<and> (\<forall>i. off \<le> i \<and> i < off' \<longrightarrow> d ! i \<noteq> CHR 0x0A \<and> d ! i \<noteq> CHR 0x09) \<and>
    (off' < length d \<longrightarrow> d ! off' = CHR 0x0A)"
  using assms
proof (induction src d n ind off rule: scan_line.induct)
  case (1 src d n ind off)
  show ?case
  proof (cases "off < length d \<and> d ! off \<noteq> CHR 0x0A")
    case True
    with "1.prems" have t: "d ! off \<noteq> CHR 0x09" "scan_line src d n ind (off + 1) = Inr off'"
      by (auto simp: scan_line.simps [of src d n ind off] split: if_splits)
    have "off' \<le> length d \<and>
      (\<forall>i. off + 1 \<le> i \<and> i < off' \<longrightarrow> d ! i \<noteq> CHR 0x0A \<and> d ! i \<noteq> CHR 0x09) \<and>
      (off' < length d \<longrightarrow> d ! off' = CHR 0x0A)"
      using "1.IH" [OF True t(1) t(2)] True by simp
    moreover have "d ! i \<noteq> CHR 0x0A \<and> d ! i \<noteq> CHR 0x09" if "off \<le> i" "i < off'" for i
      using calculation that t(1) True by (cases "i = off") auto
    ultimately show ?thesis by blast
  next
    case False
    with "1.prems" show ?thesis by (auto simp: scan_line.simps [of src d n ind off])
  qed
qed

lemma scan_line_Inl:
  "scan_line src d n ind off = Inl e \<Longrightarrow>
   (\<exists>loc msg. e = Panic loc msg) \<and> (\<exists>i. off \<le> i \<and> i < length d \<and> d ! i = CHR 0x09)"
proof (induction src d n ind off rule: scan_line.induct)
  case (1 src d n ind off)
  then show ?case
    by (cases "off < length d \<and> d ! off \<noteq> CHR 0x0A \<and> d ! off \<noteq> CHR 0x09")
      (auto simp: scan_line.simps [of src d n ind off] split: if_splits dest: Suc_leD)
qed

section \<open>The table\<close>

lemma filter_line_starts_step:
  assumes "off \<le> off2" "off2 \<le> length d" "off < length d" "is_line_start d off"
    "\<And>i. off \<le> i \<Longrightarrow> i < off2 \<Longrightarrow> d ! i \<noteq> CHR 0x0A"
  shows "filter (is_line_start d) [off..<length d] =
    off # filter (is_line_start d) [(if off2 < length d then off2 + 1 else off2)..<length d]"
    (is "_ = off # filter _ [?nxt..<_]")
proof -
  have nxt: "off < ?nxt" "?nxt \<le> length d" using assms(1-3) by auto
  have "[off..<length d] = off # [Suc off..<?nxt] @ [?nxt..<length d]"
    using nxt assms(3) upt_split [of "Suc off" ?nxt "length d"] by (simp add: upt_conv_Cons)
  moreover have "filter (is_line_start d) [Suc off..<?nxt] = []"
  proof -
    have "\<not> is_line_start d i" if "Suc off \<le> i" "i < ?nxt" for i
    proof -
      have "off \<le> i - 1" "i - 1 < off2" using that by (auto split: if_splits)
      then have "d ! (i - 1) \<noteq> CHR 0x0A" by (rule assms(5))
      with that show ?thesis by (simp add: is_line_start_def)
    qed
    then show ?thesis by (simp add: filter_empty_conv)
  qed
  ultimately show ?thesis using assms(4) by simp
qed

lemma parseLines_from_Inr:
  assumes "parseLines_from src d off result = Inr ls"
    "off \<le> length d" "off < length d \<longrightarrow> is_line_start d off"
    "\<forall>l \<in> set result. indent l = indent_at d (ln_offset l)"
  shows "map ln_offset ls = map ln_offset result @ filter (is_line_start d) [off..<length d] \<and>
    (\<forall>l \<in> set ls. indent l = indent_at d (ln_offset l)) \<and>
    (\<forall>i. off \<le> i \<and> i < length d \<longrightarrow> d ! i \<noteq> CHR 0x09)"
  using assms
proof (induction src d off result rule: parseLines_from.induct)
  case (1 src d off result)
  show ?case
  proof (cases "off < length d")
    case False
    with "1.prems" show ?thesis by (auto simp: parseLines_from.simps [of src d off result])
  next
    case True
    define off1 where "off1 = off + indent_at d off"
    define ind where "ind = indent_at d off"
    have p: "scan_indent d off 0 = (off1, ind)"
      by (simp add: scan_indent_eq off1_def ind_def)
    from "1.prems"(1) True obtain off2 where
      s: "scan_line src d (length result) ind off1 = Inr off2"
      by (auto simp: parseLines_from.simps [of src d off result] p split: sum.splits)
    let ?nxt = "if off2 < length d then off2 + 1 else off2"
    let ?l = "\<lparr>indent = ind, ln_offset = off\<rparr>"
    have r: "parseLines_from src d ?nxt (result @ [?l]) = Inr ls"
      using "1.prems"(1) True s by (simp add: parseLines_from.simps [of src d off result] p)
    have o1: "off1 \<le> length d" using indent_at_bound [of off d] True by (simp add: off1_def)
    note sl = scan_line_Inr [OF s o1]
    have le: "off \<le> off1" "off1 \<le> off2" using scan_line_ge [OF s] by (simp_all add: off1_def)
    have clean: "d ! i \<noteq> CHR 0x0A \<and> d ! i \<noteq> CHR 0x09" if "off \<le> i" "i < off2" for i
      using that indent_at_clean [of off i d] sl by (cases "i < off1") (auto simp: off1_def)
    have a: "?nxt \<le> length d" and b: "?nxt < length d \<longrightarrow> is_line_start d ?nxt"
      using sl by (auto simp: is_line_start_def)
    have c: "\<forall>l \<in> set (result @ [?l]). indent l = indent_at d (ln_offset l)"
      using "1.prems"(4) by (auto simp: ind_def)
    have ih: "map ln_offset ls =
        map ln_offset (result @ [?l]) @ filter (is_line_start d) [?nxt..<length d] \<and>
        (\<forall>l \<in> set ls. indent l = indent_at d (ln_offset l)) \<and>
        (\<forall>i. ?nxt \<le> i \<and> i < length d \<longrightarrow> d ! i \<noteq> CHR 0x09)"
      by (rule "1.IH" [OF True p [symmetric] s r a b c])
    have f: "filter (is_line_start d) [off..<length d] =
        off # filter (is_line_start d) [?nxt..<length d]"
      using filter_line_starts_step [of off off2 d] le sl True "1.prems"(3) clean by simp
    have notab: "\<forall>i. off \<le> i \<and> i < length d \<longrightarrow> d ! i \<noteq> CHR 0x09"
    proof (intro allI impI)
      fix i assume i: "off \<le> i \<and> i < length d"
      consider "i < off2" | "i = off2" | "?nxt \<le> i" using i by fastforce
      then show "d ! i \<noteq> CHR 0x09"
        using clean [of i] i sl ih by cases auto
    qed
    from ih f notab show ?thesis by simp
  qed
qed

lemma parseLines_from_Inl:
  "parseLines_from src d off result = Inl e \<Longrightarrow>
   (\<exists>loc msg. e = Panic loc msg) \<and> (\<exists>i < length d. d ! i = CHR 0x09)"
proof (induction src d off result rule: parseLines_from.induct)
  case (1 src d off result)
  obtain off1 ind where p: "scan_indent d off 0 = (off1, ind)" by force
  from "1.prems" p have off: "off < length d"
    by (auto simp: parseLines_from.simps [of src d off result] split: if_splits)
  show ?case
  proof (cases "scan_line src d (length result) ind off1")
    case (Inl f)
    with "1.prems" p off have "e = f" by (simp add: parseLines_from.simps [of src d off result])
    with scan_line_Inl [OF Inl] show ?thesis by blast
  next
    case (Inr off2)
    with "1.prems" p off "1.IH" [OF off p [symmetric] Inr] show ?thesis
      by (simp add: parseLines_from.simps [of src d off result])
  qed
qed

lemma parseLines_Inr:
  assumes "parseLines src d = Inr ls"
  shows "line_table d ls" "CHR 0x09 \<notin> set d"
proof -
  have "parseLines_from src d 0 [] = Inr ls" using assms by (simp add: parseLines_def)
  from parseLines_from_Inr [OF this]
  have *: "map ln_offset ls = filter (is_line_start d) [0..<length d]"
    "\<forall>l \<in> set ls. indent l = indent_at d (ln_offset l)"
    "\<forall>i. i < length d \<longrightarrow> d ! i \<noteq> CHR 0x09"
    by (simp_all add: is_line_start_def)
  from *(1,2) show "line_table d ls" by (simp add: line_table_def line_starts_def)
  from *(3) show "CHR 0x09 \<notin> set d" by (metis in_set_conv_nth)
qed

lemma parseLines_cases:
  "(\<exists>ls. parseLines src d = Inr ls) \<or> (\<exists>loc msg. parseLines src d = Inl (Panic loc msg))"
  by (cases "parseLines src d") (auto simp: parseLines_def dest: parseLines_from_Inl)

section \<open>Locations\<close>

definition count_newlines :: "str \<Rightarrow> nat" where
  "count_newlines s = length (filter (\<lambda>c. c = CHR 0x0A) s)"

lemma line_starts_upto:
  assumes "off < length d"
  shows "takeWhile (\<lambda>i. i \<le> off) (line_starts d) = filter (is_line_start d) [0..<Suc off]"
proof -
  have "sorted (line_starts d)"
    unfolding line_starts_def by (intro sorted_wrt_filter) simp
  then have "takeWhile (\<lambda>i. i \<le> off) (line_starts d) = filter (\<lambda>i. i \<le> off) (line_starts d)"
    by (rule takeWhile_sorted_filter)
  also have "\<dots> = filter (is_line_start d) (filter (\<lambda>i. i \<le> off) [0..<length d])"
    by (simp add: line_starts_def conj_commute)
  also have "filter (\<lambda>i. i \<le> off) [0..<length d] = [0..<Suc off]"
  proof -
    have "[0..<length d] = [0..<Suc off] @ [Suc off..<length d]"
      using assms upt_split [of 0 "Suc off" "length d"] by simp
    then show ?thesis by (simp add: filter_empty_conv del: upt_Suc)
  qed
  finally show ?thesis .
qed

lemma line_starts_count:
  "off \<le> length d \<Longrightarrow>
   length (filter (is_line_start d) [0..<Suc off]) = Suc (count_newlines (take off d))"
  by (induction off)
    (auto simp: is_line_start_def count_newlines_def take_Suc_conv_app_nth)

lemma line_starts_last:
  "last (filter (is_line_start d) [0..<Suc off]) = line_begin d off"
  by (induction off) (auto simp: is_line_start_def)

lemma getLocation_correct:
  assumes "line_table d ls" "off < length d"
  shows "getLocation src ls off n =
    Inr (Location src (int (count_newlines (take off d))) (int (off - line_begin d off)) off n)"
proof -
  let ?f = "filter (is_line_start d) [0..<Suc off]"
  let ?P = "\<lambda>i. i \<le> off"
  have starts: "map ln_offset ls = line_starts d" using assms(1) by (simp add: line_table_def)
  have tw: "takeWhile ?P (map ln_offset ls) = ?f"
    using line_starts_upto [OF assms(2)] starts by simp
  have lb: "lower_bound_line ls off = length ?f"
    unfolding lower_bound_line_def tw [symmetric] takeWhile_map by (simp add: comp_def)
  have n: "length ?f = Suc (count_newlines (take off d))"
    using line_starts_count [of off d] assms(2) by simp
  have "length ?f \<le> length ls"
    unfolding tw [symmetric] using length_takeWhile_le [of ?P "map ln_offset ls"] by simp
  then have idx: "length ?f - 1 < length ls" using n by simp
  have "ln_offset (ls ! (length ?f - 1)) = map ln_offset ls ! (length ?f - 1)"
    using idx by simp
  also have "\<dots> = ?f ! (length ?f - 1)"
    using n takeWhile_nth [of "length ?f - 1" ?P "map ln_offset ls"] unfolding tw by simp
  also have "\<dots> = last ?f"
    using n by (intro last_snoc_nth) (metis length_0_conv nat.simps(3))
  also have "\<dots> = line_begin d off" by (rule line_starts_last)
  finally have "ln_offset (ls ! (length ?f - 1)) = line_begin d off" .
  then show ?thesis
    using n line_begin_le [of d off] by (simp add: getLocation_def lb Let_def of_nat_diff)
qed

end
