(* ===== verification/TokenizeCorrect.thy ===== *)
theory TokenizeCorrect
  imports TokenizeLines
begin

text \<open>
  What the tokenizer promises the parser: every token is a slice of the buffer of the class its
  type names, tokens are in order and do not overlap, every byte that is not blank or comment
  is in one, locations are the true lines and columns, brackets balance, and no assertion fails
  on any input.
\<close>

section \<open>Scans\<close>

lemma scan_end_clean: "e \<le> i \<Longrightarrow> i < scan_end fn d e \<Longrightarrow> i < length d \<and> fn (d ! i)"
proof (induction fn d e rule: scan_end.induct)
  case (1 fn d e)
  show ?case
  proof (cases "e < length d \<and> fn (d ! e)")
    case True
    with "1.prems" have "i < scan_end fn d (e + 1)" by (simp add: scan_end.simps [of fn d e])
    with "1.IH" [OF True] "1.prems" True show ?thesis by (cases "i = e") auto
  next
    case False
    with "1.prems" show ?thesis by (simp add: scan_end.simps [of fn d e])
  qed
qed

lemma scan_end_stop: "scan_end fn d e < length d \<Longrightarrow> \<not> fn (d ! scan_end fn d e)"
proof (induction fn d e rule: scan_end.induct)
  case (1 fn d e)
  then show ?case
    by (cases "e < length d \<and> fn (d ! e)") (auto simp: scan_end.simps [of fn d e])
qed

lemma scan_end_bound: "e \<le> length d \<Longrightarrow> scan_end fn d e \<le> length d"
proof (induction fn d e rule: scan_end.induct)
  case (1 fn d e)
  then show ?case by (subst scan_end.simps) auto
qed

lemma scan_str_length: "e \<le> length d \<Longrightarrow> length (scan_str fn d e) = scan_end fn d e - e"
  using scan_end_bound [of e d fn] by (simp add: scan_str_def)

lemma scan_str_all: "e \<le> length d \<Longrightarrow> \<forall>c \<in> set (scan_str fn d e). fn c"
  using scan_end_clean [of e _ fn d]
  by (auto simp: scan_str_def in_set_conv_nth)

section \<open>Tokens\<close>

text \<open>The bytes of a token, the offset after it, and what its type promises of them.\<close>

definition t_end :: "token \<Rightarrow> nat" where
  "t_end t = t_at t + length (t_data t)"

definition maximal :: "(char \<Rightarrow> bool) \<Rightarrow> str \<Rightarrow> token \<Rightarrow> bool" where
  "maximal fn d t = ((\<forall>c \<in> set (t_data t). fn c) \<and> (t_end t < length d \<longrightarrow> \<not> fn (d ! t_end t)))"

definition class_ok :: "str \<Rightarrow> token \<Rightarrow> bool" where
  "class_ok d t =
     (case t_type t of
        TypeIdent \<Rightarrow> t_at t = t_offset t \<and> isIdentStart (hd (t_data t)) \<and> maximal isIdent d t
      | TypeNumber \<Rightarrow> t_at t = t_offset t \<and> isDigit (hd (t_data t)) \<and> maximal isNumber d t
      | TypeAtom \<Rightarrow> t_at t = t_offset t \<and> maximal isAtom d t
      | TypeBracket \<Rightarrow> t_at t = t_offset t \<and> (\<exists>c. t_data t = [c] \<and> isBracket c)
      | TypeString \<Rightarrow> t_at t = Suc (t_offset t) \<and> d ! t_offset t = CHR 0x22 \<and>
          maximal (\<lambda>c. c \<noteq> CHR 0x22) d t
      | TypeCharacter \<Rightarrow> t_at t = Suc (t_offset t) \<and> d ! t_offset t = CHR 0x27 \<and>
          maximal (\<lambda>c. c \<noteq> CHR 0x27) d t
      | _ \<Rightarrow> False)"

definition token_ok :: "str \<Rightarrow> token \<Rightarrow> bool" where
  "token_ok d t =
     (t_data t = take (length (t_data t)) (drop (t_at t) d) \<and>
      t_offset t < t_end t \<and> t_end t \<le> length d \<and> class_ok d t)"

fun token_chain :: "str \<Rightarrow> nat \<Rightarrow> token list \<Rightarrow> bool" where
  "token_chain d lo [] = True"
| "token_chain d lo (t # ts) = (lo \<le> t_offset t \<and> token_ok d t \<and> token_chain d (t_end t) ts)"

definition chain_end :: "nat \<Rightarrow> token list \<Rightarrow> nat" where
  "chain_end lo ts = (if ts = [] then lo else t_end (last ts))"

lemma token_chain_append:
  "token_chain d lo (xs @ ys) \<longleftrightarrow> token_chain d lo xs \<and> token_chain d (chain_end lo xs) ys"
  by (induction xs arbitrary: lo) (auto simp: chain_end_def)

lemma chain_end_snoc: "chain_end lo (xs @ [t]) = t_end t"
  by (simp add: chain_end_def)

text \<open>The bytes a token accounts for: its view and, for a quoted token, the quotes.\<close>

definition in_token :: "token \<Rightarrow> nat \<Rightarrow> bool" where
  "in_token t i =
     (t_offset t \<le> i \<and>
      i < (if t_type t = TypeString \<or> t_type t = TypeCharacter then Suc (t_end t) else t_end t))"

definition in_comment :: "str \<Rightarrow> nat \<Rightarrow> bool" where
  "in_comment d i = (\<exists>c \<le> i. d ! c = CHR ''#'' \<and> (\<forall>j. c \<le> j \<and> j \<le> i \<longrightarrow> d ! j \<noteq> CHR 0x0A))"

definition accounted :: "str \<Rightarrow> token list \<Rightarrow> nat \<Rightarrow> bool" where
  "accounted d ts i = (isSpace (d ! i) \<or> in_comment d i \<or> (\<exists>t \<in> set ts. in_token t i))"

lemmas t_sel [simp] = t_end_def mk_token_def

lemma class_disjoint:
  "isIdentStart c \<Longrightarrow> isIdent c" "isDigit c \<Longrightarrow> isNumber c"
  by (simp_all add: isIdent_def isNumber_def)

lemma token_ok_scan:
  assumes "off < length d" "fn (d ! off)"
  shows "token_ok d (mk_token ty (scan_str fn d off) off off) \<longleftrightarrow>
    class_ok d (mk_token ty (scan_str fn d off) off off)"
  using assms scan_end_gr [of off d fn] scan_end_bound [of off d fn]
  by (simp add: token_ok_def scan_str_length) (simp add: scan_str_def)

lemma maximal_scan:
  "off \<le> length d \<Longrightarrow> maximal fn d (mk_token ty (scan_str fn d off) off s)"
  using scan_end_stop [of fn d off] scan_str_all [of off d fn] scan_end_ge [of off fn d]
  by (simp add: maximal_def scan_str_length)

lemma hd_scan:
  assumes "off < length d" "fn (d ! off)"
  shows "hd (scan_str fn d off) = d ! off"
proof -
  have "0 < scan_end fn d off - off" using scan_end_gr [of off d fn] assms by simp
  then show ?thesis using assms by (simp add: scan_str_def hd_drop_conv_nth)
qed

text \<open>The branches of one step of the loop that return.\<close>

lemma token_step_cases [consumes 1, case_names space comment ident number quoted bracket atom]:
  assumes "token_step src ls d off = Inr (ts, off')"
  obtains "isSpace (d ! off)" "ts = []" "off' = Suc off"
    | "d ! off = CHR ''#''" "ts = []" "off' = scan_end (\<lambda>c. c \<noteq> CHR 0x0A) d off"
    | "isIdentStart (d ! off)" "ts = [mk_token TypeIdent (scan_str isIdent d off) off off]"
        "off' = scan_end isIdent d off"
    | "isDigit (d ! off)" "ts = [mk_token TypeNumber (scan_str isNumber d off) off off]"
        "off' = scan_end isNumber d off"
    | q ty where "d ! off = q" "q = CHR 0x22 \<and> ty = TypeString \<or> q = CHR 0x27 \<and> ty = TypeCharacter"
        "ts = [mk_token ty (scan_str (\<lambda>c. c \<noteq> q) d (Suc off)) (Suc off) off]"
        "off' = Suc (scan_end (\<lambda>c. c \<noteq> q) d (Suc off))"
    | "isBracket (d ! off)" "ts = [mk_token TypeBracket [d ! off] off off]" "off' = Suc off"
    | "isAtom (d ! off)" "ts = [mk_token TypeAtom (scan_str isAtom d off) off off]"
        "off' = scan_end isAtom d off"
proof -
  show thesis
  proof (cases "isSpace (d ! off)")
    case True
    then show thesis
      using assms  by (intro that(1)) (simp_all add: token_step_def)
  next
    case sp: False
    show thesis
    proof (cases "d ! off = CHR ''#''")
      case True
      then show thesis
        using assms sp by (intro that(2)) (simp_all add: token_step_def)
    next
      case cm: False
      show thesis
      proof (cases "isIdentStart (d ! off)")
        case True
        then show thesis
          using assms sp cm by (intro that(3)) (simp_all add: token_step_def)
      next
        case id: False
        show thesis
        proof (cases "isDigit (d ! off)")
          case True
          then show thesis
            using assms sp cm id by (intro that(4)) (simp_all add: token_step_def)
        next
          case nu: False
          show thesis
          proof (cases "d ! off = CHR 0x22 \<or> d ! off = CHR 0x27")
            case True
            then show thesis
              using assms sp cm id nu
              by (intro that(5) [of "d ! off" "if d ! off = CHR 0x22 then TypeString else TypeCharacter"])
                (auto simp: token_step_def Let_def)
          next
            case qu: False
            show thesis
            proof (cases "isBracket (d ! off)")
              case True
              then show thesis
                using assms sp cm id nu qu by (intro that(6)) (simp_all add: token_step_def)
            next
              case br: False
              show thesis
                using assms sp cm id nu qu br
                by (intro that(7)) (simp_all add: token_step_def Let_def bindR_eq_Inr split: if_splits)
            qed
          qed
        qed
      qed
    qed
  qed
qed

text \<open>One step of the loop pushes only good tokens, and accounts for the bytes it passes.\<close>

definition step_ok :: "str \<Rightarrow> nat \<Rightarrow> nat \<Rightarrow> token list \<Rightarrow> bool" where
  "step_ok d off off' ts = ((\<forall>lo \<le> off. token_chain d lo ts \<and> chain_end lo ts \<le> off') \<and>
    (\<forall>i. off \<le> i \<and> i < off' \<and> i < length d \<longrightarrow> accounted d ts i))"

lemma step_ok_one:
  assumes "token_ok d t" "t_offset t = off" "t_end t \<le> off'"
    "\<And>i. off \<le> i \<Longrightarrow> i < off' \<Longrightarrow> in_token t i"
  shows "step_ok d off off' [t]"
  using assms by (auto simp: step_ok_def chain_end_def accounted_def simp del: t_sel)

lemma step_ok_scan:
  assumes "off < length d" "fn (d ! off)" "class_ok d (mk_token ty (scan_str fn d off) off off)"
  shows "step_ok d off (scan_end fn d off) [mk_token ty (scan_str fn d off) off off]"
  using assms token_ok_scan [of off d fn ty] scan_end_ge [of off fn d]
  by (intro step_ok_one) (simp_all add: scan_str_length in_token_def)

lemma step_ok_quoted:
  assumes "off < length d" "d ! off = q"
    "q = CHR 0x22 \<and> ty = TypeString \<or> q = CHR 0x27 \<and> ty = TypeCharacter"
  shows "step_ok d off (Suc (scan_end (\<lambda>c. c \<noteq> q) d (Suc off)))
    [mk_token ty (scan_str (\<lambda>c. c \<noteq> q) d (Suc off)) (Suc off) off]"
proof -
  let ?f = "\<lambda>c. c \<noteq> q"
  let ?t = "mk_token ty (scan_str ?f d (Suc off)) (Suc off) off"
  have le: "Suc off \<le> length d" using assms(1) by simp
  have ge: "Suc off \<le> scan_end ?f d (Suc off)" by (rule scan_end_ge)
  have len: "t_end ?t = scan_end ?f d (Suc off)"
    using ge by (simp add: scan_str_length [OF le])
  have "class_ok d ?t"
    using assms(2,3) maximal_scan [OF le, of ?f ty off] by (auto simp: class_ok_def)
  moreover have "t_data ?t = take (length (t_data ?t)) (drop (t_at ?t) d)"
    by (simp only: mk_token_def token.simps scan_str_length [OF le]) (simp add: scan_str_def)
  ultimately have "token_ok d ?t"
    using len ge scan_end_bound [OF le, of ?f] by (simp add: token_ok_def del: t_end_def)
  then show ?thesis
    using assms(3) len by (intro step_ok_one) (auto simp: in_token_def)
qed

lemma step_ok_skip:
  assumes "off \<le> off'" "\<And>i. off \<le> i \<Longrightarrow> i < off' \<Longrightarrow> isSpace (d ! i) \<or> in_comment d i"
  shows "step_ok d off off' []"
  using assms by (auto simp: step_ok_def chain_end_def accounted_def)

lemma comment_scan:
  assumes "d ! off = CHR ''#''" "off \<le> i" "i < scan_end (\<lambda>c. c \<noteq> CHR 0x0A) d off"
  shows "in_comment d i"
proof -
  have "d ! j \<noteq> CHR 0x0A" if "off \<le> j" "j \<le> i" for j
    using scan_end_clean [of off j "\<lambda>c. c \<noteq> CHR 0x0A" d] that assms(3) by simp
  with assms show ?thesis by (auto simp: in_comment_def)
qed

lemma token_step_ok:
  assumes "token_step src ls d off = Inr (ts, off')" "off < length d"
  shows "step_ok d off off' ts"
  using assms(1)
proof (cases rule: token_step_cases)
  case space
  show ?thesis
    unfolding space(2) by (rule step_ok_skip) (use space in \<open>auto simp: le_less_Suc_eq\<close>)
next
  case comment
  show ?thesis
    unfolding comment(2)
  proof (rule step_ok_skip)
    show "off \<le> off'" unfolding comment(3) by (rule scan_end_ge)
    show "isSpace (d ! i) \<or> in_comment d i" if "off \<le> i" "i < off'" for i
      using comment_scan [OF comment(1) that(1)] that(2) comment(3) by simp
  qed
next
  case ident
  then have "class_ok d (mk_token TypeIdent (scan_str isIdent d off) off off)"
    using assms(2) maximal_scan [of off d isIdent TypeIdent off] hd_scan [of off d isIdent]
    by (simp add: class_ok_def class_disjoint)
  with ident assms(2) show ?thesis using step_ok_scan by (simp add: class_disjoint)
next
  case number
  then have "class_ok d (mk_token TypeNumber (scan_str isNumber d off) off off)"
    using assms(2) maximal_scan [of off d isNumber TypeNumber off] hd_scan [of off d isNumber]
    by (simp add: class_ok_def class_disjoint)
  with number assms(2) show ?thesis using step_ok_scan by (simp add: class_disjoint)
next
  case atom
  then have "class_ok d (mk_token TypeAtom (scan_str isAtom d off) off off)"
    using assms(2) maximal_scan [of off d isAtom TypeAtom off] by (simp add: class_ok_def)
  with atom assms(2) show ?thesis using step_ok_scan by simp
next
  case bracket
  have "token_ok d (mk_token TypeBracket [d ! off] off off)"
    using bracket assms(2)
    by (simp add: token_ok_def class_ok_def Cons_nth_drop_Suc [symmetric])
  then show ?thesis
    using bracket by (auto intro!: step_ok_one simp: in_token_def)
next
  case (quoted q ty)
  with step_ok_quoted [OF assms(2)] show ?thesis by blast
qed

lemma parseTokens_from_ok:
  assumes "parseTokens_from src ls d off result = Inr ts"
    "token_chain d 0 result" "chain_end 0 result \<le> off"
    "\<forall>i. i < off \<and> i < length d \<longrightarrow> accounted d result i"
  shows "token_chain d 0 ts \<and> (\<forall>i < length d. accounted d ts i)"
  using assms
proof (induction src ls d off result rule: parseTokens_from.induct)
  case (1 src ls d off result)
  show ?case
  proof (cases "off < length d")
    case False
    with "1.prems" show ?thesis by (auto simp: parseTokens_from.simps [of src ls d off result])
  next
    case True
    with "1.prems"(1) obtain us off' where
      s: "token_step src ls d off = Inr (us, off')" and
      r: "parseTokens_from src ls d off' (result @ us) = Inr ts"
      by (auto simp: parseTokens_from.simps [of src ls d off result] split: sum.splits)
    have ok: "token_chain d (chain_end 0 result) us" "chain_end (chain_end 0 result) us \<le> off'"
      "\<forall>i. off \<le> i \<and> i < off' \<and> i < length d \<longrightarrow> accounted d us i"
      using token_step_ok [OF s True] "1.prems"(3) by (auto simp: step_ok_def)
    have a: "token_chain d 0 (result @ us)"
      using "1.prems"(2) ok by (simp add: token_chain_append)
    have b: "chain_end 0 (result @ us) \<le> off'"
      using ok "1.prems"(3) token_step_progress [OF s True]
      by (cases "us = []") (auto simp: chain_end_def)
    have c: "\<forall>i. i < off' \<and> i < length d \<longrightarrow> accounted d (result @ us) i"
    proof (intro allI impI)
      fix i assume i: "i < off' \<and> i < length d"
      then have "accounted d result i \<or> accounted d us i"
        using "1.prems"(4) ok by (cases "i < off") auto
      then show "accounted d (result @ us) i" by (auto simp: accounted_def)
    qed
    show ?thesis using "1.IH" [OF True s refl r a b c] .
  qed
qed

lemma parseTokens_ok:
  "parseTokens src d ls = Inr ts \<Longrightarrow> token_chain d 0 ts \<and> (\<forall>i < length d. accounted d ts i)"
  using parseTokens_from_ok [of src ls d 0 "[]" ts] by (simp add: parseTokens_def chain_end_def)

lemma parseTokens_from_Inl:
  "parseTokens_from src ls d off result = Inl e \<Longrightarrow> line_table d ls \<Longrightarrow> \<exists>loc msg. e = Panic loc msg"
proof (induction src ls d off result rule: parseTokens_from.induct)
  case (1 src ls d off result)
  then have off: "off < length d"
    by (auto simp: parseTokens_from.simps [of src ls d off result] split: if_splits)
  show ?case
  proof (cases "token_step src ls d off")
    case (Inl f)
    with "1.prems" off have "f = e" by (simp add: parseTokens_from.simps [of src ls d off result])
    with Inl getLocation_correct [OF "1.prems"(2) off] show ?thesis
      by (auto simp: token_step_def Let_def result_simps split: if_splits)
  next
    case (Inr p)
    obtain us off' where p: "p = (us, off')" by force
    have "parseTokens_from src ls d off' (result @ us) = Inl e"
      using "1.prems"(1) off Inr p by (simp add: parseTokens_from.simps [of src ls d off result])
    with "1.IH" [OF off Inr [unfolded p] refl _ "1.prems"(2)] show ?thesis by simp
  qed
qed

section \<open>Located tokens\<close>

definition true_location :: "str \<Rightarrow> str \<Rightarrow> token \<Rightarrow> location" where
  "true_location src d t =
     Location src (int (count_newlines (take (t_offset t) d)))
       (int (t_offset t - line_begin d (t_offset t))) (t_offset t) (t_end t - t_offset t)"

lemma locate_tokens_ok:
  assumes "line_table d ls" "token_chain d lo ts"
  shows "locate_tokens src ls lo ts = Inr (map (\<lambda>t. t\<lparr>t_location := true_location src d t\<rparr>) ts)"
  using assms(2)
proof (induction ts arbitrary: lo)
  case (Cons t ts)
  then have "t_offset t < t_end t" "t_end t \<le> length d" "lo \<le> t_offset t"
    "token_chain d (t_end t) ts" by (auto simp: token_ok_def)
  with Cons.IH [of "t_end t"] getLocation_correct [OF assms(1), of "t_offset t" src] show ?case
    by (simp add: true_location_def Let_def)
qed simp

lemma token_ok_locate: "token_ok d (t\<lparr>t_location := l\<rparr>) = token_ok d t"
  by (cases "t_type t") (simp_all add: token_ok_def class_ok_def maximal_def)

lemma token_chain_locate:
  "token_chain d lo (map (\<lambda>t. t\<lparr>t_location := f t\<rparr>) ts) = token_chain d lo ts"
  by (induction ts arbitrary: lo) (simp_all add: token_ok_locate)

lemma accounted_locate:
  "accounted d (map (\<lambda>t. t\<lparr>t_location := f t\<rparr>) ts) = accounted d ts"
  by (rule ext) (auto simp: accounted_def in_token_def)

lemma token_chain_class: "token_chain d lo ts \<Longrightarrow> t \<in> set ts \<Longrightarrow> token_ok d t"
  by (induction ts arbitrary: lo) auto

section \<open>Brackets\<close>

definition bracket_data :: "token list \<Rightarrow> str list" where
  "bracket_data ts = map t_data (filter (\<lambda>t. t_type t = TypeBracket) ts)"

inductive balanced :: "str list \<Rightarrow> bool" where
  balanced_Nil: "balanced []"
| balanced_nest: "balanced xs \<Longrightarrow> getClosingBracket op = Inr cl \<Longrightarrow> balanced (op # xs @ [cl])"
| balanced_append: "balanced xs \<Longrightarrow> balanced ys \<Longrightarrow> balanced (xs @ ys)"

text \<open>The stack machine on the bracket texts alone.\<close>

fun match_stack :: "str list \<Rightarrow> str list \<Rightarrow> bool" where
  "match_stack st [] = (st = [])"
| "match_stack st (b # bs) =
     (if isOpening b then match_stack (b # st) bs
      else (case st of [] \<Rightarrow> False
            | op # rest \<Rightarrow> getClosingBracket op = Inr b \<and> match_stack rest bs))"

lemma getClosingBracket_cases:
  "getClosingBracket op = Inr cl \<longleftrightarrow>
   op = ''{'' \<and> cl = ''}'' \<or> op = ''('' \<and> cl = '')'' \<or> op = ''['' \<and> cl = '']''"
  by (auto simp: getClosingBracket_def result_simps)

lemma closing_not_opening: "getClosingBracket op = Inr cl \<Longrightarrow> isOpening op \<and> \<not> isOpening cl"
  by (auto simp: getClosingBracket_cases isOpening_def)

lemma balanced_insert:
  assumes "balanced xs" "getClosingBracket op = Inr cl"
  shows "xs = as @ bs \<Longrightarrow> balanced (as @ op # cl # bs)"
  using assms(1)
proof (induction arbitrary: as bs rule: balanced.induct)
  case balanced_Nil
  then show ?case using balanced_nest [OF balanced.balanced_Nil assms(2)] by simp
next
  case (balanced_nest xs op' cl')
  have one: "balanced [op, cl]" using balanced.balanced_nest [OF balanced_Nil assms(2)] by simp
  have nest: "balanced (op' # xs @ [cl'])"
    using balanced_nest.hyps by (rule balanced.balanced_nest)
  consider "as = []" | "bs = []" | as' bs' where "as = op' # as'" "bs = bs' @ [cl']" "xs = as' @ bs'"
    using balanced_nest.prems
    by (cases as; cases bs rule: rev_cases) auto
  then show ?case
  proof cases
    case 1
    then show ?thesis using balanced_append [OF one nest] balanced_nest.prems by simp
  next
    case 2
    then show ?thesis using balanced_append [OF nest one] balanced_nest.prems by simp
  next
    case 3
    then show ?thesis
      using balanced.balanced_nest [OF balanced_nest.IH [OF 3(3)] balanced_nest.hyps(2)] by simp
  qed
next
  case (balanced_append xs ys)
  then consider us where "as = xs @ us" "ys = us @ bs" | us where "xs = as @ us" "bs = us @ ys"
    by (auto simp: append_eq_append_conv2)
  then show ?case
  proof cases
    case 1
    then show ?thesis
      using balanced.balanced_append [OF balanced_append.hyps(1) balanced_append.IH(2) [OF 1(2)]]
      by simp
  next
    case 2
    then show ?thesis
      using balanced.balanced_append [OF balanced_append.IH(1) [OF 2(1)] balanced_append.hyps(2)]
      by simp
  qed
qed

lemma match_stack_sound: "match_stack st bs \<Longrightarrow> balanced (rev st @ bs)"
proof (induction st bs rule: match_stack.induct)
  case (1 st)
  then show ?case by (simp add: balanced_Nil)
next
  case (2 st b bs)
  show ?case
  proof (cases "isOpening b")
    case True
    with 2 show ?thesis by simp
  next
    case False
    with "2.prems" obtain op rest where st: "st = op # rest"
      and m: "getClosingBracket op = Inr b" "match_stack rest bs"
      by (auto split: list.splits)
    from "2.IH"(2) [OF False st m(2)] show ?thesis
      using balanced_insert [OF _ m(1)] st by simp
  qed
qed

lemma match_stack_balanced: "balanced xs \<Longrightarrow> match_stack st (xs @ ys) = match_stack st ys"
proof (induction arbitrary: st ys rule: balanced.induct)
  case (balanced_nest xs op cl)
  then show ?case using closing_not_opening [OF balanced_nest.hyps(2)] by simp
qed simp_all

lemma match_stack_iff_balanced: "match_stack [] bs \<longleftrightarrow> balanced bs"
  using match_stack_sound [of "[]" bs] match_stack_balanced [of bs "[]" "[]"] by auto

text \<open>The code's loop over indices computes the stack machine.\<close>

definition stack_ok :: "token list \<Rightarrow> nat list \<Rightarrow> bool" where
  "stack_ok ts st = (\<forall>b \<in> set st. b < length ts \<and> isOpening (t_data (ts ! b)))"

lemma isOpening_closing: "isOpening b \<Longrightarrow> \<exists>c. getClosingBracket b = Inr c"
  by (auto simp: isOpening_def getClosingBracket_def)

lemma matchBrackets_from_correct:
  assumes "stack_ok ts st"
  shows "(matchBrackets_from ts i st = Inr () \<longleftrightarrow>
      match_stack (map (\<lambda>b. t_data (ts ! b)) st) (bracket_data (drop i ts))) \<and>
    (\<forall>e. matchBrackets_from ts i st = Inl e \<longrightarrow> (\<exists>loc msg. e = Panic loc msg))"
  using assms
proof (induction ts i st rule: matchBrackets_from.induct)
  case (1 ts i st)
  show ?case
  proof (cases "i < length ts")
    case False
    show ?thesis
    proof (cases st)
      case Nil
      with False show ?thesis by (simp add: matchBrackets_from.simps [of ts i] bracket_data_def)
    next
      case (Cons b rest)
      with "1.prems" obtain c where "getClosingBracket (t_data (ts ! b)) = Inr c"
        using isOpening_closing by (auto simp: stack_ok_def)
      with False Cons show ?thesis
        by (simp add: matchBrackets_from.simps [of ts i] bracket_data_def)
    qed
  next
    case True
    then have d: "drop i ts = ts ! i # drop (Suc i) ts" by (rule drop_nth_Cons)
    show ?thesis
    proof (cases "t_type (ts ! i) = TypeBracket")
      case False
      with True "1.IH"(3) [OF True refl False "1.prems"] d show ?thesis
        by (simp add: matchBrackets_from.simps [of ts i st] bracket_data_def)
    next
      case br: True
      show ?thesis
      proof (cases "isOpening (t_data (ts ! i))")
        case op: True
        have "stack_ok ts (i # st)" using "1.prems" True op by (simp add: stack_ok_def)
        with True br op "1.IH"(1) [OF True refl br op] d show ?thesis
          by (simp add: matchBrackets_from.simps [of ts i st] bracket_data_def)
      next
        case cl: False
        show ?thesis
        proof (cases st)
          case Nil
          with True br cl d show ?thesis
            by (simp add: matchBrackets_from.simps [of ts i] bracket_data_def Let_def)
        next
          case (Cons b rest)
          with "1.prems" obtain c where c: "getClosingBracket (t_data (ts ! b)) = Inr c"
            using isOpening_closing by (auto simp: stack_ok_def)
          have "stack_ok ts rest" using "1.prems" Cons by (simp add: stack_ok_def)
          with True br cl c Cons "1.IH"(2) [OF True refl br cl Cons refl c] d show ?thesis
            by (auto simp: matchBrackets_from.simps [of ts i "b # rest"] bracket_data_def Let_def)
        qed
      qed
    qed
  qed
qed

lemma matchBrackets_correct:
  "matchBrackets ts = Inr () \<longleftrightarrow> balanced (bracket_data ts)"
  using matchBrackets_from_correct [of ts "[]" 0]
  by (simp add: matchBrackets_def stack_ok_def match_stack_iff_balanced)

lemma matchBrackets_Inl: "matchBrackets ts = Inl e \<Longrightarrow> \<exists>loc msg. e = Panic loc msg"
  using matchBrackets_from_correct [of ts "[]" 0] by (simp add: matchBrackets_def stack_ok_def)

section \<open>Newline tokens\<close>

abbreviation code_tokens :: "token list \<Rightarrow> token list" where
  "code_tokens ts \<equiv> filter (\<lambda>t. t_type t \<noteq> TypeLine) ts"

lemma getLineToken_type [simp]: "t_type (getLineToken t) = TypeLine"
  by (simp add: getLineToken_def Let_def)

lemma insertNewline_from_code:
  "\<forall>t \<in> set ts. t_type t \<noteq> TypeLine \<Longrightarrow> code_tokens (insertNewline_from p ts) = ts"
  by (induction ts arbitrary: p) auto

lemma insertNewline_code:
  "\<forall>t \<in> set ts. t_type t \<noteq> TypeLine \<Longrightarrow> code_tokens (insertNewline ts) = ts"
  by (auto simp: insertNewline_def insertNewline_from_code split: list.splits)

lemma insertNewline_from_nonempty: "insertNewline_from p ts \<noteq> []"
  by (cases ts) auto

lemma insertNewline_from_last: "last (insertNewline_from p ts) = getLineToken (last (p # ts))"
proof (induction ts arbitrary: p)
  case (Cons t ts)
  with Cons [of t] insertNewline_from_nonempty [of t ts] show ?case by simp
qed simp

text \<open>A newline token stands after a token exactly where the next one is on a later line and the line does not continue.\<close>

definition line_ends :: "token \<Rightarrow> token \<Rightarrow> bool" where
  "line_ends a b =
     (l_line (t_location a) < l_line (t_location b) \<and> (t_type a = TypeAtom \<longrightarrow> t_data a = ''>'') \<and>
      (t_type a = TypeBracket \<longrightarrow> t_data a \<notin> {''('', ''['', ''{''}))"

lemma line_break_iff: "line_break a b \<longleftrightarrow> line_ends a b"
  by (auto simp: line_break_def line_ends_def continueLine_def)

fun newlines_ok :: "token list \<Rightarrow> bool" where
  "newlines_ok (a # b # ts) =
     ((t_type a \<noteq> TypeLine \<longrightarrow>
        (if t_type b = TypeLine
         then b = getLineToken a \<and> (case ts of [] \<Rightarrow> True | c # _ \<Rightarrow> line_ends a c)
         else \<not> line_ends a b)) \<and>
      (t_type a = TypeLine \<longrightarrow> t_type b \<noteq> TypeLine) \<and> newlines_ok (b # ts))"
| "newlines_ok [t] = (t_type t = TypeLine)"
| "newlines_ok [] = True"

lemma insertNewline_from_ok:
  "t_type p \<noteq> TypeLine \<Longrightarrow> \<forall>t \<in> set ts. t_type t \<noteq> TypeLine \<Longrightarrow>
   newlines_ok (p # insertNewline_from p ts)"
proof (induction ts arbitrary: p)
  case (Cons t ts)
  then have "newlines_ok (t # insertNewline_from t ts)" by simp
  moreover obtain x xs where "insertNewline_from t ts = x # xs"
    using insertNewline_from_nonempty [of t ts] by (auto simp: neq_Nil_conv)
  ultimately show ?case using Cons.prems by (auto simp: line_break_iff)
qed simp

lemma insertNewline_ok:
  "\<forall>t \<in> set ts. t_type t \<noteq> TypeLine \<Longrightarrow> newlines_ok (insertNewline ts)"
  by (auto simp: insertNewline_def intro: insertNewline_from_ok split: list.splits)

section \<open>The tokenizer\<close>

lemma token_ok_not_line: "token_ok d t \<Longrightarrow> t_type t \<noteq> TypeLine"
  by (auto simp: token_ok_def class_ok_def)

lemma tokenize_Inr:
  assumes "tokenize src d = Inr tk"
  obtains ts where
    "tk_tokens tk = insertNewline ts" "code_tokens (tk_tokens tk) = ts"
    "token_chain d 0 ts" "\<forall>i < length d. accounted d ts i"
    "\<forall>t \<in> set ts. t_location t = true_location src d t"
    "line_table d (tk_lines tk)" "balanced (bracket_data ts)" "\<forall>t \<in> set ts. t_type t \<noteq> TypeLine"
proof -
  from assms obtain ls us ts where
    ls: "parseLines src d = Inr ls" and us: "parseTokens src d ls = Inr us" and
    ts: "locate_tokens src ls 0 us = Inr ts" "matchBrackets ts = Inr ()" and
    tk: "tk = \<lparr>tk_lines = ls, tk_tokens = insertNewline ts\<rparr>"
    by (auto simp: tokenize_def result_simps)
  note lt = parseLines_Inr [OF ls]
  note ok = parseTokens_ok [OF us]
  have eq: "ts = map (\<lambda>t. t\<lparr>t_location := true_location src d t\<rparr>) us"
    using locate_tokens_ok [OF lt(1), of 0 us src] ok ts(1) by simp
  have chain: "token_chain d 0 ts" using ok eq token_chain_locate by simp
  then have nl: "\<forall>t \<in> set ts. t_type t \<noteq> TypeLine"
    using token_chain_class token_ok_not_line by blast
  show ?thesis
  proof (rule that [of ts])
    show "\<forall>i < length d. accounted d ts i" using ok eq accounted_locate by simp
    show "\<forall>t \<in> set ts. t_location t = true_location src d t"
      using eq by (auto simp: true_location_def)
    show "balanced (bracket_data ts)" using ts(2) by (simp add: matchBrackets_correct)
  qed (use chain nl lt tk insertNewline_code in simp_all)
qed

lemma tokenize_Inl:
  assumes "tokenize src d = Inl e"
  shows "\<exists>loc msg. e = Panic loc msg"
proof (cases "parseLines src d")
  case (Inl f)
  with assms parseLines_cases [of src d] show ?thesis by (auto simp: tokenize_def)
next
  case ls: (Inr ls)
  note lt = parseLines_Inr [OF ls]
  show ?thesis
  proof (cases "parseTokens src d ls")
    case (Inl f)
    with assms ls parseTokens_from_Inl [OF _ lt(1)] show ?thesis
      by (auto simp: tokenize_def parseTokens_def)
  next
    case us: (Inr us)
    with assms ls locate_tokens_ok [OF lt(1), of 0 us src] parseTokens_ok [OF us] matchBrackets_Inl
    show ?thesis by (auto simp: tokenize_def result_simps)
  qed
qed

section \<open>Properties\<close>

text \<open>
  C17: the tokenizer is total and defensive: on every input it returns a token stream or stops
  with a diagnostic of its own. None of its assertions (a line for every offset, tokens that
  are not empty and in order, a known opening bracket) can fail.
\<close>

theorem tokenize_total:
  "(\<exists>tk. tokenize src d = Inr tk) \<or> (\<exists>loc msg. tokenize src d = Inl (Panic loc msg))"
  using tokenize_Inl [of src d] by (cases "tokenize src d") auto

text \<open>
  C15: the tokens, newline tokens aside, are slices of the buffer in increasing order that do not
  overlap; each has the form its type names and extends as far as its class allows; and every
  byte of the buffer is blank, part of a comment, or part of a token.
\<close>

theorem tokenize_slices:
  assumes "tokenize src d = Inr tk"
  shows "token_chain d 0 (code_tokens (tk_tokens tk)) \<and>
    (\<forall>i < length d. accounted d (code_tokens (tk_tokens tk)) i)"
  by (rule tokenize_Inr [OF assms]) simp

theorem tokenize_slices_witness:
  "\<exists>tk. tokenize ''f'' ''x = (1) # c'' = Inr tk \<and>
     token_chain ''x = (1) # c'' 0 (code_tokens (tk_tokens tk)) \<and> length (tk_tokens tk) = 6"
proof -
  have "isRight (tokenize ''f'' ''x = (1) # c'')" by code_simp
  then obtain tk where tk: "tokenize ''f'' ''x = (1) # c'' = Inr tk" by (rule isRightE)
  moreover have "(case tokenize ''f'' ''x = (1) # c'' of Inl e \<Rightarrow> False
      | Inr tk \<Rightarrow> length (tk_tokens tk) = 6)" by code_simp
  ultimately show ?thesis using tokenize_slices [OF tk] by auto
qed

text \<open>
  C16: the location of every token is true: its line is the number of newline bytes before it, its
  column the distance to the start of that line, and its length that of the token.
\<close>

theorem tokenize_locations:
  assumes "tokenize src d = Inr tk" "t \<in> set (code_tokens (tk_tokens tk))"
  shows "t_location t = true_location src d t"
  by (rule tokenize_Inr [OF assms(1)]) (use assms(2) in auto)

theorem tokenize_locations_witness:
  "\<exists>tk t. tokenize ''f'' [CHR ''a'', CHR 0x0A, CHR '' '', CHR ''b''] = Inr tk \<and>
     t \<in> set (code_tokens (tk_tokens tk)) \<and> t_location t = Location ''f'' 1 1 3 1"
proof -
  let ?d = "[CHR ''a'', CHR 0x0A, CHR '' '', CHR ''b'']"
  have r: "isRight (tokenize ''f'' ?d)" by code_simp
  have t2: "case tokenize ''f'' ?d of Inl e \<Rightarrow> False
      | Inr tk \<Rightarrow> (case code_tokens (tk_tokens tk) of
          [a, b] \<Rightarrow> true_location ''f'' ?d b = Location ''f'' 1 1 3 1 | _ \<Rightarrow> False)"
    by code_simp
  from r obtain tk where tk: "tokenize ''f'' ?d = Inr tk" by (rule isRightE)
  with t2 obtain a b where ab: "code_tokens (tk_tokens tk) = [a, b]"
    and b: "true_location ''f'' ?d b = Location ''f'' 1 1 3 1"
    by (simp split: list.splits)
  have "b \<in> set (code_tokens (tk_tokens tk))" unfolding ab by simp
  with tokenize_locations [OF tk this] b tk show ?thesis by auto
qed

text \<open>
  C18: the bracket check is exact: it passes just the token lists whose brackets form a balanced
  word over the three kinds of pairs.
\<close>

theorem matchBrackets_balanced:
  "matchBrackets ts = Inr () \<longleftrightarrow> balanced (bracket_data ts)"
  by (rule matchBrackets_correct)

text \<open>
  C19: newline tokens: a newline token stands right after a token exactly when the next token is
  on a later line and the line is not continued, and at the end of a stream that is not empty;
  without them the stream is the scanned tokens.
\<close>

theorem tokenize_newlines:
  assumes "tokenize src d = Inr tk"
  shows "newlines_ok (tk_tokens tk) \<and> tk_tokens tk = insertNewline (code_tokens (tk_tokens tk))"
  by (rule tokenize_Inr [OF assms]) (simp add: insertNewline_ok)

theorem tokenize_newlines_witness:
  "\<exists>tk. tokenize ''f'' [CHR ''a'', CHR 0x0A, CHR ''b''] = Inr tk \<and> newlines_ok (tk_tokens tk) \<and>
     map t_type (tk_tokens tk) = [TypeIdent, TypeLine, TypeIdent, TypeLine]"
proof -
  let ?d = "[CHR ''a'', CHR 0x0A, CHR ''b'']"
  have r: "isRight (tokenize ''f'' ?d)" by code_simp
  have t: "case tokenize ''f'' ?d of Inl e \<Rightarrow> False
      | Inr tk \<Rightarrow> map t_type (tk_tokens tk) = [TypeIdent, TypeLine, TypeIdent, TypeLine]"
    by code_simp
  from r obtain tk where tk: "tokenize ''f'' ?d = Inr tk" by (rule isRightE)
  with t tokenize_newlines [OF tk] show ?thesis by simp
qed

text \<open>
  A string literal that is never closed is accepted: the scan stops at the end of the buffer and
  no diagnostic is made.
\<close>

lemma unterminated_string_accepted:
  "map_sum id (\<lambda>tk. map (\<lambda>t. (t_type t, t_data t)) (tk_tokens tk)) (tokenize ''f'' (CHR 0x22 # ''ab'')) =
   Inr [(TypeString, ''ab''), (TypeLine, [])]"
  by code_simp

text \<open>
  The column that \<open>parseLines\<close> reports for a tab is the indentation of its line, not the column of
  the tab.
\<close>

lemma tab_column_is_indent:
  "tokenize ''f'' [CHR '' '', CHR ''a'', CHR ''b'', CHR 0x09] =
   Inl (Panic (Location ''f'' 0 1 3 1) ''Source files can't have tabs'')"
  by code_simp

end
