(* ===== verification/Types.thy ===== *)
theory Types
  imports Strings
begin

text \<open>
  Types and their operations: \<open>compiler/type.hpp\<close> and \<open>compiler/type.cpp\<close>. A \<open>Ty*\<close> is the tree it
  points to. Three kinds of nodes have an identity the code uses, so they carry their address:
  \<open>Unknown\<close> (the key of a constraint), \<open>Generic\<close> (the key of an instantiation) and \<open>Instance\<close>
  (filled in after it was made). The pointer comparison \<open>lhs == rhs\<close> is equality of the trees
  with these addresses: where two different nodes carry equal trees the code goes on and finds
  them equal node by node (\<open>typeUnify_list_refl\<close> in \<open>TypesCorrect\<close>). A \<open>TyDef*\<close> is an address into a
  table of definitions, since structs may be recursive.
\<close>

type_synonym addr = nat

datatype ty =
    TyUnknown addr
  | TyVoid
  | TyBool
  | TyInteger
  | TyFloat
  | TyString
  | TyTuple "ty list"
  | TyArray ty
  | TyPointer ty
  | TyFunction "ty list" ty bool
  | TyInstance addr str location "ty list" "addr option" "addr option"
  | TyGeneric addr str location

text \<open>A struct field; its default expression is an AST node, which the types only carry.\<close>

datatype 'e struct_field =
  StructField (sf_name: str) (sf_location: location) (sf_type: ty) (sf_expr: "'e option")

datatype 'e tydef =
  TyDef_Struct (sd_tyargs: "ty list") (sd_fields: "'e struct_field list")

fun kind :: "ty \<Rightarrow> nat" where
  "kind (TyUnknown _) = 0"
| "kind TyVoid = 1"
| "kind TyBool = 2"
| "kind TyInteger = 3"
| "kind TyFloat = 4"
| "kind TyString = 5"
| "kind (TyTuple _) = 6"
| "kind (TyArray _) = 7"
| "kind (TyPointer _) = 8"
| "kind (TyFunction _ _ _) = 9"
| "kind (TyInstance _ _ _ _ _ _) = 10"
| "kind (TyGeneric _ _ _) = 11"

fun is_Unknown :: "ty \<Rightarrow> bool" where
  "is_Unknown (TyUnknown _) = True"
| "is_Unknown _ = False"

section \<open>Unification\<close>

text \<open>
  \<open>typeUnify\<close> with its constraint set as a state: \<open>add\<close> is \<open>tryAdd\<close>, or \<open>None\<close> for the null
  \<open>constraints\<close> of \<open>typeEquals\<close>. The result is the boolean and the state; a failed assertion of
  the instance case is an \<open>Inl\<close>.
\<close>

fun typeUnify_with ::
    "(ty \<Rightarrow> ty \<Rightarrow> 's \<Rightarrow> (bool \<times> 's) result) option \<Rightarrow> ty \<Rightarrow> ty \<Rightarrow> 's \<Rightarrow> (bool \<times> 's) result"
  and typeUnify_list ::
    "(ty \<Rightarrow> ty \<Rightarrow> 's \<Rightarrow> (bool \<times> 's) result) option \<Rightarrow> ty list \<Rightarrow> ty list \<Rightarrow> 's \<Rightarrow> (bool \<times> 's) result"
where
  "typeUnify_with add lhs rhs s =
     (if lhs = rhs then Inr (True, s)
      else if add \<noteq> None \<and> (is_Unknown lhs \<or> is_Unknown rhs) then the add lhs rhs s
      else if kind lhs \<noteq> kind rhs then Inr (False, s)
      else (case (lhs, rhs) of
          (TyTuple lt, TyTuple rt) \<Rightarrow>
            if length lt \<noteq> length rt then Inr (False, s) else typeUnify_list add lt rt s
        | (TyArray la, TyArray ra) \<Rightarrow> typeUnify_with add la ra s
        | (TyPointer lp, TyPointer rp) \<Rightarrow> typeUnify_with add lp rp s
        | (TyFunction lf lret lv, TyFunction rf rret rv) \<Rightarrow>
            if length lf \<noteq> length rf then Inr (False, s)
            else if lv \<noteq> rv then Inr (False, s)
            else bindR (typeUnify_list add lf rf s) (\<lambda>(b, s').
              if b then typeUnify_with add lret rret s' else Inr (False, s'))
        | (TyInstance _ _ _ li ldef lgen, TyInstance _ _ _ ri rdef rgen) \<Rightarrow>
            bindR (assertR (ldef \<noteq> None \<or> lgen \<noteq> None)) (\<lambda>_.
            bindR (assertR (rdef \<noteq> None \<or> rgen \<noteq> None)) (\<lambda>_.
              if ldef \<noteq> rdef \<or> lgen \<noteq> rgen then Inr (False, s)
              else if length li \<noteq> length ri then Inr (False, s)
              else typeUnify_list add li ri s))
        | _ \<Rightarrow> Inr (True, s)))"
| "typeUnify_list add (l # ls) (r # rs) s =
     bindR (typeUnify_with add l r s) (\<lambda>(b, s').
       if b then typeUnify_list add ls rs s' else Inr (False, s'))"
| "typeUnify_list add _ _ s = Inr (True, s)"

declare typeUnify_with.simps [simp del]

definition typeEquals :: "ty \<Rightarrow> ty \<Rightarrow> bool result" where
  "typeEquals lhs rhs = map_sum id fst (typeUnify_with None lhs rhs ())"

fun typeOccurs :: "ty \<Rightarrow> ty \<Rightarrow> bool" where
  "typeOccurs lhs rhs =
     (lhs = rhs \<or>
      (case lhs of
         TyTuple fs \<Rightarrow> list_ex (\<lambda>f. typeOccurs f rhs) fs
       | TyArray e \<Rightarrow> typeOccurs e rhs
       | TyPointer e \<Rightarrow> typeOccurs e rhs
       | TyFunction as r _ \<Rightarrow> list_ex (\<lambda>a. typeOccurs a rhs) as \<or> typeOccurs r rhs
       | TyInstance _ _ _ as _ _ \<Rightarrow> list_ex (\<lambda>a. typeOccurs a rhs) as
       | _ \<Rightarrow> False))"

declare typeOccurs.simps [simp del]

fun typeKnown :: "ty \<Rightarrow> bool" where
  "typeKnown (TyUnknown _) = False"
| "typeKnown (TyTuple fs) = list_all typeKnown fs"
| "typeKnown (TyArray e) = typeKnown e"
| "typeKnown (TyPointer e) = typeKnown e"
| "typeKnown (TyFunction as r _) = (list_all typeKnown as \<and> typeKnown r)"
| "typeKnown (TyInstance _ _ _ as _ _) = list_all typeKnown as"
| "typeKnown _ = True"

section \<open>Constraints\<close>

text \<open>
  \<open>TypeConstraints\<close>: the map from unknowns to types as an association list, newest first, and the
  count of rewrites. \<open>tryAdd\<close> is called with two different nodes of which one is unknown; these
  are its assertions.
\<close>

record constraints =
  c_data :: "(addr \<times> ty) list"
  c_rewrites :: int

definition constraints0 :: constraints where
  "constraints0 = \<lparr>c_data = [], c_rewrites = 0\<rparr>"

definition c_set :: "constraints \<Rightarrow> addr \<Rightarrow> ty \<Rightarrow> constraints" where
  "c_set c a t = c\<lparr>c_data := (a, t) # filter (\<lambda>p. fst p \<noteq> a) (c_data c)\<rparr>"

definition tryAdd_bind :: "addr \<Rightarrow> ty \<Rightarrow> constraints \<Rightarrow> (bool \<times> constraints) result" where
  "tryAdd_bind a rhs c =
     (case map_of (c_data c) a of
        Some u \<Rightarrow> bindR (typeEquals u rhs) (\<lambda>b. Inr (b, c))
      | None \<Rightarrow>
          if \<not> typeOccurs rhs (TyUnknown a) then Inr (True, c_set c a rhs) else Inr (False, c))"

definition tryAdd_unknowns :: "addr \<Rightarrow> addr \<Rightarrow> constraints \<Rightarrow> bool \<times> constraints" where
  "tryAdd_unknowns l r c =
     (case (map_of (c_data c) l, map_of (c_data c) r) of
        (None, None) \<Rightarrow> (True, c_set c l (TyUnknown r))
      | (None, Some rt) \<Rightarrow> if rt \<noteq> TyUnknown l then (True, c_set c l rt) else (False, c)
      | (Some lt, None) \<Rightarrow> if lt \<noteq> TyUnknown r then (True, c_set c r lt) else (False, c)
      | (Some _, Some _) \<Rightarrow> (False, c))"

definition tryAdd :: "ty \<Rightarrow> ty \<Rightarrow> constraints \<Rightarrow> (bool \<times> constraints) result" where
  "tryAdd lhs rhs c =
     bindR (assertR (lhs \<noteq> rhs)) (\<lambda>_.
     bindR (assertR (is_Unknown lhs \<or> is_Unknown rhs)) (\<lambda>_.
       case lhs of
         TyUnknown l \<Rightarrow>
           (case rhs of TyUnknown r \<Rightarrow> Inr (tryAdd_unknowns l r c) | _ \<Rightarrow> tryAdd_bind l rhs c)
       | _ \<Rightarrow> (case rhs of TyUnknown r \<Rightarrow> tryAdd_bind r lhs c | _ \<Rightarrow> Inl AssertFail)))"

definition typeUnify :: "ty \<Rightarrow> ty \<Rightarrow> constraints \<Rightarrow> (bool \<times> constraints) result" where
  "typeUnify lhs rhs c = typeUnify_with (Some tryAdd) lhs rhs c"

text \<open>
  \<open>rewrite\<close>: the state is the number of rewrites and the next fresh address, for the instance
  nodes it makes. The fuel is the depth of the call stack: the constraints may send a type to
  one that contains it again, and then the code does not return.
\<close>

definition find_data :: "(addr \<times> ty) list \<Rightarrow> ty \<Rightarrow> ty option" where
  "find_data D t = (case t of TyUnknown a \<Rightarrow> map_of D a | _ \<Rightarrow> None)"

text \<open>The part of \<open>rewrite\<close> after the lookup, over the recursive call \<open>rec\<close>.\<close>

fun rewrite_node :: "(ty \<Rightarrow> int \<times> addr \<Rightarrow> (ty \<times> int \<times> addr) result) \<Rightarrow>
    ty \<Rightarrow> int \<times> addr \<Rightarrow> (ty \<times> int \<times> addr) result" where
  "rewrite_node rec (TyTuple fs) s = bindR (mapS rec fs s) (\<lambda>(fs', s'). Inr (TyTuple fs', s'))"
| "rewrite_node rec (TyArray e) s = bindR (rec e s) (\<lambda>(e', s'). Inr (TyArray e', s'))"
| "rewrite_node rec (TyPointer e) s = bindR (rec e s) (\<lambda>(e', s'). Inr (TyPointer e', s'))"
| "rewrite_node rec (TyFunction as r v) s =
     bindR (mapS rec as s) (\<lambda>(as', s').
     bindR (rec r s') (\<lambda>(r', s''). Inr (TyFunction as' r' v, s'')))"
| "rewrite_node rec (TyInstance _ nm loc as df gen) s =
     bindR (mapS rec as s) (\<lambda>(as', n, nxt). Inr (TyInstance nxt nm loc as' df gen, n, nxt + 1))"
| "rewrite_node rec t s = Inr (t, s)"

fun rewrite :: "nat \<Rightarrow> (addr \<times> ty) list \<Rightarrow> ty \<Rightarrow> int \<times> addr \<Rightarrow> (ty \<times> int \<times> addr) result" where
  "rewrite 0 D t s = Inl NoFuel"
| "rewrite (Suc k) D t s =
     (case find_data D t of
        Some u \<Rightarrow> rewrite_node (rewrite k D) u (fst s + 1, snd s)
      | None \<Rightarrow> rewrite_node (rewrite k D) t s)"

section \<open>Instantiation and members\<close>

text \<open>
  \<open>inst\<close> is the callback: what a generic's address stands for, \<open>None\<close> for the null pointer; it may
  fail itself. The state is the next fresh address.
\<close>

fun typeInstantiate :: "(addr \<Rightarrow> ty option result) \<Rightarrow> ty \<Rightarrow> addr \<Rightarrow> (ty \<times> addr) result" where
  "typeInstantiate inst (TyTuple fs) nxt =
     bindR (mapS (typeInstantiate inst) fs nxt) (\<lambda>(fs', nxt'). Inr (TyTuple fs', nxt'))"
| "typeInstantiate inst (TyArray e) nxt =
     bindR (typeInstantiate inst e nxt) (\<lambda>(e', nxt'). Inr (TyArray e', nxt'))"
| "typeInstantiate inst (TyPointer e) nxt =
     bindR (typeInstantiate inst e nxt) (\<lambda>(e', nxt'). Inr (TyPointer e', nxt'))"
| "typeInstantiate inst (TyFunction as r v) nxt =
     bindR (mapS (typeInstantiate inst) as nxt) (\<lambda>(as', nxt').
     bindR (typeInstantiate inst r nxt') (\<lambda>(r', nxt''). Inr (TyFunction as' r' v, nxt'')))"
| "typeInstantiate inst (TyInstance i nm loc as df (Some g)) nxt =
     bindR (inst g) (\<lambda>i'.
       case i' of
         Some t \<Rightarrow> bindR (assertR (case t of TyGeneric h _ _ \<Rightarrow> h \<noteq> g | _ \<Rightarrow> True)) (\<lambda>_. Inr (t, nxt))
       | None \<Rightarrow> Inr (TyInstance i nm loc as df (Some g), nxt))"
| "typeInstantiate inst (TyInstance i nm loc as df None) nxt =
     bindR (mapS (typeInstantiate inst) as nxt) (\<lambda>(as', nxt').
       Inr (TyInstance nxt' nm loc as' df None, nxt' + 1))"
| "typeInstantiate inst t nxt = Inr (t, nxt)"

fun generic_addr :: "ty \<Rightarrow> addr option" where
  "generic_addr (TyGeneric g _ _) = Some g"
| "generic_addr _ = None"

text \<open>The callback of \<open>typeMember\<close>: the instance's argument at the position of the generic.\<close>

fun inst_lookup :: "ty list \<Rightarrow> ty list \<Rightarrow> addr \<Rightarrow> ty option" where
  "inst_lookup (p # ps) (a # as) g =
     (if generic_addr p = Some g then Some a else inst_lookup ps as g)"
| "inst_lookup _ _ g = None"

definition typeMember :: "(addr \<Rightarrow> 'e tydef option) \<Rightarrow> ty \<Rightarrow> int \<Rightarrow> addr \<Rightarrow> (ty \<times> addr) result" where
  "typeMember defs t index nxt =
     bindR (assertR (index \<ge> 0)) (\<lambda>_.
       case t of
         TyTuple fs \<Rightarrow>
           bindR (assertR (nat index < length fs)) (\<lambda>_. Inr (fs ! nat index, nxt))
       | TyInstance _ _ _ as df _ \<Rightarrow>
           (case Option.bind df defs of
              None \<Rightarrow> Inl NullDeref
            | Some d \<Rightarrow>
                bindR (assertR (nat index < length (sd_fields d))) (\<lambda>_.
                bindR (assertR (length (sd_tyargs d) = length as)) (\<lambda>_.
                  typeInstantiate (\<lambda>g. Inr (inst_lookup (sd_tyargs d) as g))
                    (sf_type (sd_fields d ! nat index)) nxt)))
       | _ \<Rightarrow> Inl (ICE ''Unexpected Ty kind''))"

section \<open>Names\<close>

fun comma_sep :: "str list \<Rightarrow> str" where
  "comma_sep [] = []"
| "comma_sep [x] = x"
| "comma_sep (x # xs) = x @ '', '' @ comma_sep xs"

fun typeName :: "ty \<Rightarrow> str" where
  "typeName (TyUnknown _) = ''_''"
| "typeName TyVoid = ''void''"
| "typeName TyBool = ''bool''"
| "typeName TyInteger = ''int''"
| "typeName TyFloat = ''float''"
| "typeName TyString = ''string''"
| "typeName (TyTuple fs) = ''('' @ comma_sep (map typeName fs) @ '')''"
| "typeName (TyArray e) = ''['' @ typeName e @ '']''"
| "typeName (TyPointer e) = ''*'' @ typeName e"
| "typeName (TyFunction as r v) =
     ''fn('' @ comma_sep (map typeName as) @
     (if v then (if length as \<noteq> 0 then '', '' else []) @ ''...'' else []) @ '')'' @
     (if r = TyVoid then [] else '': '' @ typeName r)"
| "typeName (TyInstance _ nm _ as _ _) =
     nm @ (if length as > 0 then ''<'' @ comma_sep (map typeName as) @ ''>'' else [])"
| "typeName (TyGeneric _ nm _) = nm"

end
