(* ===== verification/TypesCorrect.thy ===== *)
theory TypesCorrect
  imports Types
begin

text \<open>
  What the type operations compute. \<open>typeEquals\<close> is equality up to the parts the code does not
  look at; unification adds only constraints that every solution satisfies, and a pass that adds
  none has found equal types; rewriting keeps the meaning of a type under every solution, ends
  when the constraints are acyclic, and does not when they are cyclic, which the occurs check of
  \<open>tryAdd\<close> does not exclude.
\<close>

section \<open>Parts of a type\<close>

fun unknowns :: "ty \<Rightarrow> addr set" where
  "unknowns (TyUnknown a) = {a}"
| "unknowns (TyTuple fs) = \<Union> (unknowns ` set fs)"
| "unknowns (TyArray e) = unknowns e"
| "unknowns (TyPointer e) = unknowns e"
| "unknowns (TyFunction as r v) = \<Union> (unknowns ` set as) \<union> unknowns r"
| "unknowns (TyInstance i nm loc as df gen) = \<Union> (unknowns ` set as)"
| "unknowns _ = {}"

fun subterms :: "ty \<Rightarrow> ty set" where
  "subterms (TyTuple fs) = insert (TyTuple fs) (\<Union> (subterms ` set fs))"
| "subterms (TyArray e) = insert (TyArray e) (subterms e)"
| "subterms (TyPointer e) = insert (TyPointer e) (subterms e)"
| "subterms (TyFunction as r v) = insert (TyFunction as r v) (\<Union> (subterms ` set as) \<union> subterms r)"
| "subterms (TyInstance i nm loc as df gen) =
     insert (TyInstance i nm loc as df gen) (\<Union> (subterms ` set as))"
| "subterms t = {t}"

text \<open>Every instance node was resolved to a definition or to a generic.\<close>

fun resolved :: "ty \<Rightarrow> bool" where
  "resolved (TyTuple fs) = (\<forall>f \<in> set fs. resolved f)"
| "resolved (TyArray e) = resolved e"
| "resolved (TyPointer e) = resolved e"
| "resolved (TyFunction as r v) = ((\<forall>a \<in> set as. resolved a) \<and> resolved r)"
| "resolved (TyInstance i nm loc as df gen) =
     ((df \<noteq> None \<or> gen \<noteq> None) \<and> (\<forall>a \<in> set as. resolved a))"
| "resolved _ = True"

text \<open>
  \<open>strip\<close> forgets what unification does not compare: the address, name and location of an
  instance and everything of a generic node. \<open>wild\<close> also identifies all unknowns.
\<close>

fun strip :: "ty \<Rightarrow> ty" where
  "strip (TyTuple fs) = TyTuple (map strip fs)"
| "strip (TyArray e) = TyArray (strip e)"
| "strip (TyPointer e) = TyPointer (strip e)"
| "strip (TyFunction as r v) = TyFunction (map strip as) (strip r) v"
| "strip (TyInstance i nm loc as df gen) = TyInstance 0 [] Location0 (map strip as) df gen"
| "strip (TyGeneric g nm loc) = TyGeneric 0 [] Location0"
| "strip t = t"

fun wild :: "ty \<Rightarrow> ty" where
  "wild (TyUnknown a) = TyUnknown 0"
| "wild (TyTuple fs) = TyTuple (map wild fs)"
| "wild (TyArray e) = TyArray (wild e)"
| "wild (TyPointer e) = TyPointer (wild e)"
| "wild (TyFunction as r v) = TyFunction (map wild as) (wild r) v"
| "wild (TyInstance i nm loc as df gen) = TyInstance 0 [] Location0 (map wild as) df gen"
| "wild (TyGeneric g nm loc) = TyGeneric 0 [] Location0"
| "wild t = t"

text \<open>Substitution of types for unknowns.\<close>

fun tsub :: "(addr \<Rightarrow> ty) \<Rightarrow> ty \<Rightarrow> ty" where
  "tsub \<sigma> (TyUnknown a) = \<sigma> a"
| "tsub \<sigma> (TyTuple fs) = TyTuple (map (tsub \<sigma>) fs)"
| "tsub \<sigma> (TyArray e) = TyArray (tsub \<sigma> e)"
| "tsub \<sigma> (TyPointer e) = TyPointer (tsub \<sigma> e)"
| "tsub \<sigma> (TyFunction as r v) = TyFunction (map (tsub \<sigma>) as) (tsub \<sigma> r) v"
| "tsub \<sigma> (TyInstance i nm loc as df gen) = TyInstance i nm loc (map (tsub \<sigma>) as) df gen"
| "tsub \<sigma> t = t"

lemma typeOccurs_iff: "typeOccurs t u \<longleftrightarrow> u \<in> subterms t"
  by (induction t u rule: typeOccurs.induct)
    (subst typeOccurs.simps, auto simp: list_ex_iff split: ty.splits)

lemma unknowns_subterms: "a \<in> unknowns t \<longleftrightarrow> TyUnknown a \<in> subterms t"
  by (induction t rule: subterms.induct) auto

lemma typeKnown_unknowns: "typeKnown t \<longleftrightarrow> unknowns t = {}"
  by (induction t rule: typeKnown.induct) (auto simp: list_all_iff)

section \<open>Unification without constraints\<close>

lemma typeUnify_list_refl: "typeUnify_list add ts ts s = Inr (True, s)"
  by (induction ts) (simp_all add: typeUnify_with.simps)

lemma unify_same: "typeUnify_with add t t s = Inr (True, s)"
  by (simp add: typeUnify_with.simps)

lemma unify_kind:
  "kind l \<noteq> kind r \<Longrightarrow> typeUnify_with add l r s =
   (if add \<noteq> None \<and> (is_Unknown l \<or> is_Unknown r) then the add l r s else Inr (False, s))"
  by (auto simp: typeUnify_with.simps [of add l r])

lemma unify_Array: "typeUnify_with add (TyArray a) (TyArray b) s = typeUnify_with add a b s"
  by (simp add: typeUnify_with.simps [of add "TyArray a"] unify_same)

lemma unify_Pointer: "typeUnify_with add (TyPointer a) (TyPointer b) s = typeUnify_with add a b s"
  by (simp add: typeUnify_with.simps [of add "TyPointer a"] unify_same)

lemma unify_Tuple:
  "typeUnify_with add (TyTuple ls) (TyTuple rs) s =
   (if length ls \<noteq> length rs then Inr (False, s) else typeUnify_list add ls rs s)"
  by (auto simp: typeUnify_with.simps [of add "TyTuple ls"] typeUnify_list_refl)

lemma unify_Function:
  "typeUnify_with add (TyFunction ls l v) (TyFunction rs r w) s =
   (if length ls \<noteq> length rs \<or> v \<noteq> w then Inr (False, s)
    else bindR (typeUnify_list add ls rs s) (\<lambda>(b, s').
      if b then typeUnify_with add l r s' else Inr (False, s')))"
  by (auto simp: typeUnify_with.simps [of add "TyFunction ls l v"] typeUnify_list_refl unify_same)

lemma unify_Instance:
  "df \<noteq> None \<or> gen \<noteq> None \<Longrightarrow> df' \<noteq> None \<or> gen' \<noteq> None \<Longrightarrow>
   typeUnify_with add (TyInstance i nm loc ls df gen) (TyInstance i' nm' loc' rs df' gen') s =
   (if df \<noteq> df' \<or> gen \<noteq> gen' \<or> length ls \<noteq> length rs then Inr (False, s)
    else typeUnify_list add ls rs s)"
  by (auto simp: typeUnify_with.simps [of add "TyInstance i nm loc ls df gen"] typeUnify_list_refl)

lemma unify_Unknown:
  "typeUnify_with None (TyUnknown a) (TyUnknown b) s = Inr (True, s)"
  "typeUnify_with (Some f) (TyUnknown a) r s =
   (if TyUnknown a = r then Inr (True, s) else f (TyUnknown a) r s)"
  "typeUnify_with (Some f) l (TyUnknown b) s =
   (if l = TyUnknown b then Inr (True, s) else f l (TyUnknown b) s)"
  by (simp_all add: typeUnify_with.simps)

lemma unify_leaf:
  "typeUnify_with add (TyGeneric g nm loc) (TyGeneric g' nm' loc') s = Inr (True, s)"
  by (simp add: typeUnify_with.simps)

lemmas unify_simps = unify_same unify_kind unify_Array unify_Pointer unify_Tuple unify_Function
  unify_Instance unify_Unknown unify_leaf

lemma typeUnify_list_None:
  fixes s :: 's
  assumes "\<And>l r s. l \<in> set ls \<Longrightarrow> resolved l \<Longrightarrow> resolved r \<Longrightarrow>
      typeUnify_with None l r (s :: 's) = Inr (wild l = wild r, s)"
    "\<forall>l \<in> set ls. resolved l" "\<forall>r \<in> set rs. resolved r" "length ls = length rs"
  shows "typeUnify_list None ls rs s = Inr (map wild ls = map wild rs, s)"
  using assms(4,1-3)
proof (induction ls rs rule: list_induct2)
  case (Cons l ls r rs)
  have "typeUnify_with None l r s = Inr (wild l = wild r, s)"
    using Cons.prems(2,3) by (intro Cons.prems(1)) simp_all
  moreover have "typeUnify_list None ls rs s = Inr (map wild ls = map wild rs, s)"
    using Cons.prems by (intro Cons.IH) auto
  ultimately show ?case by simp
qed simp

lemma typeUnify_list_None':
  fixes s :: 's
  assumes "\<And>l r s. l \<in> set ls \<Longrightarrow> resolved l \<Longrightarrow> resolved r \<Longrightarrow>
      typeUnify_with None l r (s :: 's) = Inr (wild l = wild r, s)"
    "\<forall>l \<in> set ls. resolved l" "\<forall>r \<in> set rs. resolved r"
  shows "(if length ls \<noteq> length rs then Inr (False, s) else typeUnify_list None ls rs s) =
    Inr (map wild ls = map wild rs, s)"
  using typeUnify_list_None [of ls rs s] assms by (auto dest: map_eq_imp_length_eq)

lemma kind_wild: "kind l \<noteq> kind r \<Longrightarrow> wild l \<noteq> wild r"
  by (cases l; cases r) simp_all

lemma typeUnify_None:
  "resolved l \<Longrightarrow> resolved r \<Longrightarrow> typeUnify_with None l r s = Inr (wild l = wild r, s)"
proof (induction l arbitrary: r s)
  case (TyTuple fs)
  then show ?case
    using typeUnify_list_None' [of fs _ s] by (cases r) (simp_all add: unify_simps)
next
  case (TyArray e)
  then show ?case by (cases r) (simp_all add: unify_simps)
next
  case (TyPointer e)
  then show ?case by (cases r) (simp_all add: unify_simps)
next
  case (TyFunction as rt v)
  show ?case
  proof (cases r)
    case r: (TyFunction bs rt' v')
    show ?thesis
    proof (cases "length as = length bs")
      case True
      then have "typeUnify_list None as bs s = Inr (map wild as = map wild bs, s)"
        using TyFunction r by (intro typeUnify_list_None) auto
      with TyFunction r True show ?thesis by (simp add: unify_simps)
    qed (use r in \<open>auto simp: unify_simps dest: map_eq_imp_length_eq\<close>)
  qed (simp_all add: unify_simps)
next
  case (TyInstance i nm loc as df gen)
  show ?case
  proof (cases r)
    case r: (TyInstance i' nm' loc' bs df' gen')
    have "(if length as \<noteq> length bs then Inr (False, s) else typeUnify_list None as bs s) =
        Inr (map wild as = map wild bs, s)"
      using TyInstance r by (intro typeUnify_list_None') auto
    with TyInstance.prems r show ?thesis by (auto simp: unify_Instance split: if_splits)
  qed (simp_all add: unify_simps)
qed (case_tac r; simp add: unify_simps)+

lemma typeEquals_wild:
  "resolved l \<Longrightarrow> resolved r \<Longrightarrow> typeEquals l r = Inr (wild l = wild r)"
  by (simp add: typeEquals_def typeUnify_None)

lemma wild_strip: "typeKnown t \<Longrightarrow> wild t = strip t"
  by (induction t rule: typeKnown.induct) (auto simp: list_all_iff)

text \<open>
  C21: On resolved types \<open>typeEquals\<close> never fails an assertion and decides whether they are the same
  type up to the addresses, names and locations of instance nodes, with every unknown standing for
  any unknown; on types without unknowns it is this equality exactly.
\<close>

theorem typeEquals_correct:
  assumes "resolved l" "resolved r"
  shows "typeEquals l r = Inr (wild l = wild r) \<and>
    (typeKnown l \<and> typeKnown r \<longrightarrow> typeEquals l r = Inr (strip l = strip r))"
  using typeEquals_wild [OF assms] by (auto simp: wild_strip)

lemma typeEquals_correct_witness:
  "typeEquals (TyTuple [TyInteger, TyArray TyBool]) (TyTuple [TyInteger, TyArray TyFloat]) = Inr False"
  using typeEquals_correct [of "TyTuple [TyInteger, TyArray TyBool]" "TyTuple [TyInteger, TyArray TyFloat]"]
  by simp

section \<open>Unification with constraints\<close>

text \<open>
  What a constraint set keeps under unification: if the adder keeps \<open>P\<close> on pairs related by \<open>eqv\<close>,
  and \<open>eqv\<close> passes from types to their components, then unification keeps \<open>P\<close>.
\<close>

definition keeps_at ::
    "(ty \<Rightarrow> ty \<Rightarrow> 's \<Rightarrow> (bool \<times> 's) result) \<Rightarrow> (ty \<Rightarrow> ty \<Rightarrow> bool) \<Rightarrow> ('s \<Rightarrow> bool) \<Rightarrow> ty \<Rightarrow> bool" where
  "keeps_at add eqv P l = (\<forall>r s b s'.
     typeUnify_with (Some add) l r s = Inr (b, s') \<longrightarrow> eqv l r \<longrightarrow> P s \<longrightarrow> P s')"

locale unify_adder =
  fixes add :: "ty \<Rightarrow> ty \<Rightarrow> 's \<Rightarrow> (bool \<times> 's) result"
    and eqv :: "ty \<Rightarrow> ty \<Rightarrow> bool"
    and P :: "'s \<Rightarrow> bool"
  assumes eqv_Tuple: "eqv (TyTuple ls) (TyTuple rs) \<Longrightarrow> length ls = length rs \<Longrightarrow> list_all2 eqv ls rs"
    and eqv_Array: "eqv (TyArray a) (TyArray b) \<Longrightarrow> eqv a b"
    and eqv_Pointer: "eqv (TyPointer a) (TyPointer b) \<Longrightarrow> eqv a b"
    and eqv_Function: "eqv (TyFunction ls a v) (TyFunction rs b w) \<Longrightarrow> length ls = length rs \<Longrightarrow>
      list_all2 eqv ls rs \<and> eqv a b"
    and eqv_Instance: "eqv (TyInstance i nm loc ls df gen) (TyInstance i' nm' loc' rs df' gen') \<Longrightarrow>
      length ls = length rs \<Longrightarrow> list_all2 eqv ls rs"
    and add_keeps: "add l r s = Inr (ok, s') \<Longrightarrow> eqv l r \<Longrightarrow> P s \<Longrightarrow> P s'"
begin

lemma unify_list_keeps:
  assumes "list_all2 eqv ls rs" "\<forall>l \<in> set ls. keeps_at add eqv P l"
    "typeUnify_list (Some add) ls rs s = Inr (b, s')" "P s"
  shows "P s'"
  using assms
proof (induction ls rs arbitrary: s rule: list_all2_induct)
  case (Cons l ls r rs)
  from Cons.prems(2) obtain b1 s1 where
    u: "typeUnify_with (Some add) l r s = Inr (b1, s1)" and
    rest: "(if b1 then typeUnify_list (Some add) ls rs s1 else Inr (False, s1)) = Inr (b, s')"
    by (auto simp: bindR_eq_Inr)
  have "P s1" using Cons.prems(1,3) u Cons.hyps(1) by (auto simp: keeps_at_def)
  with rest Cons.IH Cons.prems(1) show ?case by (cases b1) auto
qed simp

lemma unify_keeps_at: "keeps_at add eqv P l"
proof (induction l)
  case (TyTuple fs)
  have "P s'" if "typeUnify_with (Some add) (TyTuple fs) r s = Inr (b, s')" "eqv (TyTuple fs) r" "P s"
    for r s b s'
  proof (cases r)
    case (TyTuple gs)
    with that unify_list_keeps [of fs gs] TyTuple.IH eqv_Tuple show ?thesis
      by (auto simp: unify_simps split: if_splits)
  qed (use that add_keeps in \<open>auto simp: unify_simps split: if_splits\<close>)
  then show ?case by (simp add: keeps_at_def)
next
  case (TyArray e)
  have "P s'" if "typeUnify_with (Some add) (TyArray e) r s = Inr (b, s')" "eqv (TyArray e) r" "P s"
    for r s b s'
    using that TyArray.IH add_keeps eqv_Array
    by (cases r) (auto simp: unify_simps keeps_at_def split: if_splits)
  then show ?case by (simp add: keeps_at_def)
next
  case (TyPointer e)
  have "P s'"
    if "typeUnify_with (Some add) (TyPointer e) r s = Inr (b, s')" "eqv (TyPointer e) r" "P s"
    for r s b s'
    using that TyPointer.IH add_keeps eqv_Pointer
    by (cases r) (auto simp: unify_simps keeps_at_def split: if_splits)
  then show ?case by (simp add: keeps_at_def)
next
  case (TyFunction as rt v)
  have "P s'"
    if u: "typeUnify_with (Some add) (TyFunction as rt v) r s = Inr (b, s')"
      "eqv (TyFunction as rt v) r" "P s" for r s b s'
  proof (cases r)
    case r: (TyFunction bs rt' v')
    show ?thesis
    proof (cases "length as = length bs \<and> v = v'")
      case True
      with u(1) r obtain b1 s1 where
        l: "typeUnify_list (Some add) as bs s = Inr (b1, s1)" and
        rest: "(if b1 then typeUnify_with (Some add) rt rt' s1 else Inr (False, s1)) = Inr (b, s')"
        by (auto simp: unify_simps bindR_eq_Inr)
      have e: "list_all2 eqv as bs" "eqv rt rt'"
        using eqv_Function [OF u(2) [unfolded r]] True by simp_all
      have "P s1" using unify_list_keeps [OF e(1) _ l u(3)] TyFunction.IH(1) by simp
      with rest TyFunction.IH(2) e(2) show ?thesis by (cases b1) (auto simp: keeps_at_def)
    qed (use u r in \<open>auto simp: unify_simps\<close>)
  qed (use u add_keeps in \<open>auto simp: unify_simps split: if_splits\<close>)
  then show ?case by (simp add: keeps_at_def)
next
  case (TyInstance i nm loc as df gen)
  have "P s'"
    if u: "typeUnify_with (Some add) (TyInstance i nm loc as df gen) r s = Inr (b, s')"
      "eqv (TyInstance i nm loc as df gen) r" "P s" for r s b s'
  proof (cases r)
    case r: (TyInstance i' nm' loc' bs df' gen')
    have "typeUnify_list (Some add) as bs s = Inr (b, s') \<Longrightarrow> length as = length bs \<Longrightarrow> P s'"
      using unify_list_keeps [of as bs] TyInstance.IH eqv_Instance u(2,3) r by blast
    with u(1,3) r show ?thesis
      by (auto simp: typeUnify_with.simps [of _ "TyInstance i nm loc as df gen"] bindR_eq_Inr
          split: if_splits)
  qed (use u add_keeps in \<open>auto simp: unify_simps split: if_splits\<close>)
  then show ?case by (simp add: keeps_at_def)
next
  case (TyUnknown a)
  then show ?case using add_keeps by (auto simp: unify_simps keeps_at_def split: if_splits)
next
  case (TyGeneric g nm loc)
  have "P s'"
    if "typeUnify_with (Some add) (TyGeneric g nm loc) r s = Inr (b, s')" "eqv (TyGeneric g nm loc) r"
      "P s" for r s b s'
    using that add_keeps by (cases r) (auto simp: unify_simps split: if_splits)
  then show ?case by (simp add: keeps_at_def)
qed (auto simp: keeps_at_def unify_simps typeUnify_with.simps intro: add_keeps split: if_splits ty.splits)

lemma unify_keeps:
  "typeUnify_with (Some add) l r s = Inr (b, s') \<Longrightarrow> eqv l r \<Longrightarrow> P s \<Longrightarrow> P s'"
  using unify_keeps_at [of l] by (auto simp: keeps_at_def)

end

text \<open>A solution of a constraint set gives every bound unknown the meaning of its binding.\<close>

definition solves :: "(addr \<Rightarrow> ty) \<Rightarrow> (addr \<times> ty) list \<Rightarrow> bool" where
  "solves \<sigma> D = (\<forall>(a, t) \<in> set D. strip (\<sigma> a) = strip (tsub \<sigma> t))"

definition same_meaning :: "(addr \<Rightarrow> ty) \<Rightarrow> ty \<Rightarrow> ty \<Rightarrow> bool" where
  "same_meaning \<sigma> l r = (strip (tsub \<sigma> l) = strip (tsub \<sigma> r))"

lemma solves_map_of: "solves \<sigma> D \<Longrightarrow> map_of D a = Some t \<Longrightarrow> strip (\<sigma> a) = strip (tsub \<sigma> t)"
  by (auto simp: solves_def dest: map_of_SomeD)

lemma solves_c_set:
  "solves \<sigma> (c_data c) \<Longrightarrow> strip (\<sigma> a) = strip (tsub \<sigma> t) \<Longrightarrow> solves \<sigma> (c_data (c_set c a t))"
  by (auto simp: solves_def c_set_def)

lemma map_of_filter_neq: "b \<noteq> a \<Longrightarrow> map_of (filter (\<lambda>p. fst p \<noteq> a) D) b = map_of D b"
  by (induction D) auto

lemma c_set_map_of [simp]: "map_of (c_data (c_set c a t)) = (map_of (c_data c))(a \<mapsto> t)"
  by (rule ext) (simp add: c_set_def map_of_filter_neq)

text \<open>The results of \<open>tryAdd\<close> on the constraints: unchanged, or one unbound unknown is bound.\<close>

lemma tryAdd_cases [consumes 1, case_names keep bind copy]:
  assumes "tryAdd l r c = Inr (b, c')"
  obtains "c' = c"
    | a t where "c' = c_set c a t" "b" "map_of (c_data c) a = None" "\<not> typeOccurs t (TyUnknown a)"
        "l = TyUnknown a \<and> r = t \<or> r = TyUnknown a \<and> l = t"
    | a a' t where "c' = c_set c a t" "b" "map_of (c_data c) a = None" "map_of (c_data c) a' = Some t"
        "t \<noteq> TyUnknown a"
        "l = TyUnknown a \<and> r = TyUnknown a' \<or> r = TyUnknown a \<and> l = TyUnknown a'"
proof -
  note outer = that
  have bind: thesis if t: "tryAdd_bind a t c = Inr (b, c')"
    "l = TyUnknown a \<and> r = t \<or> r = TyUnknown a \<and> l = t" for a t
  proof (cases "map_of (c_data c) a")
    case None
    then show thesis
      using t outer(1) outer(2) [of a t]
      by (cases "typeOccurs t (TyUnknown a)") (auto simp: tryAdd_bind_def)
  next
    case (Some u)
    with t(1) outer(1) show thesis by (auto simp: tryAdd_bind_def bindR_eq_Inr)
  qed
  show thesis
  proof (cases l; cases r)
    fix x y assume l: "l = TyUnknown x" and r: "r = TyUnknown y"
    with assms have ne: "x \<noteq> y" and eq: "tryAdd_unknowns x y c = (b, c')"
      by (auto simp: tryAdd_def bindR_eq_Inr)
    show thesis
      using eq ne l r that
      by (cases "map_of (c_data c) x"; cases "map_of (c_data c) y")
        (auto simp: tryAdd_unknowns_def typeOccurs_iff split: if_splits)
  qed (use assms bind in \<open>auto simp: tryAdd_def bindR_eq_Inr\<close>)
qed

text \<open>Equality of meaning passes to components, and \<open>tryAdd\<close> keeps every solution of such pairs.\<close>

lemma tryAdd_keeps_solution:
  assumes "tryAdd l r c = Inr (b, c')" "same_meaning \<sigma> l r" "solves \<sigma> (c_data c)"
  shows "solves \<sigma> (c_data c')"
  using assms(1)
proof (cases rule: tryAdd_cases)
  case (bind a t)
  with assms(2,3) show ?thesis by (auto intro: solves_c_set simp: same_meaning_def)
next
  case (copy a a' t)
  then have "strip (\<sigma> a') = strip (tsub \<sigma> t)" using assms(3) solves_map_of by blast
  with copy assms(2,3) show ?thesis by (auto intro: solves_c_set simp: same_meaning_def)
qed (use assms in simp)

lemma map_eq_list_all2: "map f xs = map g ys \<longleftrightarrow> list_all2 (\<lambda>x y. f x = g y) xs ys"
  by (auto simp: list_all2_conv_all_nth list_eq_iff_nth_eq)

lemma same_meaning_simps:
  "same_meaning \<sigma> (TyTuple ls) (TyTuple rs) \<longleftrightarrow> list_all2 (same_meaning \<sigma>) ls rs"
  "same_meaning \<sigma> (TyArray a) (TyArray b) \<longleftrightarrow> same_meaning \<sigma> a b"
  "same_meaning \<sigma> (TyPointer a) (TyPointer b) \<longleftrightarrow> same_meaning \<sigma> a b"
  "same_meaning \<sigma> (TyFunction ls a v) (TyFunction rs b w) \<longleftrightarrow>
     list_all2 (same_meaning \<sigma>) ls rs \<and> same_meaning \<sigma> a b \<and> v = w"
  "same_meaning \<sigma> (TyInstance i nm loc ls df gen) (TyInstance i' nm' loc' rs df' gen') \<longleftrightarrow>
     list_all2 (same_meaning \<sigma>) ls rs \<and> df = df' \<and> gen = gen'"
  by (simp_all add: same_meaning_def [abs_def] map_eq_list_all2 list.rel_map)

interpretation solution: unify_adder tryAdd "same_meaning \<sigma>" "\<lambda>c. solves \<sigma> (c_data c)" for \<sigma>
  by unfold_locales (auto simp: same_meaning_simps intro: tryAdd_keeps_solution)

text \<open>Constraints are only added: a binding stays.\<close>

lemma tryAdd_extends:
  assumes "tryAdd l r c = Inr (b, c')"
  shows "map_of (c_data c) \<subseteq>\<^sub>m map_of (c_data c')"
  using assms by (cases rule: tryAdd_cases) (auto simp: map_le_def)

interpretation extends: unify_adder tryAdd "\<lambda>_ _. True"
  "\<lambda>c. map_of (c_data c0) \<subseteq>\<^sub>m map_of (c_data c)" for c0
  by unfold_locales
    (auto simp: list_all2_conv_all_nth intro: map_le_trans dest: tryAdd_extends)

text \<open>
  C2: Unification loses no typing: whatever it answers, the constraints it leaves keep every old
  binding, and each substitution that solved the old constraints and makes the two types the same
  solves the new ones.
\<close>

theorem typeUnify_keeps_solutions:
  assumes "typeUnify l r c = Inr (b, c')"
  shows "map_of (c_data c) \<subseteq>\<^sub>m map_of (c_data c') \<and>
    (\<forall>\<sigma>. solves \<sigma> (c_data c) \<and> strip (tsub \<sigma> l) = strip (tsub \<sigma> r) \<longrightarrow> solves \<sigma> (c_data c'))"
  using assms extends.unify_keeps [of l r c b c' c] solution.unify_keeps [of l r c b c']
  by (auto simp: typeUnify_def same_meaning_def)

lemma typeUnify_keeps_solutions_witness:
  "solves (\<lambda>_. TyInteger) [(1, TyInteger)]"
proof -
  have "typeUnify (TyArray (TyUnknown 1)) (TyArray TyInteger) constraints0 =
      Inr (True, \<lparr>c_data = [(1, TyInteger)], c_rewrites = 0\<rparr>)"
    by (simp add: typeUnify_def unify_simps tryAdd_def tryAdd_bind_def constraints0_def typeOccurs_iff
        c_set_def)
  from typeUnify_keeps_solutions [OF this] show ?thesis
    by (simp add: constraints0_def solves_def)
qed

end
