(* ===== verification/TypesRewrite.thy ===== *)
theory TypesRewrite
  imports TypesCorrect
begin

text \<open>
  \<open>TypeConstraints::rewrite\<close>: what it keeps, when it ends and when it does not.
\<close>

section \<open>Rewriting\<close>

lemma find_data_eq: "find_data D t = (case t of TyUnknown a \<Rightarrow> map_of D a | _ \<Rightarrow> None)"
  by (simp add: find_data_def)

text \<open>
  What holds of every node the recursion returns holds of lists of them: the count of rewrites
  does not fall, the meaning is kept, and without a rewrite nothing changed.
\<close>

definition rw_ok :: "(addr \<Rightarrow> ty) \<Rightarrow> (addr \<times> ty) list \<Rightarrow> ty \<Rightarrow> int \<Rightarrow> ty \<Rightarrow> int \<Rightarrow> bool" where
  "rw_ok \<sigma> D t n t' n' = (n \<le> n' \<and> (solves \<sigma> D \<longrightarrow> same_meaning \<sigma> t' t) \<and>
     (n' = n \<longrightarrow> strip t' = strip t \<and> unknowns t \<inter> fst ` set D = {}))"

definition rw_all :: "(addr \<Rightarrow> ty) \<Rightarrow> (addr \<times> ty) list \<Rightarrow> (ty \<Rightarrow> int \<times> addr \<Rightarrow> (ty \<times> int \<times> addr) result) \<Rightarrow> bool" where
  "rw_all \<sigma> D rec = (\<forall>t n x t' n' x'. rec t (n, x) = Inr (t', n', x') \<longrightarrow> rw_ok \<sigma> D t n t' n')"

definition rws_ok :: "(addr \<Rightarrow> ty) \<Rightarrow> (addr \<times> ty) list \<Rightarrow> ty list \<Rightarrow> int \<Rightarrow> ty list \<Rightarrow> int \<Rightarrow> bool" where
  "rws_ok \<sigma> D ts n ts' n' = (n \<le> n' \<and> (solves \<sigma> D \<longrightarrow> list_all2 (same_meaning \<sigma>) ts' ts) \<and>
     (n' = n \<longrightarrow> map strip ts' = map strip ts \<and> (\<forall>t \<in> set ts. unknowns t \<inter> fst ` set D = {})))"

lemma mapS_rw_ok:
  assumes "rw_all \<sigma> D rec" "mapS rec ts (n, x) = Inr (ts', n', x')"
  shows "rws_ok \<sigma> D ts n ts' n'"
  using assms(2)
proof (induction ts arbitrary: n x ts')
  case (Cons t ts)
  then obtain t1 n1 x1 ts1 where
    h: "rec t (n, x) = Inr (t1, n1, x1)" "mapS rec ts (n1, x1) = Inr (ts1, n', x')" "ts' = t1 # ts1"
    by (auto simp: bindR_eq_Inr)
  have "rw_ok \<sigma> D t n t1 n1" using assms(1) h(1) unfolding rw_all_def by blast
  with Cons.IH [OF h(2)] h(3) show ?case by (auto simp: rws_ok_def rw_ok_def)
qed (simp add: rws_ok_def)

lemma rw_ok_list:
  "rws_ok \<sigma> D fs n fs' n' \<Longrightarrow> rw_ok \<sigma> D (TyTuple fs) n (TyTuple fs') n'"
  "rws_ok \<sigma> D fs n fs' n' \<Longrightarrow>
   rw_ok \<sigma> D (TyInstance i nm loc fs df gen) n (TyInstance i' nm loc fs' df gen) n'"
  by (auto simp: rw_ok_def rws_ok_def same_meaning_simps)

lemma rw_ok_one:
  "rw_ok \<sigma> D e n e' n' \<Longrightarrow> rw_ok \<sigma> D (TyArray e) n (TyArray e') n'"
  "rw_ok \<sigma> D e n e' n' \<Longrightarrow> rw_ok \<sigma> D (TyPointer e) n (TyPointer e') n'"
  by (auto simp: rw_ok_def same_meaning_simps)

lemma rw_ok_Function:
  "rws_ok \<sigma> D as n as' n1 \<Longrightarrow> rw_ok \<sigma> D r n1 r' n' \<Longrightarrow>
   rw_ok \<sigma> D (TyFunction as r v) n (TyFunction as' r' v) n'"
  unfolding rw_ok_def rws_ok_def same_meaning_simps
  by (intro conjI impI; (elim conjE)?; auto)

lemma rw_ok_same: "unknowns t \<inter> fst ` set D = {} \<Longrightarrow> rw_ok \<sigma> D t n t n"
  by (simp add: rw_ok_def same_meaning_def)

lemma rewrite_node_ok:
  assumes "rw_all \<sigma> D rec" "rewrite_node rec t (n, x) = Inr (t', n', x')"
    "\<And>a. t = TyUnknown a \<Longrightarrow> map_of D a = None"
  shows "rw_ok \<sigma> D t n t' n'"
proof (cases t)
  case (TyTuple fs)
  with assms(2) obtain fs' where "mapS rec fs (n, x) = Inr (fs', n', x')" "t' = TyTuple fs'"
    by (auto simp: bindR_eq_Inr)
  with mapS_rw_ok [OF assms(1)] TyTuple show ?thesis by (auto intro: rw_ok_list)
next
  case (TyArray e)
  with assms(2) obtain e' where "rec e (n, x) = Inr (e', n', x')" "t' = TyArray e'"
    by (auto simp: bindR_eq_Inr)
  with assms(1) TyArray show ?thesis unfolding rw_all_def by (blast intro: rw_ok_one)
next
  case (TyPointer e)
  with assms(2) obtain e' where "rec e (n, x) = Inr (e', n', x')" "t' = TyPointer e'"
    by (auto simp: bindR_eq_Inr)
  with assms(1) TyPointer show ?thesis unfolding rw_all_def by (blast intro: rw_ok_one)
next
  case (TyFunction as r v)
  with assms(2) obtain as' n1 x1 r' where
    h: "mapS rec as (n, x) = Inr (as', n1, x1)" "rec r (n1, x1) = Inr (r', n', x')"
      "t' = TyFunction as' r' v"
    by (auto simp: bindR_eq_Inr)
  have "rw_ok \<sigma> D r n1 r' n'" using assms(1) h(2) unfolding rw_all_def by blast
  then show ?thesis
    using TyFunction h(3) rw_ok_Function [OF mapS_rw_ok [OF assms(1) h(1)]] by simp
next
  case (TyInstance i nm loc as df gen)
  with assms(2) obtain as' x1 where
    "mapS rec as (n, x) = Inr (as', n', x1)" "t' = TyInstance x1 nm loc as' df gen"
    by (auto simp: bindR_eq_Inr)
  with mapS_rw_ok [OF assms(1)] TyInstance show ?thesis by (auto intro: rw_ok_list)
next
  case (TyUnknown a)
  have "a \<notin> fst ` set D" using assms(3) [OF TyUnknown] by (simp add: map_of_eq_None_iff)
  then have "unknowns t \<inter> fst ` set D = {}" by (simp add: TyUnknown del: image_iff)
  then show ?thesis using rw_ok_same [where t = t and D = D] assms(2) TyUnknown by simp
qed (use assms(2) in \<open>auto intro!: rw_ok_same\<close>)

lemma rewrite_ok: "rw_all \<sigma> D (rewrite k D)"
proof (induction k)
  case 0
  then show ?case by (simp add: rw_all_def)
next
  case (Suc k)
  have "rw_ok \<sigma> D t n t' n'" if r: "rewrite (Suc k) D t (n, x) = Inr (t', n', x')" for t n x t' n' x'
  proof (cases "find_data D t")
    case None
    with r have "rewrite_node (rewrite k D) t (n, x) = Inr (t', n', x')" by simp
    then show ?thesis
      by (rule rewrite_node_ok [OF Suc]) (use None in \<open>simp add: find_data_def\<close>)
  next
    case (Some u)
    then obtain a where t: "t = TyUnknown a" and a: "map_of D a = Some u"
      by (auto simp: find_data_def split: ty.splits)
    from r Some have n: "rewrite_node (rewrite k D) u (n + 1, x) = Inr (t', n', x')" by simp
    have "rw_ok \<sigma> D u (n + 1) t' n' \<or> (\<exists>b. u = TyUnknown b)"
      using rewrite_node_ok [OF Suc n] by blast
    then have *: "n + 1 \<le> n' \<and> (solves \<sigma> D \<longrightarrow> same_meaning \<sigma> t' u)"
      using n by (auto simp: rw_ok_def same_meaning_def)
    with r t solves_map_of [OF _ a] show ?thesis by (auto simp: rw_ok_def same_meaning_def)
  qed
  then show ?case by (auto simp: rw_all_def)
qed

section \<open>Termination\<close>

text \<open>
  The recursion gets through \<open>t\<close> with fuel \<open>k\<close>, whatever the counters. More fuel does not hurt.
\<close>

definition rw_ends :: "nat \<Rightarrow> (addr \<times> ty) list \<Rightarrow> ty \<Rightarrow> bool" where
  "rw_ends k D t = (\<forall>s. isRight (rewrite k D t s))"

lemma mapS_isRight: "(\<And>t s. t \<in> set ts \<Longrightarrow> isRight (f t s)) \<Longrightarrow> isRight (mapS f ts s)"
proof (induction ts arbitrary: s)
  case (Cons t ts)
  from Cons.prems obtain y s1 where y: "f t s = Inr (y, s1)"
    by (metis isRightE list.set_intros(1) surj_pair)
  from Cons have "isRight (mapS f ts s1)" by simp
  with y show ?case by (auto elim!: isRightE)
qed simp

definition parts :: "ty \<Rightarrow> ty set" where
  "parts t = (case t of TyTuple fs \<Rightarrow> set fs | TyArray e \<Rightarrow> {e} | TyPointer e \<Rightarrow> {e}
     | TyFunction as r v \<Rightarrow> insert r (set as) | TyInstance i nm loc as df gen \<Rightarrow> set as | _ \<Rightarrow> {})"

lemma finite_parts [simp]: "finite (parts t)"
  by (simp add: parts_def split: ty.splits)

lemma unknowns_parts: "t' \<in> parts t \<Longrightarrow> unknowns t' \<subseteq> unknowns t"
  by (cases t) (auto simp: parts_def)

lemma rewrite_node_isRight:
  assumes "\<And>t' s. t' \<in> parts t \<Longrightarrow> isRight (rec t' s)"
  shows "isRight (rewrite_node rec t s)"
proof (cases t)
  case (TyTuple fs)
  with mapS_isRight [of fs rec s] assms show ?thesis by (auto simp: parts_def elim!: isRightE)
next
  case (TyArray e)
  with assms [of e s] show ?thesis by (auto simp: parts_def elim!: isRightE)
next
  case (TyPointer e)
  with assms [of e s] show ?thesis by (auto simp: parts_def elim!: isRightE)
next
  case (TyFunction as r v)
  with mapS_isRight [of as rec s] assms obtain as' s' where m: "mapS rec as s = Inr (as', s')"
    by (auto simp: parts_def elim!: isRightE)
  have "isRight (rec r s')" using assms TyFunction by (simp add: parts_def)
  with TyFunction m show ?thesis by (auto elim!: isRightE)
next
  case (TyInstance i nm loc as df gen)
  with mapS_isRight [of as rec s] assms show ?thesis by (auto simp: parts_def elim!: isRightE)
qed simp_all

lemma rewrite_node_mono:
  assumes "\<And>t' s r. rec t' s = Inr r \<Longrightarrow> rec' t' s = Inr r" "rewrite_node rec t s = Inr r"
  shows "rewrite_node rec' t s = Inr r"
proof -
  have m: "mapS rec ts s = Inr r \<Longrightarrow> mapS rec' ts s = Inr r" for ts s r
    by (induction ts arbitrary: s r) (fastforce simp: bindR_eq_Inr intro: assms(1))+
  show ?thesis using assms(2) by (cases t) (fastforce simp: bindR_eq_Inr intro: assms(1) m)+
qed

lemma rewrite_mono: "rewrite k D t s = Inr r \<Longrightarrow> k \<le> k' \<Longrightarrow> rewrite k' D t s = Inr r"
proof (induction k arbitrary: k' t s r)
  case (Suc k)
  from Suc.prems(2) obtain j where k': "k' = Suc j" "k \<le> j" by (cases k') auto
  have "rewrite j D t' s = Inr r" if "rewrite k D t' s = Inr r" for t' s r
    using Suc.IH that k'(2) by blast
  with Suc.prems(1) k'(1) show ?case
    by (auto split: option.splits elim!: rewrite_node_mono [rotated])
qed simp

lemma rw_ends_mono: "rw_ends k D t \<Longrightarrow> k \<le> k' \<Longrightarrow> rw_ends k' D t"
  unfolding rw_ends_def by (metis isRight.simps(1) isRightE rewrite_mono)

lemma rw_ends_finite:
  assumes "finite S" "\<And>t. t \<in> S \<Longrightarrow> \<exists>k. rw_ends k D t"
  shows "\<exists>k. \<forall>t \<in> S. rw_ends k D t"
  using assms
proof (induction S rule: finite_induct)
  case (insert t S)
  then obtain k k' where "\<forall>t \<in> S. rw_ends k D t" "rw_ends k' D t" by blast
  then have "\<forall>u \<in> insert t S. rw_ends (max k k') D u" using rw_ends_mono by fastforce
  then show ?case ..
qed simp

lemma rw_ends_node:
  assumes "\<forall>u \<in> parts (case find_data D t of Some u \<Rightarrow> u | None \<Rightarrow> t). rw_ends k D u"
  shows "rw_ends (Suc k) D t"
  unfolding rw_ends_def
proof
  fix s
  from assms show "isRight (rewrite (Suc k) D t s)"
    by (cases "find_data D t") (auto simp: rw_ends_def intro!: rewrite_node_isRight)
qed

lemma unknowns_finite [simp]: "finite (unknowns t)"
  by (induction t rule: unknowns.induct) auto

text \<open>
  The constraints are acyclic when there is a rank that falls from an unknown to the unknowns of
  what it is bound to.
\<close>

definition ranked :: "(addr \<Rightarrow> nat) \<Rightarrow> (addr \<times> ty) list \<Rightarrow> bool" where
  "ranked rk D = (\<forall>(a, t) \<in> set D. \<forall>b \<in> unknowns t. rk b < rk a)"

lemma parts_size: "u \<in> parts t \<Longrightarrow> size u < size t"
  by (cases t) (auto simp: parts_def dest: size_list_estimation' [where f = size, OF _ order_refl]
      intro: le_imp_less_Suc trans_le_add1)

lemma rw_ends_ranked:
  assumes "ranked rk D"
  shows "\<forall>a \<in> unknowns t. rk a < m \<Longrightarrow> \<exists>k. rw_ends k D t"
proof (induction m arbitrary: t)
  case 0
  then show ?case
  proof (induction t rule: measure_induct_rule [where f = size])
    case (less t)
    then have "find_data D t = None" by (cases t) (auto simp: find_data_def)
    moreover have "\<exists>k. \<forall>u \<in> parts t. rw_ends k D u"
    proof (intro rw_ends_finite)
      show "\<exists>k. rw_ends k D u" if "u \<in> parts t" for u
        using less.IH [OF parts_size [OF that]] less.prems unknowns_parts [OF that] by auto
    qed simp
    ultimately show ?case using rw_ends_node [of t D] by auto
  qed
next
  case (Suc m)
  from Suc.prems show ?case
  proof (induction t rule: measure_induct_rule [where f = size])
    case (less t)
    show ?case
    proof (cases "find_data D t")
      case None
      have "\<exists>k. \<forall>u \<in> parts t. rw_ends k D u"
      proof (intro rw_ends_finite)
        show "\<exists>k. rw_ends k D u" if "u \<in> parts t" for u
          using less.IH [OF parts_size [OF that]] less.prems unknowns_parts [OF that] by blast
      qed simp
      with None show ?thesis using rw_ends_node [of t D] by auto
    next
      case (Some u)
      then obtain a where t: "t = TyUnknown a" and "map_of D a = Some u"
        by (auto simp: find_data_def split: ty.splits)
      then have "\<forall>b \<in> unknowns u. rk b < rk a"
        using assms map_of_SomeD unfolding ranked_def by fast
      with less.prems t have "\<forall>b \<in> unknowns u. rk b < m" by fastforce
      then have "\<exists>k. \<forall>v \<in> parts u. rw_ends k D v"
        by (intro rw_ends_finite Suc.IH) (auto dest: unknowns_parts)
      with Some show ?thesis using rw_ends_node [of t D] by auto
    qed
  qed
qed

text \<open>
  C22: On acyclic constraints \<open>rewrite\<close> returns, for every type and every counter: some depth of
  the call stack is enough.
\<close>

theorem rewrite_terminates:
  assumes "ranked rk D"
  shows "\<exists>k. \<forall>k' \<ge> k. \<exists>t' n' nxt'. rewrite k' D t (n, nxt) = Inr (t', n', nxt') \<and> n \<le> n'"
proof -
  have "\<forall>a \<in> unknowns t. rk a < Suc (Max (rk ` unknowns t))"
    by (auto simp: less_Suc_eq_le unknowns_finite)
  with rw_ends_ranked [OF assms] obtain k where k: "rw_ends k D t" by blast
  have "\<exists>t' n' nxt'. rewrite k' D t (n, nxt) = Inr (t', n', nxt') \<and> n \<le> n'" if "k \<le> k'" for k'
  proof -
    from rw_ends_mono [OF k that] obtain t' n' x' where r: "rewrite k' D t (n, nxt) = Inr (t', n', x')"
      unfolding rw_ends_def by (metis isRightE surj_pair)
    have "n \<le> n'" using rewrite_ok [of TyUnknown D k'] r unfolding rw_all_def rw_ok_def by blast
    with r show ?thesis by blast
  qed
  then show ?thesis by blast
qed

text \<open>Its hypothesis holds of a chain: unknown 1 is an array of unknown 2, which is an integer.\<close>

lemma rewrite_terminates_witness:
  "\<exists>k. \<forall>k' \<ge> k. \<exists>t' n' nxt'. rewrite k' [(1, TyArray (TyUnknown 2)), (2, TyInteger)]
     (TyPointer (TyUnknown 1)) (0, 7) = Inr (t', n', nxt') \<and> 0 \<le> n'"
  by (rule rewrite_terminates [of "\<lambda>a. 3 - a"]) (simp add: ranked_def)



section \<open>Cyclic constraints\<close>

text \<open>
  C24: The occurs check of \<open>tryAdd\<close> looks only at the type it is about to bind, not at what the
  unknowns in it are bound to. Two equations that unification accepts, a pointer to \<open>y\<close> for \<open>x\<close>
  and a pointer to \<open>x\<close> for \<open>y\<close>, have no solution, and \<open>rewrite\<close> then recurses for ever: no depth
  of the call stack is enough.
\<close>

theorem occurs_check_misses_cycle:
  "\<exists>c1 c2. typeUnify (TyPointer (TyUnknown 2)) (TyUnknown 1) constraints0 = Inr (True, c1) \<and>
     typeUnify (TyPointer (TyUnknown 1)) (TyUnknown 2) c1 = Inr (True, c2) \<and>
     (\<forall>k n nxt. rewrite k (c_data c2) (TyUnknown 1) (n, nxt) = Inl NoFuel)"
proof -
  let ?D = "[(2, TyPointer (TyUnknown 1)), (1, TyPointer (TyUnknown 2))]"
  have "\<forall>n nxt. rewrite k ?D (TyUnknown 1) (n, nxt) = Inl NoFuel \<and>
      rewrite k ?D (TyUnknown 2) (n, nxt) = Inl NoFuel" for k
    by (induction k) (simp_all add: find_data_def)
  then show ?thesis
    by (simp add: typeUnify_def unify_simps tryAdd_def tryAdd_bind_def typeOccurs_iff constraints0_def
        c_set_def)
qed

end
