(* ===== verification/TypesInst.thy ===== *)
theory TypesInst
  imports TypesCorrect
begin

text \<open>
  \<open>typeInstantiate\<close> and \<open>typeMember\<close>: instantiation is the substitution of types for generics,
  and the member of a struct value is the field's type at the value's type arguments.
\<close>

text \<open>The generics an instance node of a type refers to, and the substitution of types for them.\<close>

fun generics :: "ty \<Rightarrow> addr set" where
  "generics (TyTuple fs) = \<Union> (generics ` set fs)"
| "generics (TyArray e) = generics e"
| "generics (TyPointer e) = generics e"
| "generics (TyFunction as r v) = \<Union> (generics ` set as) \<union> generics r"
| "generics (TyInstance i nm loc as df (Some g)) = {g}"
| "generics (TyInstance i nm loc as df None) = \<Union> (generics ` set as)"
| "generics _ = {}"

fun gsub :: "(addr \<Rightarrow> ty option) \<Rightarrow> ty \<Rightarrow> ty" where
  "gsub f (TyTuple fs) = TyTuple (map (gsub f) fs)"
| "gsub f (TyArray e) = TyArray (gsub f e)"
| "gsub f (TyPointer e) = TyPointer (gsub f e)"
| "gsub f (TyFunction as r v) = TyFunction (map (gsub f) as) (gsub f r) v"
| "gsub f (TyInstance i nm loc as df (Some g)) =
     (case f g of Some t \<Rightarrow> t | None \<Rightarrow> TyInstance i nm loc as df (Some g))"
| "gsub f (TyInstance i nm loc as df None) = TyInstance i nm loc (map (gsub f) as) df None"
| "gsub f t = t"

lemma gsub_generics:
  "generics (gsub f t) = (generics t - dom f) \<union> \<Union> {generics u | u g. g \<in> generics t \<and> f g = Some u}"
  by (induction f t rule: gsub.induct) (auto split: option.splits; fastforce)+

definition inst_ok :: "(addr \<Rightarrow> ty option) \<Rightarrow> ty \<Rightarrow> addr \<Rightarrow> (ty \<times> addr) result \<Rightarrow> bool" where
  "inst_ok f t nxt m = (\<exists>t' nxt'. m = Inr (t', nxt') \<and> strip t' = strip (gsub f t) \<and>
     generics t' = generics (gsub f t) \<and> unknowns t' = unknowns (gsub f t) \<and> nxt \<le> nxt')"

lemma inst_okI:
  "m = Inr (t', nxt') \<Longrightarrow> strip t' = strip (gsub f t) \<Longrightarrow> generics t' = generics (gsub f t) \<Longrightarrow>
   unknowns t' = unknowns (gsub f t) \<Longrightarrow> nxt \<le> nxt' \<Longrightarrow> inst_ok f t nxt m"
  by (simp add: inst_ok_def)

lemma mapS_inst_ok:
  assumes "\<And>t nxt. t \<in> set ts \<Longrightarrow> inst_ok f t nxt (rec t nxt)"
  shows "\<exists>ts' nxt'. mapS rec ts nxt = Inr (ts', nxt') \<and> map strip ts' = map (strip \<circ> gsub f) ts \<and>
     \<Union> (generics ` set ts') = \<Union> (generics ` gsub f ` set ts) \<and>
     \<Union> (unknowns ` set ts') = \<Union> (unknowns ` gsub f ` set ts) \<and> nxt \<le> nxt'"
  using assms
proof (induction ts arbitrary: nxt)
  case (Cons t ts)
  from Cons.prems [of t nxt] obtain t1 n1 where
    t: "rec t nxt = Inr (t1, n1)" "strip t1 = strip (gsub f t)" "generics t1 = generics (gsub f t)"
      "unknowns t1 = unknowns (gsub f t)" "nxt \<le> n1"
    by (auto simp: inst_ok_def)
  from Cons.IH [of n1] Cons.prems obtain ts1 n2 where
    "mapS rec ts n1 = Inr (ts1, n2)" "map strip ts1 = map (strip \<circ> gsub f) ts"
    "\<Union> (generics ` set ts1) = \<Union> (generics ` gsub f ` set ts)"
    "\<Union> (unknowns ` set ts1) = \<Union> (unknowns ` gsub f ` set ts)" "n1 \<le> n2"
    by auto
  with t show ?case by (intro exI [of _ "t1 # ts1"] exI [of _ n2]) auto
qed simp

lemma inst_ok_list:
  assumes "\<And>t nxt. t \<in> set ts \<Longrightarrow> inst_ok f t nxt (typeInstantiate (\<lambda>g. Inr (f g)) t nxt)"
  shows "inst_ok f (TyTuple ts) nxt (typeInstantiate (\<lambda>g. Inr (f g)) (TyTuple ts) nxt)"
    "inst_ok f (TyInstance i nm loc ts df None) nxt
      (typeInstantiate (\<lambda>g. Inr (f g)) (TyInstance i nm loc ts df None) nxt)"
proof -
  from mapS_inst_ok [of ts f "typeInstantiate (\<lambda>g. Inr (f g))" nxt, OF assms] obtain ts' n1 where
    ts: "mapS (typeInstantiate (\<lambda>g. Inr (f g))) ts nxt = Inr (ts', n1)"
      "map strip ts' = map (strip \<circ> gsub f) ts"
      "\<Union> (generics ` set ts') = \<Union> (generics ` gsub f ` set ts)"
      "\<Union> (unknowns ` set ts') = \<Union> (unknowns ` gsub f ` set ts)" "nxt \<le> n1"
    by metis
  have "typeInstantiate (\<lambda>g. Inr (f g)) (TyTuple ts) nxt = Inr (TyTuple ts', n1)" using ts(1) by simp
  moreover have "strip (TyTuple ts') = strip (gsub f (TyTuple ts))" using ts(2) by simp
  moreover have "generics (TyTuple ts') = generics (gsub f (TyTuple ts))" using ts(3) by simp
  moreover have "unknowns (TyTuple ts') = unknowns (gsub f (TyTuple ts))" using ts(4) by simp
  moreover have "nxt \<le> n1" using ts(5) by simp
  ultimately show "inst_ok f (TyTuple ts) nxt (typeInstantiate (\<lambda>g. Inr (f g)) (TyTuple ts) nxt)"
    by (rule inst_okI)
  have "typeInstantiate (\<lambda>g. Inr (f g)) (TyInstance i nm loc ts df None) nxt = Inr (TyInstance n1 nm loc ts' df None, n1 + 1)" using ts(1) by simp
  moreover have "strip (TyInstance n1 nm loc ts' df None) = strip (gsub f (TyInstance i nm loc ts df None))" using ts(2) by simp
  moreover have "generics (TyInstance n1 nm loc ts' df None) = generics (gsub f (TyInstance i nm loc ts df None))" using ts(3) by simp
  moreover have "unknowns (TyInstance n1 nm loc ts' df None) = unknowns (gsub f (TyInstance i nm loc ts df None))" using ts(4) by simp
  moreover have "nxt \<le> n1 + 1" using ts(5) by simp
  ultimately show "inst_ok f (TyInstance i nm loc ts df None) nxt (typeInstantiate (\<lambda>g. Inr (f g)) (TyInstance i nm loc ts df None) nxt)"
    by (rule inst_okI)
qed

lemma typeInstantiate_ok:
  assumes "\<And>g nm loc. f g \<noteq> Some (TyGeneric g nm loc)"
  shows "inst_ok f t nxt (typeInstantiate (\<lambda>g. Inr (f g)) t nxt)"
proof (induction t arbitrary: nxt)
  case (TyTuple fs)
  then show ?case by (rule inst_ok_list)
next
  case (TyArray e)
  from this [of nxt] show ?case by (auto simp: inst_ok_def)
next
  case (TyPointer e)
  from this [of nxt] show ?case by (auto simp: inst_ok_def)
next
  case (TyFunction as r v)
  from mapS_inst_ok [of as f "typeInstantiate (\<lambda>g. Inr (f g))" nxt, OF TyFunction.IH(1)]
  obtain as' n1 where as: "mapS (typeInstantiate (\<lambda>g. Inr (f g))) as nxt = Inr (as', n1)"
    "map strip as' = map (strip \<circ> gsub f) as"
    "\<Union> (generics ` set as') = \<Union> (generics ` gsub f ` set as)"
    "\<Union> (unknowns ` set as') = \<Union> (unknowns ` gsub f ` set as)" "nxt \<le> n1"
    by metis
  from TyFunction.IH(2) [of n1] obtain r' n2 where
    "typeInstantiate (\<lambda>g. Inr (f g)) r n1 = Inr (r', n2)" "strip r' = strip (gsub f r)"
    "generics r' = generics (gsub f r)" "unknowns r' = unknowns (gsub f r)" "n1 \<le> n2"
    by (auto simp: inst_ok_def)
  moreover from this as have
    "typeInstantiate (\<lambda>g. Inr (f g)) (TyFunction as r v) nxt = Inr (TyFunction as' r' v, n2)"
    "strip (TyFunction as' r' v) = strip (gsub f (TyFunction as r v))"
    "generics (TyFunction as' r' v) = generics (gsub f (TyFunction as r v))"
    "unknowns (TyFunction as' r' v) = unknowns (gsub f (TyFunction as r v))" "nxt \<le> n2"
    by simp_all
  ultimately show ?case by (intro inst_okI)
next
  case (TyInstance i nm loc as df gen)
  show ?case
  proof (cases gen)
    case None
    show ?thesis unfolding None using TyInstance by (rule inst_ok_list)
  next
    case (Some g)
    have "case u of TyGeneric h _ _ \<Rightarrow> h \<noteq> g | _ \<Rightarrow> True" if "f g = Some u" for u
      using assms [of g] that by (cases u) auto
    then show ?thesis using Some by (cases "f g") (simp_all add: inst_ok_def)
  qed
qed (simp_all add: inst_ok_def)

text \<open>
  C23: Instantiating a type with a callback that answers no generic with itself never fails: the
  result is the substitution of the callback's types for the generics, up to the fresh addresses of
  the instance nodes on the way, so no generic that the callback answers is left over, except for
  those that the answers themselves mention.
\<close>

theorem typeInstantiate_substitutes:
  assumes "\<And>g nm loc. f g \<noteq> Some (TyGeneric g nm loc)"
  shows "\<exists>t' nxt'. typeInstantiate (\<lambda>g. Inr (f g)) t nxt = Inr (t', nxt') \<and> nxt \<le> nxt' \<and>
    strip t' = strip (gsub f t) \<and> unknowns t' = unknowns (gsub f t) \<and>
    generics t' = (generics t - dom f) \<union> \<Union> {generics u | u g. g \<in> generics t \<and> f g = Some u}"
  using typeInstantiate_ok [OF assms, of t nxt] by (auto simp: inst_ok_def gsub_generics)

lemma typeInstantiate_substitutes_witness:
  "\<exists>t' nxt'. typeInstantiate (\<lambda>g. Inr (if g = 4 then Some TyInteger else None))
     (TyFunction [TyInstance 1 ''T'' Location0 [] None (Some 4)] (TyArray (TyUnknown 2)) False) 9 =
     Inr (t', nxt') \<and> 9 \<le> nxt' \<and> strip t' = TyFunction [TyInteger] (TyArray (TyUnknown 2)) False"
  using typeInstantiate_substitutes [of "\<lambda>g. if g = 4 then Some TyInteger else None"
      "TyFunction [TyInstance 1 ''T'' Location0 [] None (Some 4)] (TyArray (TyUnknown 2)) False" 9]
  by auto

section \<open>Members\<close>

text \<open>
  A struct definition as the resolver leaves it: its parameters are different generics, and the
  field types mention no other generic.
\<close>

definition tydef_ok :: "'e tydef \<Rightarrow> bool" where
  "tydef_ok d = ((\<forall>p \<in> set (sd_tyargs d). generic_addr p \<noteq> None) \<and>
     distinct (map (the \<circ> generic_addr) (sd_tyargs d)) \<and>
     (\<forall>f \<in> set (sd_fields d). generics (sf_type f) \<subseteq> the ` generic_addr ` set (sd_tyargs d)))"

lemma inst_lookup_map_of:
  "\<forall>p \<in> set ps. generic_addr p \<noteq> None \<Longrightarrow>
   inst_lookup ps as g = map_of (zip (map (the \<circ> generic_addr) ps) as) g"
  by (induction ps as g rule: inst_lookup.induct) auto

lemma inst_lookup_set: "inst_lookup ps as g = Some t \<Longrightarrow> t \<in> set as"
  by (induction ps as g rule: inst_lookup.induct) (auto split: if_splits)

text \<open>
  The member of a value of struct type, at an index of the definition's fields and with as many
  type arguments as the definition has parameters, none of them a bare generic node: the call
  succeeds, and the type is the field's type with each parameter replaced by the argument at its
  position; every generic left in it comes from the arguments.
\<close>

theorem typeMember_struct:
  assumes "defs def = Some d" "tydef_ok d" "length as = length (sd_tyargs d)"
    "i < length (sd_fields d)" "\<forall>a \<in> set as. generic_addr a = None"
  shows "\<exists>t' nxt'. typeMember defs (TyInstance k nm loc as (Some def) gen) (int i) nxt = Inr (t', nxt') \<and>
    strip t' = strip (gsub (map_of (zip (map (the \<circ> generic_addr) (sd_tyargs d)) as))
      (sf_type (sd_fields d ! i))) \<and>
    generics t' \<subseteq> \<Union> (generics ` set as)"
proof -
  let ?f = "inst_lookup (sd_tyargs d) as"
  have p: "\<forall>p \<in> set (sd_tyargs d). generic_addr p \<noteq> None" using assms(2) by (simp add: tydef_ok_def)
  have f: "?f = map_of (zip (map (the \<circ> generic_addr) (sd_tyargs d)) as)"
    by (rule ext) (rule inst_lookup_map_of [OF p])
  have "?f g \<noteq> Some (TyGeneric g nm loc)" for g nm loc
    using assms(5) inst_lookup_set [of "sd_tyargs d" as g] by fastforce
  from typeInstantiate_ok [of ?f, OF this] obtain t' nxt' where
    t': "typeInstantiate (\<lambda>g. Inr (?f g)) (sf_type (sd_fields d ! i)) nxt = Inr (t', nxt')"
    "strip t' = strip (gsub ?f (sf_type (sd_fields d ! i)))"
    "generics t' = generics (gsub ?f (sf_type (sd_fields d ! i)))"
    unfolding inst_ok_def by blast
  have "generics (sf_type (sd_fields d ! i)) \<subseteq> dom ?f"
  proof -
    have "generics (sf_type (sd_fields d ! i)) \<subseteq> the ` generic_addr ` set (sd_tyargs d)"
      using assms(2,4) by (simp add: tydef_ok_def)
    then show ?thesis using assms(3) by (simp add: f image_comp)
  qed
  then have "generics t' \<subseteq> \<Union> (generics ` set as)"
    unfolding t'(3) gsub_generics by (blast dest: inst_lookup_set)
  with t'(1,2) f assms(1,3,4) show ?thesis by (simp add: typeMember_def)
qed

lemma typeMember_struct_witness:
  "\<exists>t' nxt'. typeMember [7 \<mapsto> TyDef_Struct [TyGeneric 3 ''T'' Location0] [StructField ''x'' Location0
         (TyArray (TyInstance 5 ''T'' Location0 [] None (Some 3))) (None :: unit option)]]
     (TyInstance 8 ''S'' Location0 [TyBool] (Some 7) None) (int 0) 20 = Inr (t', nxt') \<and>
   strip t' = TyArray TyBool"
  using typeMember_struct [of "[7 \<mapsto> TyDef_Struct [TyGeneric 3 ''T'' Location0] [StructField ''x'' Location0
         (TyArray (TyInstance 5 ''T'' Location0 [] None (Some 3))) (None :: unit option)]]"
     7 _ "[TyBool]" 0 8 "''S''" Location0 None 20]
  by (auto simp: tydef_ok_def)

end
