(* ===== verification/Ast.thy ===== *)
theory Ast
  imports Types
begin

text \<open>
  The abstract syntax tree, \<open>compiler/ast.hpp\<close>, and the visitors of \<open>compiler/visit.cpp\<close>. Every
  node has a type, null before type checking, and a location; the rest of it is one case of the
  union, over the child nodes \<open>'a\<close>. A \<open>Variable*\<close> is an address into a store of variables, since
  identifiers share the variables of the declarations. A struct definition is stored in its
  declaration, with the address by which types refer to it.
\<close>

datatype variable_kind = KindVariable | KindFunction | KindArgument | KindValue

text \<open>\<open>v_fn\<close> is the function declaration of a variable, named by the address of its variable.\<close>

record variable =
  v_kind :: variable_kind
  v_name :: str
  v_type :: ty
  v_location :: location
  v_fn :: "addr option"

definition FnAttributeExtern :: nat where "FnAttributeExtern = 1"
definition FnAttributeBuiltin :: nat where "FnAttributeBuiltin = 2"
definition FnAttributeInline :: nat where "FnAttributeInline = 4"

datatype unary_op = UnaryOpPlus | UnaryOpMinus | UnaryOpNot | UnaryOpDeref | UnaryOpNew

datatype binary_op =
    BinaryOpAddWrap | BinaryOpSubtractWrap | BinaryOpMultiplyWrap
  | BinaryOpAdd | BinaryOpSubtract | BinaryOpMultiply | BinaryOpDivide | BinaryOpModulo
  | BinaryOpLess | BinaryOpLessEqual | BinaryOpGreater | BinaryOpGreaterEqual
  | BinaryOpEqual | BinaryOpNotEqual | BinaryOpAnd | BinaryOpOr

record field_ref =
  fr_name :: str
  fr_location :: location
  fr_index :: int

text \<open>
  The cases of the union. A floating-point literal is kept as its text, which \<open>strtod\<close> turns into
  a double. The \<open>parent\<close> and \<open>module\<close> of a function declaration are set by \<open>resolveNames\<close>: the
  address of the enclosing function's variable and the module's name.
\<close>

datatype 'a node =
    Common
  | LiteralVoid
  | LiteralBool bool
  | LiteralInteger int
  | LiteralFloat str
  | LiteralString str
  | LiteralTuple "'a list"
  | LiteralArray "'a list"
  | LiteralStruct str "(field_ref \<times> 'a) list"
  | Ident str "ty list" "addr list" bool
  | Member 'a field_ref
  | Block "'a list"
  | Module str 'a "str list"
  | Call 'a "'a list"
  | Unary unary_op 'a
  | Binary binary_op 'a 'a
  | Index 'a 'a
  | Assign 'a 'a
  | If 'a 'a "'a option"
  | For addr "addr option" 'a 'a
  | While 'a 'a
  | Fn int 'a
  | LLVM str
  | FnDecl addr "ty list" "addr list" nat "'a option" "addr option" "str option"
  | VarDecl addr 'a
  | TyDecl str addr "'a tydef"
  | Import str

datatype ast = Node (astType: "ty option") (astLocation: location) (ast_node: "ast node")

section \<open>Visitors\<close>

text \<open>The child nodes in the order in which the visitor goes through them.\<close>

fun children :: "'a node \<Rightarrow> 'a list" where
  "children (LiteralTuple fs) = fs"
| "children (LiteralArray es) = es"
| "children (LiteralStruct nm fs) = map snd fs"
| "children (Member e f) = [e]"
| "children (Block b) = b"
| "children (Module nm b ai) = [b]"
| "children (Call e as) = e # as"
| "children (Unary op e) = [e]"
| "children (Binary op l r) = [l, r]"
| "children (Index e i) = [e, i]"
| "children (Assign l r) = [l, r]"
| "children (If c t e) = c # t # (case e of Some b \<Rightarrow> [b] | None \<Rightarrow> [])"
| "children (For v i e b) = [e, b]"
| "children (While e b) = [e, b]"
| "children (FnDecl v tas as att b p m) = (case b of Some e \<Rightarrow> [e] | None \<Rightarrow> [])"
| "children (Fn i d) = [d]"
| "children (VarDecl v e) = [e]"
| "children (TyDecl nm a d) = List.map_filter sf_expr (sd_fields d)"
| "children _ = []"

lemma struct_exprs_set:
  "set (List.map_filter sf_expr fs) = \<Union> (set_struct_field ` set fs)"
proof (induction fs)
  case (Cons f fs)
  then show ?case by (cases f) (auto simp: map_filter_simps split: option.splits)
qed (simp add: map_filter_simps)

lemma struct_exprs_map:
  "List.map_filter sf_expr (map (map_struct_field g) fs) = map g (List.map_filter sf_expr fs)"
proof (induction fs)
  case (Cons f fs)
  then show ?case by (cases f) (auto simp: map_filter_simps split: option.splits)
qed (simp add: map_filter_simps)

lemma set_tydef_fields: "set_tydef d = \<Union> (set_struct_field ` set (sd_fields d))"
  by (cases d) simp

lemma sd_fields_map: "sd_fields (map_tydef g d) = map (map_struct_field g) (sd_fields d)"
  by (cases d) simp

lemma set_children: "set (children n) = set_node n"
  by (cases n) (force simp: struct_exprs_set set_tydef_fields split: option.splits)+

lemma children_map_node: "children (map_node g n) = map g (children n)"
  by (cases n) (auto simp: struct_exprs_map sd_fields_map split: option.splits)

lemma size_tydef_estimation: "x \<in> set_tydef d \<Longrightarrow> g x < size_tydef g d"
proof -
  have "size_option g e \<le> size_list (size_struct_field g) fs"
    if "StructField a b c e \<in> set fs" for a b c e fs
    using size_list_estimation' [OF that, of "size_option g e" "size_struct_field g"] by simp
  moreover have "g x < size_option g e" if "x \<in> set_option e" for e
    using that by (cases e) auto
  moreover assume "x \<in> set_tydef d"
  ultimately show ?thesis
    by (cases d) (fastforce elim!: struct_field.set_cases intro: less_le_trans)
qed

lemma size_node_estimation: "x \<in> set_node n \<Longrightarrow> g x < size_node g n"
  by (cases n)
    (auto simp: less_Suc_eq_le trans_le_add1 trans_le_add2
      intro: size_list_estimation' size_tydef_estimation less_imp_le
      dest!: size_list_estimation' [of _ _ _ g, OF _ order_refl])

lemma size_children [termination_simp]: "x \<in> set (children (ast_node a)) \<Longrightarrow> size x < size a"
  by (cases a) (auto simp: set_children dest: size_node_estimation [of _ _ size])

text \<open>
  \<open>visitAstRec\<close> for callbacks that read the tree: \<open>f\<close> takes the state of the caller and answers
  whether to stop at the node. With \<open>ignored\<close> the callback is not made for the root.
\<close>

fun visitAstRec :: "(ast \<Rightarrow> 's \<Rightarrow> (bool \<times> 's) result) \<Rightarrow> bool \<Rightarrow> ast \<Rightarrow> 's \<Rightarrow> 's result" where
  "visitAstRec f ignored a s =
     bindR (if ignored then Inr (False, s) else f a s) (\<lambda>(stop, s').
       if stop then Inr s' else foldS (visitAstRec f False) (children (ast_node a)) s')"

declare visitAstRec.simps [simp del]

definition visitAst :: "(ast \<Rightarrow> 's \<Rightarrow> (bool \<times> 's) result) \<Rightarrow> ast \<Rightarrow> 's \<Rightarrow> 's result" where
  "visitAst f a s = visitAstRec f False a s"

definition visitAstInner :: "(ast \<Rightarrow> 's \<Rightarrow> (bool \<times> 's) result) \<Rightarrow> ast \<Rightarrow> 's \<Rightarrow> 's result" where
  "visitAstInner f a s = visitAstRec f True a s"

text \<open>The types of a node, in the order of \<open>visitAstTypes\<close>, and the visitor; a null type fails.\<close>

definition var_type :: "(addr \<times> variable) list \<Rightarrow> addr \<Rightarrow> ty result" where
  "var_type vs v = (case map_of vs v of Some x \<Rightarrow> Inr (v_type x) | None \<Rightarrow> Inl NullDeref)"

definition visitAstTypes ::
    "(addr \<times> variable) list \<Rightarrow> (ty \<Rightarrow> 's \<Rightarrow> 's result) \<Rightarrow> ast \<Rightarrow> 's \<Rightarrow> 's result" where
  "visitAstTypes vs f a s =
     bindR (case astType a of Some t \<Rightarrow> f t s | None \<Rightarrow> Inr s) (\<lambda>s1.
       case ast_node a of
         Ident nm tas tgs res \<Rightarrow> foldS f tas s1
       | For v i e b \<Rightarrow>
           bindR (bindR (var_type vs v) (\<lambda>t. f t s1)) (\<lambda>s2.
             case i of Some j \<Rightarrow> bindR (var_type vs j) (\<lambda>t. f t s2) | None \<Rightarrow> Inr s2)
       | FnDecl v tas as att b p m \<Rightarrow> bindR (var_type vs v) (\<lambda>t. f t s1)
       | VarDecl v e \<Rightarrow> bindR (var_type vs v) (\<lambda>t. f t s1)
       | TyDecl nm ad d \<Rightarrow> foldS (\<lambda>c. f (sf_type c)) (sd_fields d) s1
       | _ \<Rightarrow> Inr s1)"

fun visitType :: "(ty \<Rightarrow> 's \<Rightarrow> 's result) \<Rightarrow> ty \<Rightarrow> 's \<Rightarrow> 's result" where
  "visitType f t s =
     bindR (f t s) (\<lambda>s1.
       case t of
         TyTuple fs \<Rightarrow> foldS (visitType f) fs s1
       | TyArray e \<Rightarrow> visitType f e s1
       | TyPointer e \<Rightarrow> visitType f e s1
       | TyFunction as r v \<Rightarrow> bindR (foldS (visitType f) as s1) (visitType f r)
       | TyInstance i nm loc as df gen \<Rightarrow> foldS (visitType f) as s1
       | _ \<Rightarrow> Inr s1)"

declare visitType.simps [simp del]

text \<open>What holds of every call of the callback holds of the visitor.\<close>

lemma visitType_rel:
  assumes "reflp R" "transp R" "\<And>t s s'. f t s = Inr s' \<Longrightarrow> R s s'"
  shows "visitType f t s = Inr s' \<Longrightarrow> R s s'"
proof (induction t arbitrary: s s')
  case (TyFunction as r v)
  then obtain s1 s2 where s: "f (TyFunction as r v) s = Inr s1" "foldS (visitType f) as s1 = Inr s2"
    "visitType f r s2 = Inr s'"
    by (subst (asm) visitType.simps) (auto simp: bindR_eq_Inr)
  have "R s1 s2" by (rule foldS_rel [OF assms(1,2) _ s(2)]) (rule TyFunction.IH)
  with assms(3) [OF s(1)] TyFunction.IH(2) [OF s(3)] assms(2) show ?case by (blast dest: transpD)
next
  case (TyTuple fs)
  then obtain s1 where s: "f (TyTuple fs) s = Inr s1" "foldS (visitType f) fs s1 = Inr s'"
    by (subst (asm) visitType.simps) (auto simp: bindR_eq_Inr)
  have "R s1 s'" by (rule foldS_rel [OF assms(1,2) _ s(2)]) (rule TyTuple.IH)
  with assms(3) [OF s(1)] assms(2) show ?case by (blast dest: transpD)
next
  case (TyInstance i nm loc as df gen)
  then obtain s1 where s: "f (TyInstance i nm loc as df gen) s = Inr s1" "foldS (visitType f) as s1 = Inr s'"
    by (subst (asm) visitType.simps) (auto simp: bindR_eq_Inr)
  have "R s1 s'" by (rule foldS_rel [OF assms(1,2) _ s(2)]) (rule TyInstance.IH)
  with assms(3) [OF s(1)] assms(2) show ?case by (blast dest: transpD)
next
  case (TyArray e)
  then obtain s1 where s: "f (TyArray e) s = Inr s1" "visitType f e s1 = Inr s'"
    by (subst (asm) visitType.simps) (auto simp: bindR_eq_Inr)
  with assms(3) [OF s(1)] TyArray.IH [OF s(2)] assms(2) show ?case by (blast dest: transpD)
next
  case (TyPointer e)
  then obtain s1 where s: "f (TyPointer e) s = Inr s1" "visitType f e s1 = Inr s'"
    by (subst (asm) visitType.simps) (auto simp: bindR_eq_Inr)
  with assms(3) [OF s(1)] TyPointer.IH [OF s(2)] assms(2) show ?case by (blast dest: transpD)
qed (subst (asm) visitType.simps, auto simp: bindR_eq_Inr dest: assms(3))+

lemma visitAstTypes_rel:
  assumes "reflp R" "transp R" "\<And>t s s'. f t s = Inr s' \<Longrightarrow> R s s'"
    "visitAstTypes vs f a s = Inr s'"
  shows "R s s'"
proof -
  have fold: "R s1 s2" if "foldS (\<lambda>x. f (g x)) xs s1 = Inr s2" for g :: "'b \<Rightarrow> ty" and xs s1 s2
    by (rule foldS_rel [OF assms(1,2) _ that]) (rule assms(3))
  note trans = transpD [OF assms(2)]
  let ?rest = "\<lambda>s1. case ast_node a of
         Ident nm tas tgs res \<Rightarrow> foldS f tas s1
       | For v i e b \<Rightarrow>
           bindR (bindR (var_type vs v) (\<lambda>t. f t s1)) (\<lambda>s2.
             case i of Some j \<Rightarrow> bindR (var_type vs j) (\<lambda>t. f t s2) | None \<Rightarrow> Inr s2)
       | FnDecl v tas as att b p m \<Rightarrow> bindR (var_type vs v) (\<lambda>t. f t s1)
       | VarDecl v e \<Rightarrow> bindR (var_type vs v) (\<lambda>t. f t s1)
       | TyDecl nm ad d \<Rightarrow> foldS (\<lambda>c. f (sf_type c)) (sd_fields d) s1
       | _ \<Rightarrow> Inr s1"
  have rest: "R s1 s'" if r: "?rest s1 = Inr s'" for s1
  proof (cases "ast_node a")
    case (For v i e b)
    with r obtain t s2 where s2: "f t s1 = Inr s2"
      "(case i of Some j \<Rightarrow> bindR (var_type vs j) (\<lambda>t. f t s2) | None \<Rightarrow> Inr s2) = Inr s'"
      by (auto simp: bindR_eq_Inr)
    have "R s2 s'"
      using s2(2) reflpD [OF assms(1)] by (cases i) (auto simp: bindR_eq_Inr intro: assms(3))
    with assms(3) [OF s2(1)] trans show ?thesis by blast
  qed (use r fold [of "\<lambda>t. t"] fold [of sf_type] reflpD [OF assms(1)] in
      \<open>auto simp: bindR_eq_Inr intro: assms(3)\<close>)
  show ?thesis
  proof (cases "astType a")
    case None
    with assms(4) rest [of s] show ?thesis unfolding visitAstTypes_def by simp
  next
    case (Some t)
    with assms(4) obtain s1 where "f t s = Inr s1" "?rest s1 = Inr s'"
      unfolding visitAstTypes_def by (auto simp: bindR_eq_Inr)
    with assms(3) [of t s s1] rest [of s1] trans show ?thesis by blast
  qed
qed

section \<open>The visitors go through every node once\<close>

fun nodes_of :: "ast \<Rightarrow> ast list" where
  "nodes_of a = a # concat (map nodes_of (children (ast_node a)))"

declare nodes_of.simps [simp del]

lemma visitAstRec_pure:
  "visitAstRec (\<lambda>n s. Inr (False, g n s)) False a s = Inr (fold g (nodes_of a) s)"
proof (induction a arbitrary: s rule: nodes_of.induct)
  case (1 a)
  have "foldS (visitAstRec (\<lambda>n s. Inr (False, g n s)) False) cs s =
      Inr (fold g (concat (map nodes_of cs)) s)" if "set cs \<subseteq> set (children (ast_node a))" for cs s
    using that by (induction cs arbitrary: s) (simp_all add: 1)
  from this [OF order_refl] show ?case
    by (simp add: visitAstRec.simps [of _ _ a] nodes_of.simps [of a])
qed

lemma visitAst_pure:
  "visitAst (\<lambda>n s. Inr (False, g n s)) a s = Inr (fold g (nodes_of a) s)"
  by (simp add: visitAst_def visitAstRec_pure)

end
