(* ===== verification/Modules.thy ===== *)
theory Modules
  imports Ast Output
begin

text \<open>
  The order in which modules are compiled: \<open>compiler/modules.cpp\<close>. A module is compiled after the
  modules it imports. The hash map from names to modules is an association list; the code sorts
  its entries by name before it uses their order.
\<close>

definition moduleGatherImportsNode ::
    "(str \<Rightarrow> location \<Rightarrow> 's \<Rightarrow> 's) \<Rightarrow> ast \<Rightarrow> 's \<Rightarrow> (bool \<times> 's) result" where
  "moduleGatherImportsNode f root s =
     (case ast_node root of
        Module nm b autoimports \<Rightarrow> Inr (False, fold (\<lambda>i. f i (astLocation root)) autoimports s)
      | Import nm \<Rightarrow> Inr (False, f nm (astLocation root) s)
      | _ \<Rightarrow> Inr (False, s))"

definition moduleGatherImports :: "(str \<Rightarrow> location \<Rightarrow> 's \<Rightarrow> 's) \<Rightarrow> ast \<Rightarrow> 's \<Rightarrow> 's result" where
  "moduleGatherImports f root s = visitAst (moduleGatherImportsNode f) root s"

record module_data =
  md_name :: str
  md_index :: nat
  md_imports :: "(str \<times> location) list"

text \<open>
  The search for a cycle. The set \<open>visited\<close> is passed by reference in the code, which erases the
  name again when it finds nothing below it, so a call leaves the set as it was unless it found an
  import, and then no caller looks at it. The fuel is the depth of the call stack.
\<close>

fun findCircularDependencyRec ::
    "nat \<Rightarrow> (str \<times> module_data) list \<Rightarrow> str \<times> location \<Rightarrow> str list \<Rightarrow> (str \<times> location) result"
  and findCircularDependencyList ::
    "nat \<Rightarrow> (str \<times> module_data) list \<Rightarrow> (str \<times> location) list \<Rightarrow> str list \<Rightarrow> (str \<times> location) result"
where
  "findCircularDependencyRec 0 modules import visited = Inl NoFuel"
| "findCircularDependencyRec (Suc k) modules import visited =
     (if fst import \<in> set visited then Inr import
      else case map_of modules (fst import) of
        None \<Rightarrow> Inl AssertFail
      | Some m \<Rightarrow> findCircularDependencyList k modules (md_imports m) (fst import # visited))"
| "findCircularDependencyList k modules [] visited = Inr ([], Location0)"
| "findCircularDependencyList k modules (i # is) visited =
     bindR (findCircularDependencyRec k modules i visited) (\<lambda>im.
       if fst im \<noteq> [] then Inr im else findCircularDependencyList k modules is visited)"

definition findCircularDependency ::
    "str \<times> location \<Rightarrow> (str \<times> module_data) list \<Rightarrow> (str \<times> location) result" where
  "findCircularDependency import modules =
     findCircularDependencyRec (length modules + 2) modules import []"

definition moduleIsReady :: "module_data \<Rightarrow> str list \<Rightarrow> bool" where
  "moduleIsReady m visited = list_all (\<lambda>i. fst i \<in> set visited) (md_imports m)"

text \<open>One pass over the pending modules: the indices it emits, what stays pending, the new set.\<close>

fun sort_pass :: "module_data list \<Rightarrow> str list \<Rightarrow> nat list \<times> module_data list \<times> str list" where
  "sort_pass [] visited = ([], [], visited)"
| "sort_pass (m # ms) visited =
     (if moduleIsReady m visited then
        let (r, p, v) = sort_pass ms (md_name m # visited) in (md_index m # r, p, v)
      else let (r, p, v) = sort_pass ms visited in (r, m # p, v))"

definition msg_circular :: "str \<Rightarrow> str" where
  "msg_circular name =
     ''Circular dependency detected: module '' @ name @ '' transitively imports itself''"

fun moduleSort_loop ::
    "nat \<Rightarrow> (str \<times> module_data) list \<Rightarrow> outp \<Rightarrow> nat list \<Rightarrow> module_data list \<Rightarrow> str list \<Rightarrow>
      (nat list \<times> outp) result" where
  "moduleSort_loop k modules out res [] visited = Inr (res, out)"
| "moduleSort_loop 0 modules out res (m # ms) visited = Inl NoFuel"
| "moduleSort_loop (Suc k) modules out res (m # ms) visited =
     (let (r, p, v) = sort_pass (m # ms) visited
      in if length p = length (m # ms) then
           bindR (findCircularDependency (md_name (hd p), Location0) modules) (\<lambda>import.
           bindR (assertR (fst import \<noteq> [])) (\<lambda>_.
           bindR (error_at out (snd import) (msg_circular (fst import))) (\<lambda>out'.
             moduleSort_loop k modules out' (res @ r) p (fst import # v))))
         else moduleSort_loop k modules out (res @ r) p v)"

definition moduleSort_map ::
    "nat \<Rightarrow> outp \<Rightarrow> (str \<times> module_data) list \<Rightarrow> (nat list \<times> outp) result" where
  "moduleSort_map k out modules =
     moduleSort_loop k modules out [] (sort_key md_name (map snd modules)) []"

definition msg_duplicate :: "str \<Rightarrow> str" where
  "msg_duplicate name = ''Duplicate module name '' @ name"

fun moduleSort_build ::
    "nat \<Rightarrow> ast list \<Rightarrow> outp \<Rightarrow> (str \<times> module_data) list \<Rightarrow> ((str \<times> module_data) list \<times> outp) result"
where
  "moduleSort_build i [] out mm = Inr (mm, out)"
| "moduleSort_build i (root # roots) out mm =
     (case ast_node root of
        Module nm b autoimports \<Rightarrow>
          if map_of mm nm \<noteq> None then
            bindR (error_at out (astLocation root) (msg_duplicate nm)) (\<lambda>out'.
              moduleSort_build (i + 1) roots out' mm)
          else
            bindR (moduleGatherImports (\<lambda>n l is. is @ [(n, l)]) root []) (\<lambda>imports.
              moduleSort_build (i + 1) roots out
                (mm @ [(nm, \<lparr>md_name = nm, md_index = i, md_imports = imports\<rparr>)]))
      | _ \<Rightarrow> Inl AssertFail)"

definition moduleSort :: "nat \<Rightarrow> outp \<Rightarrow> ast list \<Rightarrow> (nat list \<times> outp) result" where
  "moduleSort k out roots =
     bindR (moduleSort_build 0 roots out []) (\<lambda>(mm, out'). moduleSort_map k out' mm)"

end
