(* ===== verification/ModulesCorrect.thy ===== *)
theory ModulesCorrect
  imports Modules "HOL-Library.Multiset"
begin

text \<open>
  The compilation order is a topological order of the imports when they are acyclic, and every
  module is in it once; with two cycles the sort may not end.
\<close>

section \<open>The imports of a module\<close>

fun node_imports :: "ast \<Rightarrow> (str \<times> location) list" where
  "node_imports (Node t l (Module nm b ai)) = map (\<lambda>i. (i, l)) ai"
| "node_imports (Node t l (Import nm)) = [(nm, l)]"
| "node_imports _ = []"

definition imports_of :: "ast \<Rightarrow> (str \<times> location) list" where
  "imports_of root = concat (map node_imports (nodes_of root))"

lemma fold_app: "fold (\<lambda>i s. s @ [(i, l)]) ai s = s @ map (\<lambda>i. (i, l)) ai"
  by (induction ai arbitrary: s) simp_all

lemma fold_append: "fold (\<lambda>n s. s @ g n) ns s = s @ concat (map g ns)"
  by (induction ns arbitrary: s) simp_all

lemma moduleGatherImportsNode_eq:
  "moduleGatherImportsNode (\<lambda>n l is. is @ [(n, l)]) a s = Inr (False, s @ node_imports a)"
  by (cases a; cases "ast_node a") (simp_all add: moduleGatherImportsNode_def fold_app)

lemma moduleGatherImports_eq:
  "moduleGatherImports (\<lambda>n l is. is @ [(n, l)]) root s = Inr (s @ imports_of root)"
  by (simp add: moduleGatherImports_def moduleGatherImportsNode_eq [abs_def] visitAst_pure
      fold_append imports_of_def)

section \<open>The search\<close>

text \<open>The search ends, and it succeeds when every import is in the map.\<close>

definition imports_closed :: "(str \<times> module_data) list \<Rightarrow> bool" where
  "imports_closed mm = (\<forall>(x, m) \<in> set mm. fst ` set (md_imports m) \<subseteq> fst ` set mm)"

lemma findCircularDependency_ends:
  "fst im \<in> fst ` set mm \<Longrightarrow> imports_closed mm \<Longrightarrow> card (fst ` set mm - set vis) < k \<Longrightarrow>
     isRight (findCircularDependencyRec k mm im vis)"
  "fst ` set ims \<subseteq> fst ` set mm \<Longrightarrow> imports_closed mm \<Longrightarrow> card (fst ` set mm - set vis) < k \<Longrightarrow>
     isRight (findCircularDependencyList k mm ims vis)"
proof (induction k mm im vis and k mm ims vis
    rule: findCircularDependencyRec_findCircularDependencyList.induct)
  case (2 k mm im vis)
  show ?case
  proof (cases "fst im \<in> set vis")
    case False
    from "2.prems"(1) obtain m where m: "map_of mm (fst im) = Some m"
      by (metis not_None_eq map_of_eq_None_iff)
    with "2.prems"(2) have "fst ` set (md_imports m) \<subseteq> fst ` set mm"
      unfolding imports_closed_def by (blast dest: map_of_SomeD)
    moreover have sub: "fst ` set mm - set (fst im # vis) \<subset> fst ` set mm - set vis"
      using "2.prems"(1) False by auto
    have "card (fst ` set mm - set (fst im # vis)) < card (fst ` set mm - set vis)"
      by (rule psubset_card_mono [OF _ sub]) simp
    with "2.prems"(3) have "card (fst ` set mm - set (fst im # vis)) < k" by linarith
    ultimately have "isRight (findCircularDependencyList k mm (md_imports m) (fst im # vis))"
      using "2.IH" [OF False m] "2.prems"(2) by blast
    with False m show ?thesis by simp
  qed simp
next
  case (4 k mm im ims vis)
  then obtain r where r: "findCircularDependencyRec k mm im vis = Inr r" by (auto elim: isRightE)
  from 4 have "isRight (findCircularDependencyList k mm ims vis)" if "fst r = []"
    using that r by auto
  with r show ?case by simp
qed simp_all

section \<open>The loop\<close>

abbreviation import_names :: "module_data \<Rightarrow> str set" where
  "import_names m \<equiv> fst ` set (md_imports m)"

text \<open>Each module of the list finds its imports in \<open>V\<close> and the modules before it.\<close>

fun ordered :: "str set \<Rightarrow> module_data list \<Rightarrow> bool" where
  "ordered V [] = True"
| "ordered V (m # ms) = (import_names m \<subseteq> V \<and> ordered (insert (md_name m) V) ms)"

lemma ordered_append: "ordered V (xs @ ys) \<longleftrightarrow> ordered V xs \<and> ordered (md_name ` set xs \<union> V) ys"
  by (induction xs arbitrary: V) simp_all

lemma ordered_nth: "ordered V ms \<Longrightarrow> j < length ms \<Longrightarrow>
  import_names (ms ! j) \<subseteq> md_name ` set (take j ms) \<union> V"
proof (induction ms arbitrary: V j)
  case (Cons m ms)
  then show ?case
  proof (cases j)
    case (Suc i)
    with Cons.prems Cons.IH [of "insert (md_name m) V" i] show ?thesis by auto
  qed auto
qed simp

lemma moduleIsReady_iff: "moduleIsReady m vis \<longleftrightarrow> import_names m \<subseteq> set vis"
  by (auto simp: moduleIsReady_def list_all_iff)

lemma sort_pass_step:
  "sort_pass ms vis = (r, p, v) \<Longrightarrow> \<exists>dn. r = map md_index dn \<and> mset ms = mset dn + mset p \<and>
     set v = md_name ` set dn \<union> set vis \<and> ordered (set vis) dn"
proof (induction ms arbitrary: vis r p v)
  case (Cons m ms)
  show ?case
  proof (cases "moduleIsReady m vis")
    case True
    with Cons.prems obtain r1 where s: "sort_pass ms (md_name m # vis) = (r1, p, v)" "r = md_index m # r1"
      by (auto split: prod.splits)
    from Cons.IH [OF s(1)] obtain dn where "r1 = map md_index dn" "mset ms = mset dn + mset p"
      "set v = md_name ` set dn \<union> set (md_name m # vis)" "ordered (set (md_name m # vis)) dn"
      by blast
    with True s(2) show ?thesis by (intro exI [of _ "m # dn"]) (auto simp: moduleIsReady_iff)
  next
    case False
    with Cons.prems obtain p1 where s: "sort_pass ms vis = (r, p1, v)" "p = m # p1"
      by (auto split: prod.splits)
    from Cons.IH [OF s(1)] s(2) show ?thesis by auto
  qed
qed simp

lemma sort_pass_progress:
  "sort_pass ms vis = (r, p, v) \<Longrightarrow> \<exists>m \<in> set ms. moduleIsReady m vis \<Longrightarrow> length p < length ms"
proof (induction ms arbitrary: vis r p v)
  case (Cons m ms)
  show ?case
  proof (cases "moduleIsReady m vis")
    case True
    with Cons.prems obtain r1 where s: "sort_pass ms (md_name m # vis) = (r1, p, v)"
      by (auto split: prod.splits)
    from sort_pass_step [OF this] have "length p \<le> length ms"
      by (metis le_add2 size_mset size_union)
    then show ?thesis by simp
  next
    case False
    with Cons.prems obtain p1 where "sort_pass ms vis = (r, p1, v)" "p = m # p1"
      by (auto split: prod.splits)
    with Cons False show ?thesis by auto
  qed
qed simp

lemma moduleSort_loop_acyclic:
  assumes "length ms \<le> k" "\<forall>m \<in> set ms. import_names m \<subseteq> md_name ` set ms \<union> set vis"
    "\<forall>m \<in> set ms. \<forall>i \<in> import_names m. rk i < (rk (md_name m) :: nat)"
  shows "\<exists>dn. moduleSort_loop k mm out res ms vis = Inr (res @ map md_index dn, out) \<and>
     mset dn = mset ms \<and> ordered (set vis) dn"
  using assms
proof (induction k arbitrary: res ms vis)
  case (Suc k)
  show ?case
  proof (cases ms)
    case (Cons a as)
    obtain r p v where s: "sort_pass ms vis = (r, p, v)" by (metis prod_cases3)
    from sort_pass_step [OF s] obtain d where d: "r = map md_index d" "mset ms = mset d + mset p"
      "set v = md_name ` set d \<union> set vis" "ordered (set vis) d" by blast
    from d(2) have set: "set ms = set d \<union> set p" by (metis set_mset_mset set_mset_union)
    obtain m where m: "m \<in> set ms" "\<forall>m' \<in> set ms. rk (md_name m) \<le> rk (md_name m')"
      using arg_min_if_finite [of "set ms" "rk \<circ> md_name"] Cons by (metis arg_min_least comp_apply
          finite_set list.set_intros(1) empty_iff)
    have "i \<notin> md_name ` set ms" if "i \<in> import_names m" for i
    proof
      assume "i \<in> md_name ` set ms"
      then obtain m' where "m' \<in> set ms" "i = md_name m'" by blast
      with m(2) Suc.prems(3) m(1) that show False by (metis not_less)
    qed
    with Suc.prems(2) m(1) have "moduleIsReady m vis" unfolding moduleIsReady_iff by blast
    with sort_pass_progress [OF s] m have len: "length p < length ms" by blast
    have "\<forall>m \<in> set p. import_names m \<subseteq> md_name ` set p \<union> set v"
      using Suc.prems(2) unfolding set d(3) image_Un by blast
    moreover have "\<forall>m \<in> set p. \<forall>i \<in> import_names m. rk i < rk (md_name m)"
      using Suc.prems(3) set by blast
    moreover have "length p \<le> k" using len Suc.prems(1) by simp
    ultimately obtain dn where
      "moduleSort_loop k mm out (res @ r) p v = Inr ((res @ r) @ map md_index dn, out)"
      "mset dn = mset p" "ordered (set v) dn"
      using Suc.IH [of p v "res @ r"] by blast
    with s d len Cons show ?thesis by (intro exI [of _ "d @ dn"]) (simp add: ordered_append)
  qed simp
qed simp

lemma moduleSort_loop_sound:
  "moduleSort_loop k mm out res ms vis = Inr (res', out') \<Longrightarrow>
   \<exists>dn. res' = res @ map md_index dn \<and> mset dn = mset ms \<and> errors out \<le> errors out' \<and>
     (errors out' = errors out \<longrightarrow> ordered (set vis) dn)"
proof (induction k arbitrary: out res ms vis)
  case 0
  then show ?case by (cases ms) auto
next
  case (Suc k)
  show ?case
  proof (cases ms)
    case (Cons a as)
    obtain r p v where s: "sort_pass ms vis = (r, p, v)" by (metis prod_cases3)
    from sort_pass_step [OF s] obtain d where d: "r = map md_index d" "mset ms = mset d + mset p"
      "set v = md_name ` set d \<union> set vis" "ordered (set vis) d" by blast
    show ?thesis
    proof (cases "length p = length ms")
      case True
      with Suc.prems s Cons obtain im out1 where
        e: "error_at out (snd im) (msg_circular (fst im)) = Inr out1" and
        l: "moduleSort_loop k mm out1 (res @ r) p (fst im # v) = Inr (res', out')"
        by (auto simp: result_simps)
      from Suc.IH [OF l] error_at_counts [OF e] obtain dn where
        "res' = (res @ r) @ map md_index dn" "mset dn = mset p" "errors out < errors out'"
        by auto
      with d show ?thesis by (intro exI [of _ "d @ dn"]) simp
    next
      case False
      with Suc.prems s Cons have l: "moduleSort_loop k mm out (res @ r) p v = Inr (res', out')" by auto
      from Suc.IH [OF l] obtain dn where
        "res' = (res @ r) @ map md_index dn" "mset dn = mset p" "errors out \<le> errors out'"
        "errors out' = errors out \<longrightarrow> ordered (set v) dn" by blast
      with d show ?thesis by (intro exI [of _ "d @ dn"]) (simp add: ordered_append)
    qed
  qed (use Suc.prems in simp)
qed

section \<open>The map of modules\<close>

fun is_Module :: "ast \<Rightarrow> bool" where
  "is_Module (Node t l (Module nm b ai)) = True"
| "is_Module _ = False"

fun moduleName :: "ast \<Rightarrow> str" where
  "moduleName (Node t l (Module nm b ai)) = nm"
| "moduleName _ = []"

definition data_of :: "nat \<Rightarrow> ast \<Rightarrow> module_data" where
  "data_of i root = \<lparr>md_name = moduleName root, md_index = i, md_imports = imports_of root\<rparr>"

definition entries :: "nat \<Rightarrow> ast list \<Rightarrow> (str \<times> module_data) list" where
  "entries i roots = map (\<lambda>(j, root). (moduleName root, data_of j root)) (enumerate i roots)"

lemma moduleSort_build_eq:
  "\<forall>root \<in> set roots. is_Module root \<Longrightarrow> distinct (map moduleName roots) \<Longrightarrow>
   fst ` set mm \<inter> moduleName ` set roots = {} \<Longrightarrow>
   moduleSort_build i roots out mm = Inr (mm @ entries i roots, out)"
proof (induction roots arbitrary: i mm)
  case (Cons root roots)
  from Cons.prems(1) obtain t l nm b ai where root: "root = Node t l (Module nm b ai)"
    by (auto elim!: is_Module.elims)
  have "map_of mm nm = None" using Cons.prems(3) root by (auto simp: map_of_eq_None_iff)
  moreover have "fst ` set (mm @ [(nm, data_of i root)]) \<inter> moduleName ` set roots = {}"
    using Cons.prems(2,3) root by auto
  with Cons.IH [of "mm @ [(nm, data_of i root)]" "i + 1"] Cons.prems(1,2)
  have "moduleSort_build (i + 1) roots out (mm @ [(nm, data_of i root)]) =
    Inr (mm @ (nm, data_of i root) # entries (i + 1) roots, out)" by simp
  ultimately show ?case using root by (simp add: moduleGatherImports_eq data_of_def entries_def)
qed (simp add: entries_def)

lemma entries_nth: "m \<in> set (map snd (entries 0 roots)) \<Longrightarrow>
  md_index m < length roots \<and> m = data_of (md_index m) (roots ! md_index m)"
  by (auto simp: entries_def in_set_enumerate_eq data_of_def)

lemma data_of_sel: "m = data_of i root \<Longrightarrow>
  md_name m = moduleName root \<and> import_names m = fst ` set (imports_of root)"
  by (simp add: data_of_def)

lemma entries_index: "map (md_index \<circ> snd) (entries i roots) = [i..<i + length roots]"
  by (simp add: entries_def data_of_def o_def case_prod_unfold flip: map_fst_enumerate)

lemma entries_names: "md_name ` set (map snd (entries i roots)) = moduleName ` set roots"
proof -
  have "map (md_name \<circ> snd) (entries i roots) = map (moduleName \<circ> snd) (enumerate i roots)"
    by (simp add: entries_def data_of_def o_def case_prod_unfold)
  also have "\<dots> = map moduleName roots" by (metis map_map map_snd_enumerate)
  finally show ?thesis by (metis (no_types) image_set map_map)
qed

text \<open>Every module of the order finds its imports among the modules before it.\<close>

definition topological :: "ast list \<Rightarrow> nat list \<Rightarrow> bool" where
  "topological roots order = (\<forall>j < length order.
     fst ` set (imports_of (roots ! (order ! j))) \<subseteq> moduleName ` (!) roots ` set (take j order))"

lemma topological_ordered:
  assumes "mset dn = mset (map snd (entries 0 roots))" "ordered {} dn"
  shows "topological roots (map md_index dn)"
  unfolding topological_def
proof (intro allI impI)
  fix j assume j: "j < length (map md_index dn)"
  have mem: "m = data_of (md_index m) (roots ! md_index m)" if "m \<in> set dn" for m
    using that entries_nth mset_eq_setD [OF assms(1)] by blast
  have "import_names (dn ! j) = fst ` set (imports_of (roots ! (map md_index dn ! j)))"
    using j data_of_sel [OF mem [of "dn ! j"]] by simp
  moreover have "import_names (dn ! j) \<subseteq> md_name ` set (take j dn)"
    using ordered_nth [OF assms(2)] j by simp
  moreover have "md_name m = moduleName (roots ! md_index m)" if "m \<in> set (take j dn)" for m
    using data_of_sel [OF mem [OF in_set_takeD [OF that]]] by blast
  then have "md_name ` set (take j dn) = moduleName ` (!) roots ` set (take j (map md_index dn))"
    by (simp add: take_map image_image cong: image_cong_simp)
  ultimately show "fst ` set (imports_of (roots ! (map md_index dn ! j))) \<subseteq>
      moduleName ` (!) roots ` set (take j (map md_index dn))" by simp
qed

lemma mset_indices:
  "mset dn = mset (map snd (entries 0 roots)) \<Longrightarrow> mset (map md_index dn) = mset [0..<length roots]"
  using entries_index [of 0 roots] by (metis add_0 map_map mset_map)

text \<open>Two modules for the witnesses: \<open>main\<close>, given first, imports \<open>lib\<close>.\<close>

definition demo_modules :: "ast list" where
  "demo_modules =
     [Node None Location0 (Module ''main'' (Node None Location0 (Block
        [Node None Location0 (Import ''lib'')])) []),
      Node None Location0 (Module ''lib'' (Node None Location0 (Block [])) [])]"

section \<open>Properties\<close>

text \<open>
  C10: When every import names one of the modules and the imports are acyclic (a rank falls from a
  module to what it imports), sorting returns after at most one pass per module, reports nothing,
  and orders the modules, each of them once, so that a module comes after everything it imports.
\<close>

theorem moduleSort_acyclic:
  assumes "\<forall>root \<in> set roots. is_Module root" "distinct (map moduleName roots)"
    "\<forall>root \<in> set roots. fst ` set (imports_of root) \<subseteq> moduleName ` set roots"
    "\<forall>root \<in> set roots. \<forall>i \<in> fst ` set (imports_of root). rk i < (rk (moduleName root) :: nat)"
    "length roots \<le> k"
  shows "\<exists>order. moduleSort k out roots = Inr (order, out) \<and>
    mset order = mset [0..<length roots] \<and> topological roots order"
proof -
  let ?ms = "sort_key md_name (map snd (entries 0 roots))"
  have mem: "\<exists>root \<in> set roots. import_names m = fst ` set (imports_of root) \<and>
      md_name m = moduleName root" if "m \<in> set ?ms" for m
  proof -
    have i: "md_index m < length roots" "m = data_of (md_index m) (roots ! md_index m)"
      using entries_nth [of m roots] that by simp_all
    from data_of_sel [OF i(2)] i(1) show ?thesis by (metis nth_mem)
  qed
  have names: "md_name ` set ?ms = moduleName ` set roots" using entries_names [of 0] by simp
  have "length ?ms \<le> k" using assms(5) by (simp add: entries_def)
  moreover have "\<forall>m \<in> set ?ms. import_names m \<subseteq> md_name ` set ?ms \<union> set []"
  proof
    fix m assume "m \<in> set ?ms"
    from mem [OF this] obtain root where r: "root \<in> set roots"
      "import_names m = fst ` set (imports_of root)" by blast
    show "import_names m \<subseteq> md_name ` set ?ms \<union> set []"
      unfolding names r(2) using assms(3) r(1) by blast
  qed
  moreover have "\<forall>m \<in> set ?ms. \<forall>i \<in> import_names m. rk i < rk (md_name m)"
  proof
    fix m assume "m \<in> set ?ms"
    from mem [OF this] obtain root where r: "root \<in> set roots"
      "import_names m = fst ` set (imports_of root)" "md_name m = moduleName root" by blast
    show "\<forall>i \<in> import_names m. rk i < rk (md_name m)"
      unfolding r(2,3) using assms(4) r(1) by blast
  qed
  ultimately obtain dn where
    "moduleSort_loop k (entries 0 roots) out [] ?ms [] = Inr ([] @ map md_index dn, out)"
    "mset dn = mset ?ms" "ordered (set []) dn"
    using moduleSort_loop_acyclic [where ms = ?ms and k = k and vis = "[]" and rk = rk and
        mm = "entries 0 roots" and out = out and res = "[]"] by metis
  moreover have "moduleSort k out roots = moduleSort_map k out (entries 0 roots)"
    using moduleSort_build_eq [OF assms(1,2), of "[]" 0 out] by (simp add: moduleSort_def)
  ultimately show ?thesis
    using topological_ordered [of dn roots] mset_indices [of dn roots]
    by (simp add: moduleSort_map_def)
qed

lemma moduleSort_acyclic_witness:
  "\<exists>order. moduleSort 2 Output0 demo_modules = Inr (order, Output0) \<and>
     mset order = mset [0..<length demo_modules] \<and> topological demo_modules order"
proof (rule moduleSort_acyclic [where rk = "\<lambda>nm. if nm = ''main'' then 1 else 0"])
  show "\<forall>root \<in> set demo_modules. is_Module root" by code_simp
  show "distinct (map moduleName demo_modules)" by code_simp
  show "\<forall>root \<in> set demo_modules. fst ` set (imports_of root) \<subseteq> moduleName ` set demo_modules"
    by code_simp
  show "\<forall>root \<in> set demo_modules. \<forall>i \<in> fst ` set (imports_of root).
      (if i = ''main'' then 1 else 0) < (if moduleName root = ''main'' then 1 else 0 :: nat)"
    by code_simp
  show "length demo_modules \<le> 2" by code_simp
qed

text \<open>
  C11: Whatever the imports are: if sorting returns, each module is in the order exactly once, and if
  no circular dependency was reported, each comes after everything it imports.
\<close>

theorem moduleSort_sound:
  assumes "\<forall>root \<in> set roots. is_Module root" "distinct (map moduleName roots)"
    "moduleSort k out roots = Inr (order, out')"
  shows "mset order = mset [0..<length roots] \<and> errors out \<le> errors out' \<and>
    (errors out' = errors out \<longrightarrow> topological roots order)"
proof -
  have "moduleSort_map k out (entries 0 roots) = Inr (order, out')"
    using assms(3) moduleSort_build_eq [OF assms(1,2), of "[]" 0 out] by (simp add: moduleSort_def)
  from moduleSort_loop_sound [OF this [unfolded moduleSort_map_def]] show ?thesis
    using topological_ordered [of _ roots] mset_indices [of _ roots] by auto
qed

lemma moduleSort_sound_witness:
  "mset [1, 0::nat] = mset [0..<length demo_modules] \<and> topological demo_modules [1, 0]"
proof -
  have m: "\<forall>root \<in> set demo_modules. is_Module root" "distinct (map moduleName demo_modules)"
    by (simp_all add: demo_modules_def)
  have "moduleSort 4 Output0 demo_modules = Inr ([1, 0], Output0)" by code_simp
  from moduleSort_sound [OF m this] show ?thesis by simp
qed

text \<open>
  Four modules, sorted by name: \<open>P\<close> imports \<open>X\<close> and \<open>Q\<close>, \<open>Q\<close> imports \<open>P\<close>, and \<open>X\<close> and \<open>Y\<close> import
  each other. The search for a cycle starts at the first pending module and does not know which
  cycles were already broken.
\<close>

definition two_cycles :: "(str \<times> module_data) list" where
  "two_cycles =
     [(''P'', \<lparr>md_name = ''P'', md_index = 0, md_imports = [(''X'', Location0), (''Q'', Location0)]\<rparr>),
      (''Q'', \<lparr>md_name = ''Q'', md_index = 1, md_imports = [(''P'', Location0)]\<rparr>),
      (''X'', \<lparr>md_name = ''X'', md_index = 2, md_imports = [(''Y'', Location0)]\<rparr>),
      (''Y'', \<lparr>md_name = ''Y'', md_index = 3, md_imports = [(''X'', Location0)]\<rparr>)]"

definition two_cycles_asts :: "ast list" where
  "two_cycles_asts = map (\<lambda>(nm, is). Node None Location0 (Module nm (Node None Location0
     (Block (map (\<lambda>i. Node None Location0 (Import i)) is))) []))
     [(''P'', [''X'', ''Q'']), (''Q'', [''P'']), (''X'', [''Y'']), (''Y'', [''X''])]"

lemma two_cycles_search: "findCircularDependency (''P'', Location0) two_cycles = Inr (''X'', Location0)"
  by code_simp

lemma two_cycles_stuck:
  assumes "sources out = []" "{''X'', ''Y''} \<subseteq> set vis" "''P'' \<notin> set vis" "''Q'' \<notin> set vis"
  shows "moduleSort_loop k two_cycles out res
    [snd (two_cycles ! 0), snd (two_cycles ! 1)] vis = Inl NoFuel"
  using assms
proof (induction k arbitrary: out vis)
  case (Suc k)
  let ?ms = "[snd (two_cycles ! 0), snd (two_cycles ! 1)]"
  have "sort_pass ?ms vis = ([], ?ms, vis)"
    using Suc.prems by (simp add: two_cycles_def moduleIsReady_def)
  moreover have "md_name (hd ?ms) = ''P''" by (simp add: two_cycles_def)
  moreover obtain out' where "error_at out Location0 (msg_circular ''X'') = Inr out'" "sources out' = []"
    using Suc.prems(1) by (simp add: error_at_def print_at_def Let_def)
  ultimately show ?case
    using Suc.IH [of out' "''X'' # vis"] Suc.prems two_cycles_search by simp
qed simp

text \<open>
  Sorting need not end. Of two cycles of which one is reachable from the other, the one that
  is reachable is found, reported and broken again in every round, while the other keeps its
  modules pending: no number of rounds is enough, and every round reports the error once more.
\<close>

theorem moduleSort_diverges: "moduleSort k Output0 two_cycles_asts = Inl NoFuel"
proof -
  have b: "moduleSort_build 0 two_cycles_asts Output0 [] = Inr (two_cycles, Output0)" by code_simp
  have s: "sort_key md_name (map snd two_cycles) = map snd two_cycles" by code_simp
  let ?m = "\<lambda>i. snd (two_cycles ! i)"
  have p1: "sort_pass (map snd two_cycles) [] = ([], map snd two_cycles, [])" by code_simp
  have p2: "sort_pass (map snd two_cycles) [''X''] = ([3], [?m 0, ?m 1, ?m 2], [''Y'', ''X''])"
    by code_simp
  have p3: "sort_pass [?m 0, ?m 1, ?m 2] [''Y'', ''X''] = ([2], [?m 0, ?m 1], [''X'', ''Y'', ''X''])"
    by code_simp
  have ms: "map snd two_cycles = ?m 0 # [?m 1, ?m 2, ?m 3]" by (simp add: two_cycles_def)
  obtain out1 where e: "error_at Output0 Location0 (msg_circular ''X'') = Inr out1" "sources out1 = []"
    by (simp add: error_at_def print_at_def Let_def Output0_def)
  have n: "md_name (?m 0) = ''P''" by (simp add: two_cycles_def)
  have "moduleSort_loop k two_cycles Output0 [] (map snd two_cycles) [] = Inl NoFuel"
  proof (cases "k < 3")
    case True
    then consider "k = 0" | "k = Suc 0" | "k = Suc (Suc 0)" by linarith
    then show ?thesis
      using p1 p2 e n two_cycles_search unfolding ms by cases (simp_all del: sort_pass.simps)
  next
    case False
    then have k: "k = Suc (Suc (Suc (k - 3)))" by linarith
    let ?j = "k - 3"
    have "moduleSort_loop ?j two_cycles out1 [3, 2] [?m 0, ?m 1] [''X'', ''Y'', ''X''] = Inl NoFuel"
      using e(2) by (rule two_cycles_stuck) simp_all
    with p1 p2 p3 e n two_cycles_search
    have "moduleSort_loop (Suc (Suc (Suc ?j))) two_cycles Output0 [] (map snd two_cycles) [] = Inl NoFuel"
      unfolding ms by (simp del: sort_pass.simps)
    with k show ?thesis by simp
  qed
  with b s show ?thesis by (simp add: moduleSort_def moduleSort_map_def)
qed

end
