(* ===== verification/Parse.thy ===== *)
theory Parse
  imports Ast Tokenize
begin

unbundle bit_operations_syntax

text \<open>
  The recursive-descent parser, \<open>compiler/parse.cpp\<close>. A parser is a function on the token stream
  that returns its result and the new stream, or the panic. The stream also holds what \<open>new\<close>
  allocates: the next fresh address and the store of variables. Functions that call each other
  recursively take the parsers for nested types and expressions as arguments; \<open>parseType\<close> and
  \<open>parseExpr\<close> tie the knots with a fuel, and loops take one of their own. One unit of fuel per
  token is enough (\<open>parse_enough_fuel\<close> in \<open>ParseCorrect\<close>).
\<close>

section \<open>The token stream\<close>

record token_stream =
  ts_tokens :: tokens_rec
  ts_index :: nat
  ts_next :: addr
  ts_vars :: "(addr \<times> variable) list"

type_synonym 'a parser = "token_stream \<Rightarrow> ('a \<times> token_stream) result"

definition unitP :: "'a \<Rightarrow> 'a parser" where
  "unitP x = (\<lambda>s. Inr (x, s))"

definition bindP :: "'a parser \<Rightarrow> ('a \<Rightarrow> 'b parser) \<Rightarrow> 'b parser" where
  "bindP p f = (\<lambda>s. bindR (p s) (\<lambda>(x, s'). f x s'))"

definition ifP :: "(token_stream \<Rightarrow> bool) \<Rightarrow> 'a parser \<Rightarrow> 'a parser \<Rightarrow> 'a parser" where
  "ifP c p q = (\<lambda>s. if c s then p s else q s)"

definition liftP :: "(token_stream \<Rightarrow> 'a result) \<Rightarrow> 'a parser" where
  "liftP f = (\<lambda>s. bindR (f s) (\<lambda>x. Inr (x, s)))"

definition kEnd :: token where
  "kEnd = \<lparr>t_type = TypeEnd, t_data = [], t_at = 0, t_offset = 0, t_matching = 0,
     t_location = Location0\<rparr>"

definition ts_toks :: "token_stream \<Rightarrow> token list" where
  "ts_toks s = tk_tokens (ts_tokens s)"

definition ts_get :: "token_stream \<Rightarrow> nat \<Rightarrow> token" where
  "ts_get s offset =
     (if ts_index s + offset < length (ts_toks s) then ts_toks s ! (ts_index s + offset) else kEnd)"

text \<open>\<open>get(-1)\<close>: the sum wraps, so at index 0 it is past the end.\<close>

definition ts_get_prev :: "token_stream \<Rightarrow> token" where
  "ts_get_prev s =
     (if 0 < ts_index s \<and> ts_index s - 1 < length (ts_toks s) then ts_toks s ! (ts_index s - 1)
      else kEnd)"

definition ts_is :: "token_type \<Rightarrow> token_stream \<Rightarrow> bool" where
  "ts_is ty s = (t_type (ts_get s 0) = ty)"

definition ts_isd :: "token_type \<Rightarrow> str \<Rightarrow> token_stream \<Rightarrow> bool" where
  "ts_isd ty d s = (t_type (ts_get s 0) = ty \<and> t_data (ts_get s 0) = d)"

definition ts_move :: "unit parser" where
  "ts_move s =
     bindR (assertR (\<not> ts_is TypeEnd s)) (\<lambda>_. Inr ((), s\<lparr>ts_index := ts_index s + 1\<rparr>))"

text \<open>\<open>output->panic(ts.get().location, ...)\<close>\<close>

definition ts_panic :: "str \<Rightarrow> 'a parser" where
  "ts_panic msg = (\<lambda>s. Inl (Panic (t_location (ts_get s 0)) msg))"

definition ts_here :: "location parser" where
  "ts_here = (\<lambda>s. Inr (t_location (ts_get s 0), s))"

definition msg_expected_type :: "token_type \<Rightarrow> token \<Rightarrow> str" where
  "msg_expected_type ty t = ''Expected '' @ tokenTypeName ty @ '', got '' @ tokenName t"

definition msg_expected_data :: "str \<Rightarrow> token \<Rightarrow> str" where
  "msg_expected_data d t = ''Expected '' @ [CHR 0x27] @ d @ [CHR 0x27] @ '', got '' @ tokenName t"

definition ts_expect :: "token_type \<Rightarrow> unit parser" where
  "ts_expect ty s =
     (if \<not> ts_is ty s then ts_panic (msg_expected_type ty (ts_get s 0)) s else Inr ((), s))"

definition ts_expectd :: "token_type \<Rightarrow> str \<Rightarrow> unit parser" where
  "ts_expectd ty d s =
     (if \<not> ts_isd ty d s then ts_panic (msg_expected_data d (ts_get s 0)) s else Inr ((), s))"

definition ts_eat :: "token_type \<Rightarrow> token parser" where
  "ts_eat ty =
     bindP (ts_expect ty) (\<lambda>_. bindP (\<lambda>s. Inr (ts_get s 0, s)) (\<lambda>t. bindP ts_move (\<lambda>_. unitP t)))"

definition ts_eatd :: "token_type \<Rightarrow> str \<Rightarrow> unit parser" where
  "ts_eatd ty d = bindP (ts_expectd ty d) (\<lambda>_. ts_move)"

text \<open>\<open>new\<close>: a fresh address, and a variable in the store.\<close>

definition new_addr :: "addr parser" where
  "new_addr = (\<lambda>s. Inr (ts_next s, s\<lparr>ts_next := ts_next s + 1\<rparr>))"

definition new_Variable :: "variable_kind \<Rightarrow> str \<Rightarrow> ty \<Rightarrow> location \<Rightarrow> bool \<Rightarrow> addr parser" where
  "new_Variable k nm t loc is_decl =
     (\<lambda>s. let a = ts_next s in
        Inr (a, s\<lparr>ts_next := a + 1,
          ts_vars := (a, \<lparr>v_kind = k, v_name = nm, v_type = t, v_location = loc,
            v_fn = (if is_decl then Some a else None)\<rparr>) # ts_vars s\<rparr>))"

definition new_Unknown :: "ty parser" where
  "new_Unknown = bindP new_addr (\<lambda>a. unitP (TyUnknown a))"

definition getLineIndent :: "token_stream \<Rightarrow> location \<Rightarrow> int result" where
  "getLineIndent s loc =
     bindR (assertR (nat (l_line loc) < length (tk_lines (ts_tokens s)))) (\<lambda>_.
       Inr (int (indent (tk_lines (ts_tokens s) ! nat (l_line loc)))))"

definition indent_of :: "location \<Rightarrow> int parser" where
  "indent_of loc = liftP (\<lambda>s. getLineIndent s loc)"

definition indent_here :: "int parser" where
  "indent_here = bindP ts_here indent_of"

section \<open>Loops\<close>

text \<open>
  The comma-separated lists up to a closing token. The item parser answers \<open>None\<close> for the
  \<open>break\<close> after \<open>...\<close>; the second result says whether the loop ended so.
\<close>

fun comma_loop :: "nat \<Rightarrow> (token_stream \<Rightarrow> bool) \<Rightarrow> 'a option parser \<Rightarrow> ('a list \<times> bool) parser" where
  "comma_loop 0 close item = (\<lambda>s. Inl NoFuel)"
| "comma_loop (Suc k) close item =
     ifP close (unitP ([], False))
       (bindP item (\<lambda>r.
         case r of
           None \<Rightarrow> unitP ([], True)
         | Some x \<Rightarrow>
             bindP (ifP close (unitP ()) (ts_eatd TypeAtom '','')) (\<lambda>_.
             bindP (comma_loop k close item) (\<lambda>(xs, b). unitP (x # xs, b)))))"

definition comma_list :: "nat \<Rightarrow> (token_stream \<Rightarrow> bool) \<Rightarrow> 'a parser \<Rightarrow> 'a list parser" where
  "comma_list k close item =
     bindP (comma_loop k close (bindP item (\<lambda>x. unitP (Some x)))) (\<lambda>(xs, b). unitP xs)"

definition msg_indent_gt :: "int \<Rightarrow> int \<Rightarrow> str" where
  "msg_indent_gt a b = ''Invalid indentation: expected >'' @ show_int a @ '', got '' @ show_int b"

definition msg_indent :: "int \<Rightarrow> int \<Rightarrow> str" where
  "msg_indent a b = ''Invalid indentation: expected '' @ show_int a @ '', got '' @ show_int b"

text \<open>
  The loop of \<open>parseIndent\<close>. \<open>nested\<close> is whether the \<open>indent\<close> argument is not null; the check
  after the newline either ends the loop, panics, or lets it go on.
\<close>

definition parseIndent_newline :: "bool \<Rightarrow> int \<Rightarrow> int \<Rightarrow> bool parser" where
  "parseIndent_newline nested startIndent firstIndent =
     bindP (ifP (ts_is TypeLine) ts_move
              (ifP (\<lambda>s. t_type (ts_get_prev s) \<noteq> TypeLine) (ts_expect TypeLine) (unitP ()))) (\<lambda>_.
       if nested then
         bindP indent_here (\<lambda>lineIndent.
           if lineIndent \<le> startIndent then unitP False
           else if lineIndent \<noteq> firstIndent then ts_panic (msg_indent firstIndent lineIndent)
           else unitP True)
       else unitP True)"

fun parseIndent_loop :: "nat \<Rightarrow> bool \<Rightarrow> int \<Rightarrow> int \<Rightarrow> 'a parser \<Rightarrow> 'a list parser" where
  "parseIndent_loop 0 nested startIndent firstIndent f = (\<lambda>s. Inl NoFuel)"
| "parseIndent_loop (Suc k) nested startIndent firstIndent f =
     ifP (ts_is TypeEnd) (unitP [])
       (bindP f (\<lambda>x.
         ifP (ts_is TypeEnd) (unitP [x])
           (bindP (parseIndent_newline nested startIndent firstIndent) (\<lambda>more.
             if more then
               bindP (parseIndent_loop k nested startIndent firstIndent f) (\<lambda>xs. unitP (x # xs))
             else unitP [x]))))"

definition parseIndent :: "nat \<Rightarrow> location option \<Rightarrow> 'a parser \<Rightarrow> 'a list parser" where
  "parseIndent k ind f =
     bindP (case ind of Some loc \<Rightarrow> indent_of loc | None \<Rightarrow> unitP 0) (\<lambda>startIndent.
     bindP indent_here (\<lambda>firstIndent.
       if ind \<noteq> None \<and> firstIndent \<le> startIndent then ts_panic (msg_indent_gt startIndent firstIndent)
       else parseIndent_loop k (ind \<noteq> None) startIndent firstIndent f))"

section \<open>Types\<close>

definition parseTypeArguments :: "nat \<Rightarrow> ty parser \<Rightarrow> ty list parser" where
  "parseTypeArguments k pty =
     ifP (\<lambda>s. \<not> ts_isd TypeAtom ''.<'' s) (unitP [])
       (bindP (ts_eatd TypeAtom ''.<'') (\<lambda>_.
        bindP (comma_list k (ts_isd TypeAtom ''>'') pty) (\<lambda>args.
        bindP (ts_eatd TypeAtom ''>'') (\<lambda>_. unitP args))))"

definition parseType_paren :: "nat \<Rightarrow> ty parser \<Rightarrow> ty parser" where
  "parseType_paren k pty =
     bindP (ts_eatd TypeBracket ''('') (\<lambda>_.
     bindP (comma_list k (ts_isd TypeBracket '')'') pty) (\<lambda>fields.
     bindP (ts_eatd TypeBracket '')'') (\<lambda>_.
       unitP (if length fields = 0 then TyVoid
              else if length fields = 1 then fields ! 0
              else TyTuple fields))))"

definition parseType_fn :: "nat \<Rightarrow> ty parser \<Rightarrow> ty parser" where
  "parseType_fn k pty =
     bindP ts_move (\<lambda>_.
     bindP (ts_eatd TypeBracket ''('') (\<lambda>_.
     bindP (comma_loop k (ts_isd TypeBracket '')'')
              (ifP (ts_isd TypeAtom ''...'') (bindP ts_move (\<lambda>_. unitP None))
                 (bindP pty (\<lambda>t. unitP (Some t))))) (\<lambda>(args, varargs).
     bindP (ts_eatd TypeBracket '')'') (\<lambda>_.
     bindP (ts_eatd TypeAtom '':'') (\<lambda>_.
     bindP pty (\<lambda>ret. unitP (TyFunction args ret varargs)))))))"

definition parseType_name :: "nat \<Rightarrow> ty parser \<Rightarrow> ty parser" where
  "parseType_name k pty =
     bindP (ts_eat TypeIdent) (\<lambda>name.
     bindP (parseTypeArguments k pty) (\<lambda>tysig.
     bindP new_addr (\<lambda>a. unitP (TyInstance a (t_data name) (t_location name) tysig None None))))"

fun parseType :: "nat \<Rightarrow> ty parser" where
  "parseType 0 s = Inl NoFuel"
| "parseType (Suc k) s =
    (ifP (ts_isd TypeIdent ''_'') (bindP ts_move (\<lambda>_. new_Unknown))
    (ifP (ts_isd TypeIdent ''void'') (bindP ts_move (\<lambda>_. unitP TyVoid))
    (ifP (ts_isd TypeIdent ''bool'') (bindP ts_move (\<lambda>_. unitP TyBool))
    (ifP (ts_isd TypeIdent ''int'') (bindP ts_move (\<lambda>_. unitP TyInteger))
    (ifP (ts_isd TypeIdent ''float'') (bindP ts_move (\<lambda>_. unitP TyFloat))
    (ifP (ts_isd TypeIdent ''string'') (bindP ts_move (\<lambda>_. unitP TyString))
    (ifP (ts_isd TypeBracket ''('') (parseType_paren k (parseType k))
    (ifP (ts_isd TypeBracket ''['')
       (bindP (ts_eatd TypeBracket ''['') (\<lambda>_.
        bindP (parseType k) (\<lambda>element.
        bindP (ts_eatd TypeBracket '']'') (\<lambda>_. unitP (TyArray element)))))
    (ifP (ts_isd TypeAtom ''*'')
       (bindP ts_move (\<lambda>_. bindP (parseType k) (\<lambda>element. unitP (TyPointer element))))
    (ifP (ts_isd TypeIdent ''fn'') (parseType_fn k (parseType k))
    (ifP (ts_is TypeIdent) (parseType_name k (parseType k))
       (ts_panic ''Expected type'')))))))))))) s"

definition parseTypeSignature :: "nat \<Rightarrow> ty list parser" where
  "parseTypeSignature k =
     ifP (\<lambda>s. \<not> ts_isd TypeAtom ''<'' s) (unitP [])
       (bindP (ts_eatd TypeAtom ''<'') (\<lambda>_.
        bindP (comma_list k (ts_isd TypeAtom ''>'')
          (bindP (ts_eat TypeIdent) (\<lambda>name.
           bindP new_addr (\<lambda>a. unitP (TyGeneric a (t_data name) (t_location name)))))) (\<lambda>args.
        bindP (ts_eatd TypeAtom ''>'') (\<lambda>_. unitP args))))"

definition parseTypeAscription :: "nat \<Rightarrow> ty parser" where
  "parseTypeAscription k =
     ifP (ts_isd TypeAtom '':'') (bindP ts_move (\<lambda>_. parseType k)) new_Unknown"

definition parseFnSignature :: "nat \<Rightarrow> (ty \<times> addr list) parser" where
  "parseFnSignature k =
     bindP (ts_eatd TypeBracket ''('') (\<lambda>_.
     bindP (comma_loop k (ts_isd TypeBracket '')'')
       (ifP (ts_isd TypeAtom ''...'') (bindP ts_move (\<lambda>_. unitP None))
         (bindP (ts_eat TypeIdent) (\<lambda>argname.
          bindP (parseTypeAscription k) (\<lambda>t.
          bindP (new_Variable KindArgument (t_data argname) t (t_location argname) False) (\<lambda>v.
            unitP (Some (v, t)))))))) (\<lambda>(args, varargs).
     bindP (ts_eatd TypeBracket '')'') (\<lambda>_.
     bindP (parseTypeAscription k) (\<lambda>ret.
       unitP (TyFunction (map snd args) ret varargs, map fst args)))))"

section \<open>Blocks and declarations\<close>

definition parseBlock :: "nat \<Rightarrow> ast parser \<Rightarrow> location option \<Rightarrow> ast parser" where
  "parseBlock k pe ind =
     bindP (parseIndent k ind pe) (\<lambda>body. unitP (Node None Location0 (Block body)))"

definition parseBlockExpr :: "nat \<Rightarrow> ast parser \<Rightarrow> location option \<Rightarrow> ast parser" where
  "parseBlockExpr k pe ind =
     ifP (ts_is TypeLine) (bindP ts_move (\<lambda>_. parseBlock k pe ind))
       (bindP pe (\<lambda>result.
        bindP (ifP (ts_is TypeLine) ts_move (unitP ())) (\<lambda>_. unitP result)))"

definition parseFn :: "nat \<Rightarrow> ast parser \<Rightarrow> ast parser" where
  "parseFn k pe =
     bindP ts_here (\<lambda>start.
     bindP (ts_eatd TypeIdent ''fn'') (\<lambda>_.
     bindP (parseFnSignature k) (\<lambda>(t, args).
     bindP (parseBlockExpr k pe (Some start)) (\<lambda>body.
     bindP (new_Variable KindFunction [] t start False) (\<lambda>v.
     bindP (\<lambda>s. Inr (ts_index s, s)) (\<lambda>i.
       unitP (Node None start (Fn (int i)
         (Node None start (FnDecl v [] args 0 (Some body) None None))))))))))"

definition parseFnBody :: "nat \<Rightarrow> ast parser \<Rightarrow> location option \<Rightarrow> ast parser" where
  "parseFnBody k pe ind =
     bindP (ts_eat TypeLine) (\<lambda>_.
       ifP (ts_isd TypeIdent ''llvm'')
         (bindP ts_move (\<lambda>_.
          bindP (ts_eat TypeString) (\<lambda>code.
            unitP (Node None (t_location code) (LLVM (t_data code))))))
         (parseBlock k pe ind))"

definition parse_attribute :: "str \<Rightarrow> nat \<Rightarrow> nat \<Rightarrow> nat parser" where
  "parse_attribute word flag attributes =
     ifP (ts_isd TypeIdent word) (bindP ts_move (\<lambda>_. unitP (attributes OR flag))) (unitP attributes)"

definition parseFnDecl :: "nat \<Rightarrow> ast parser \<Rightarrow> ast parser" where
  "parseFnDecl k pe =
     bindP ts_here (\<lambda>ind.
     bindP (parse_attribute ''inline'' FnAttributeInline 0) (\<lambda>att1.
     bindP (parse_attribute ''extern'' FnAttributeExtern att1) (\<lambda>att2.
     bindP (parse_attribute ''builtin'' FnAttributeBuiltin att2) (\<lambda>attributes.
     bindP (ts_eatd TypeIdent ''fn'') (\<lambda>_.
     bindP (ts_eat TypeIdent) (\<lambda>name.
     bindP (parseTypeSignature k) (\<lambda>tysig.
     bindP (parseFnSignature k) (\<lambda>(t, args).
     bindP (if attributes AND (FnAttributeExtern OR FnAttributeBuiltin) \<noteq> 0 then unitP None
            else bindP (parseFnBody k pe (Some ind)) (\<lambda>b. unitP (Some b))) (\<lambda>body.
     bindP (new_Variable KindFunction (t_data name) t (t_location name) True) (\<lambda>v.
       unitP (Node None Location0 (FnDecl v tysig args attributes body None None))))))))))))"

definition parseVarDecl :: "nat \<Rightarrow> ast parser \<Rightarrow> ast parser" where
  "parseVarDecl k pe =
     bindP (ts_eatd TypeIdent ''var'') (\<lambda>_.
     bindP (ts_eat TypeIdent) (\<lambda>name.
     bindP (parseTypeAscription k) (\<lambda>t.
     bindP (ts_eatd TypeAtom ''='') (\<lambda>_.
     bindP pe (\<lambda>expr.
     bindP (new_Variable KindVariable (t_data name) t (t_location name) False) (\<lambda>v.
       unitP (Node None Location0 (VarDecl v expr))))))))"

text \<open>
  The names of a struct's field line share one type and one default expression in the code; here
  each field has a copy, with the same addresses.
\<close>

fun parse_field_names :: "nat \<Rightarrow> token list parser" where
  "parse_field_names 0 = (\<lambda>s. Inl NoFuel)"
| "parse_field_names (Suc k) =
     bindP (ts_eat TypeIdent) (\<lambda>name.
       ifP (\<lambda>s. \<not> ts_isd TypeAtom '','' s) (unitP [name])
         (bindP ts_move (\<lambda>_.
          bindP (parse_field_names k) (\<lambda>names. unitP (name # names)))))"

definition parse_struct_line :: "nat \<Rightarrow> ast parser \<Rightarrow> ast struct_field list parser" where
  "parse_struct_line k pe =
     bindP (parse_field_names k) (\<lambda>fnames.
     bindP (ts_eatd TypeAtom '':'') (\<lambda>_.
     bindP (parseType k) (\<lambda>t.
     bindP (ifP (ts_isd TypeAtom ''='')
              (bindP ts_move (\<lambda>_. bindP pe (\<lambda>e. unitP (Some e)))) (unitP None)) (\<lambda>expr.
       unitP (map (\<lambda>f. StructField (t_data f) (t_location f) t expr) fnames)))))"

definition parseStructDecl :: "nat \<Rightarrow> ast parser \<Rightarrow> ast parser" where
  "parseStructDecl k pe =
     bindP ts_here (\<lambda>ind.
     bindP (ts_eatd TypeIdent ''struct'') (\<lambda>_.
     bindP (ts_eat TypeIdent) (\<lambda>name.
     bindP (parseTypeSignature k) (\<lambda>tysig.
     bindP (ts_eat TypeLine) (\<lambda>_.
     bindP (parseIndent k (Some ind) (parse_struct_line k pe)) (\<lambda>fields.
     bindP new_addr (\<lambda>a.
       unitP (Node None (t_location name)
         (TyDecl (t_data name) a (TyDef_Struct tysig (concat fields)))))))))))"

fun parse_import_path :: "nat \<Rightarrow> str \<Rightarrow> location \<Rightarrow> (str \<times> location) parser" where
  "parse_import_path 0 path loc = (\<lambda>s. Inl NoFuel)"
| "parse_import_path (Suc k) path loc =
     ifP (\<lambda>s. ts_isd TypeAtom ''.'' s \<and> l_line (t_location (ts_get s 0)) = l_line loc)
       (bindP ts_move (\<lambda>_.
        bindP (ts_eat TypeIdent) (\<lambda>name.
        bindP (liftP (\<lambda>_. Location_span loc (t_location name))) (\<lambda>loc'.
          parse_import_path k (path @ ''.'' @ t_data name) loc'))))
       (unitP (path, loc))"

definition parseImport :: "nat \<Rightarrow> ast parser" where
  "parseImport k =
     bindP (ts_eatd TypeIdent ''import'') (\<lambda>_.
     bindP (ts_eat TypeIdent) (\<lambda>start.
     bindP (parse_import_path k (t_data start) (t_location start)) (\<lambda>(path, loc).
       unitP (Node None loc (Import path)))))"

section \<open>Expressions\<close>

definition parseCall :: "nat \<Rightarrow> ast parser \<Rightarrow> ast \<Rightarrow> location \<Rightarrow> ast option \<Rightarrow> ast parser" where
  "parseCall k pe expr start self =
     bindP (ts_eatd TypeBracket ''('') (\<lambda>_.
     bindP (comma_list k (ts_isd TypeBracket '')'') pe) (\<lambda>args.
     bindP ts_here (\<lambda>e.
     bindP (ts_eatd TypeBracket '')'') (\<lambda>_.
     bindP (liftP (\<lambda>_. Location_span start e)) (\<lambda>loc.
       unitP (Node None loc (Call expr ((case self of Some x \<Rightarrow> [x] | None \<Rightarrow> []) @ args))))))))"

definition parseIndex :: "ast parser \<Rightarrow> ast \<Rightarrow> ast parser" where
  "parseIndex pe expr =
     bindP ts_here (\<lambda>start.
     bindP (ts_eatd TypeBracket ''['') (\<lambda>_.
     bindP pe (\<lambda>index.
     bindP (ts_eatd TypeBracket '']'') (\<lambda>_. unitP (Node None start (Index expr index))))))"

definition parseIdent :: "nat \<Rightarrow> ast parser" where
  "parseIdent k =
     bindP (ts_eat TypeIdent) (\<lambda>name.
     bindP (parseTypeArguments k (parseType k)) (\<lambda>tyargs.
       unitP (Node None (t_location name) (Ident (t_data name) tyargs [] False))))"

definition ts_back :: "unit parser" where
  "ts_back = (\<lambda>s. Inr ((), s\<lparr>ts_index := ts_index s - 1\<rparr>))"

definition parseMember :: "nat \<Rightarrow> ast parser \<Rightarrow> ast \<Rightarrow> ast parser" where
  "parseMember k pe expr =
     bindP (ts_eatd TypeAtom ''.'') (\<lambda>_.
     bindP (ts_eat TypeIdent) (\<lambda>name.
       ifP (\<lambda>s. ts_isd TypeBracket ''('' s \<or> ts_isd TypeAtom ''.<'' s)
         (bindP ts_back (\<lambda>_.
          bindP (parseIdent k) (\<lambda>member. parseCall k pe member (t_location name) (Some expr))))
         (unitP (Node None (t_location name) (Member expr
           \<lparr>fr_name = t_data name, fr_location = t_location name, fr_index = -1\<rparr>)))))"

definition parseAssign :: "ast parser \<Rightarrow> ast \<Rightarrow> ast parser" where
  "parseAssign pe expr =
     bindP ts_here (\<lambda>loc.
     bindP (ts_eatd TypeAtom ''='') (\<lambda>_.
     bindP pe (\<lambda>value. unitP (Node None loc (Assign expr value)))))"

definition parseIf :: "nat \<Rightarrow> ast parser \<Rightarrow> ast parser" where
  "parseIf k pe =
     bindP ts_here (\<lambda>start.
     bindP (ts_eatd TypeIdent ''if'') (\<lambda>_.
     bindP pe (\<lambda>cond.
     bindP (parseBlockExpr k pe (Some start)) (\<lambda>thenbody.
     bindP (ifP (ts_isd TypeIdent ''else'')
       (bindP (indent_of start) (\<lambda>ifIndent.
        bindP indent_here (\<lambda>elseIndent.
          if ifIndent \<noteq> elseIndent then ts_panic (msg_indent ifIndent elseIndent)
          else
            bindP (ts_eat TypeIdent) (\<lambda>_.
            bindP (parseBlockExpr k pe (Some start)) (\<lambda>b. unitP (Some b))))))
       (unitP None)) (\<lambda>elsebody.
       unitP (Node None start (If cond thenbody elsebody)))))))"

definition parseFor :: "nat \<Rightarrow> ast parser \<Rightarrow> ast parser" where
  "parseFor k pe =
     bindP ts_here (\<lambda>start.
     bindP (ts_eatd TypeIdent ''for'') (\<lambda>_.
     bindP (ts_eat TypeIdent) (\<lambda>name.
     bindP new_Unknown (\<lambda>t.
     bindP (new_Variable KindVariable (t_data name) t (t_location name) False) (\<lambda>var.
     bindP (ifP (ts_isd TypeAtom '','')
       (bindP ts_move (\<lambda>_.
        bindP (ts_eat TypeIdent) (\<lambda>iname.
        bindP new_Unknown (\<lambda>it.
        bindP (new_Variable KindValue (t_data iname) it (t_location iname) False) (\<lambda>v.
          unitP (Some v))))))
       (unitP None)) (\<lambda>index.
     bindP (ts_eatd TypeIdent ''in'') (\<lambda>_.
     bindP pe (\<lambda>expr.
     bindP (parseBlockExpr k pe (Some start)) (\<lambda>body.
       unitP (Node None start (For var index expr body)))))))))))"

definition parseWhile :: "nat \<Rightarrow> ast parser \<Rightarrow> ast parser" where
  "parseWhile k pe =
     bindP ts_here (\<lambda>start.
     bindP (ts_eatd TypeIdent ''while'') (\<lambda>_.
     bindP pe (\<lambda>expr.
     bindP (parseBlockExpr k pe (Some start)) (\<lambda>body.
       unitP (Node None start (While expr body))))))"

definition parseLiteralArray :: "nat \<Rightarrow> ast parser \<Rightarrow> ast parser" where
  "parseLiteralArray k pe =
     bindP ts_here (\<lambda>start.
     bindP (ts_eatd TypeBracket ''['') (\<lambda>_.
     bindP (comma_list k (ts_isd TypeBracket '']'') pe) (\<lambda>elements.
     bindP (ts_eatd TypeBracket '']'') (\<lambda>_. unitP (Node None start (LiteralArray elements))))))"

definition parse_struct_init :: "ast parser \<Rightarrow> (field_ref \<times> ast) parser" where
  "parse_struct_init pe =
     bindP (ts_eat TypeIdent) (\<lambda>fname.
     bindP (ifP (ts_isd TypeAtom ''='') (bindP ts_move (\<lambda>_. pe))
              (unitP (Node None (t_location fname) (Ident (t_data fname) [] [] False)))) (\<lambda>expr.
       unitP (\<lparr>fr_name = t_data fname, fr_location = t_location fname, fr_index = -1\<rparr>, expr)))"

text \<open>\<open>name\<close> is the default token, with no data, when the literal has no type name.\<close>

definition parseLiteralStruct :: "nat \<Rightarrow> ast parser \<Rightarrow> ast parser" where
  "parseLiteralStruct k pe =
     bindP ts_here (\<lambda>start.
     bindP (ifP (ts_is TypeIdent) (ts_eat TypeIdent) (unitP kEnd)) (\<lambda>name.
     bindP (if length (t_data name) = 0 then unitP [] else parseTypeArguments k (parseType k)) (\<lambda>tyargs.
     bindP (ts_eatd TypeBracket ''{'') (\<lambda>_.
     bindP (comma_list k (ts_isd TypeBracket ''}'') (parse_struct_init pe)) (\<lambda>fields.
     bindP (ts_eatd TypeBracket ''}'') (\<lambda>_.
     bindP (if length (t_data name) = 0 then unitP None
            else bindP new_addr (\<lambda>a.
              unitP (Some (TyInstance a (t_data name) (t_location name) tyargs None None)))) (\<lambda>t.
       unitP (Node t start (LiteralStruct (t_data name) fields)))))))))"

end
