(* ===== verification/ParseExpr.thy ===== *)
theory ParseExpr
  imports Parse
begin

text \<open>
  The second half of \<open>compiler/parse.cpp\<close>: numbers, terms, operators with their precedences, and
  the entry points.
\<close>

section \<open>Number literals\<close>

text \<open>
  \<open>strtoll\<close> in base 10 on a text that starts with a digit: the value, whether it is out of range,
  and the rest of the text.
\<close>

definition strtoll10 :: "str \<Rightarrow> int \<times> bool \<times> str" where
  "strtoll10 s =
     (let n = int (read_nat (takeWhile is_digit_char s))
      in (min n (2 ^ 63 - 1), n > 2 ^ 63 - 1, dropWhile is_digit_char s))"

text \<open>
  \<open>strtod\<close> on such a text: digits, a fraction, an exponent. The parts of the number are the digits
  as an integer and the power of ten it is scaled by, and the rest of the text.
\<close>

definition strtod_exponent :: "str \<Rightarrow> int \<times> str" where
  "strtod_exponent s =
     (case s of
        c # r \<Rightarrow>
          if c = CHR ''e'' \<or> c = CHR ''E'' then
            (let neg = (case r of x # _ \<Rightarrow> x = CHR ''-'' | [] \<Rightarrow> False);
                 r' = (case r of x # q \<Rightarrow> if x = CHR ''-'' \<or> x = CHR ''+'' then q else r | [] \<Rightarrow> r);
                 ds = takeWhile is_digit_char r'
             in if ds = [] then (0, s)
                else (if neg then - int (read_nat ds) else int (read_nat ds), dropWhile is_digit_char r'))
          else (0, s)
      | [] \<Rightarrow> (0, s))"

definition strtod_parts :: "str \<Rightarrow> int \<times> int \<times> str" where
  "strtod_parts s =
     (let whole = takeWhile is_digit_char s;
          r = dropWhile is_digit_char s;
          frac = (case r of c # q \<Rightarrow> if c = CHR ''.'' then takeWhile is_digit_char q else [] | [] \<Rightarrow> []);
          r' = (case r of c # q \<Rightarrow> if c = CHR ''.'' then dropWhile is_digit_char q else r | [] \<Rightarrow> r);
          (ex, rest) = strtod_exponent r'
      in (int (read_nat (whole @ frac)), ex - int (length frac), rest))"

text \<open>
  \<open>errno\<close> after \<open>strtod\<close>: the value rounds to infinity, or it is below the normal range and not a
  multiple of the least positive double.
\<close>

definition strtod_range :: "int \<Rightarrow> int \<Rightarrow> bool" where
  "strtod_range m ex =
     (let num = m * 10 ^ nat ex; den = 10 ^ nat (- ex)
      in (2 ^ 1024 - 2 ^ 970) * den \<le> num \<or>
         (m \<noteq> 0 \<and> num * 2 ^ 1076 < (2 ^ 54 - 1) * den \<and> \<not> den dvd num * 2 ^ 1074))"

definition quoted_msg :: "str \<Rightarrow> str \<Rightarrow> str" where
  "quoted_msg what s = what @ CHR '' '' # CHR 0x27 # s @ [CHR 0x27]"

definition parseNumber_value :: "location \<Rightarrow> str \<Rightarrow> ast result" where
  "parseNumber_value loc contents =
     (let (n, out_of_range, rest) = strtoll10 contents
      in if rest = [] then
           (if out_of_range then Inl (Panic loc (quoted_msg ''Invalid integer literal'' contents))
            else Inr (Node None loc (LiteralInteger n)))
         else
           (let (m, ex, drest) = strtod_parts contents
            in if drest = [] then
                 (if strtod_range m ex then
                    Inl (Panic loc (quoted_msg ''Invalid floating-point literal'' contents))
                  else Inr (Node None loc (LiteralFloat contents)))
               else Inl (Panic loc (quoted_msg ''Invalid number literal'' contents))))"

definition parseNumber :: "ast parser" where
  "parseNumber =
     bindP (ts_eat TypeNumber) (\<lambda>value.
       liftP (\<lambda>_. parseNumber_value (t_location value) (t_data value)))"

section \<open>Terms\<close>

definition parse_paren_expr :: "nat \<Rightarrow> ast parser \<Rightarrow> ast parser" where
  "parse_paren_expr k pe =
     bindP ts_here (\<lambda>start.
     bindP ts_move (\<lambda>_.
     bindP (comma_list k (ts_isd TypeBracket '')'') pe) (\<lambda>fields.
     bindP ts_here (\<lambda>e.
     bindP (ts_eatd TypeBracket '')'') (\<lambda>_.
       if length fields = 0 then
         bindP (liftP (\<lambda>_. Location_span start e)) (\<lambda>loc. unitP (Node None loc LiteralVoid))
       else if length fields = 1 then unitP (fields ! 0)
       else
         bindP (liftP (\<lambda>_. Location_span start e)) (\<lambda>loc.
           unitP (Node None loc (LiteralTuple fields))))))))"

definition is_literal_struct :: "token_stream \<Rightarrow> bool" where
  "is_literal_struct s =
     (ts_isd TypeBracket ''{'' s \<or>
      (ts_is TypeIdent s \<and> t_type (ts_get s 1) = TypeBracket \<and> t_data (ts_get s 1) = ''{''))"

definition parse_bool :: "bool \<Rightarrow> ast parser" where
  "parse_bool b =
     bindP (ts_eat TypeIdent) (\<lambda>value. unitP (Node None (t_location value) (LiteralBool b)))"

definition parseTerm :: "nat \<Rightarrow> ast parser \<Rightarrow> ast parser" where
  "parseTerm k pe =
     ifP (ts_isd TypeIdent ''true'') (parse_bool True)
    (ifP (ts_isd TypeIdent ''false'') (parse_bool False)
    (ifP (ts_is TypeNumber) parseNumber
    (ifP (ts_is TypeString)
       (bindP (ts_eat TypeString) (\<lambda>value.
          unitP (Node None (t_location value) (LiteralString (t_data value)))))
    (ifP is_literal_struct (parseLiteralStruct k pe)
    (ifP (ts_isd TypeBracket ''['') (parseLiteralArray k pe)
    (ifP (ts_is TypeIdent) (parseIdent k)
    (ifP (ts_isd TypeBracket ''('') (parse_paren_expr k pe)
       (\<lambda>s. ts_panic (''Unexpected token '' @ tokenName (ts_get s 0)) s))))))))"

section \<open>Operators\<close>

record 'op op_def =
  od_priority :: int
  od_op :: 'op
  od_name :: "str option"

definition OpDef :: "int \<Rightarrow> 'op \<Rightarrow> str option \<Rightarrow> 'op op_def" where
  "OpDef p op nm = \<lparr>od_priority = p, od_op = op, od_name = nm\<rparr>"

definition parseUnaryOp :: "token_stream \<Rightarrow> unary_op op_def" where
  "parseUnaryOp s =
     (if ts_isd TypeAtom ''+'' s then OpDef 1 UnaryOpPlus (Some ''operatorPlus'')
      else if ts_isd TypeAtom ''-'' s then OpDef 1 UnaryOpMinus (Some ''operatorMinus'')
      else if ts_isd TypeIdent ''not'' s then OpDef 1 UnaryOpNot None
      else if ts_isd TypeAtom ''*'' s then OpDef 1 UnaryOpDeref None
      else if ts_isd TypeIdent ''new'' s then OpDef 1 UnaryOpNew None
      else OpDef 0 UnaryOpNot None)"

definition mk_ident :: "location \<Rightarrow> str \<Rightarrow> ast" where
  "mk_ident loc nm = Node None loc (Ident nm [] [] False)"

definition lowerUnaryOp :: "unary_op op_def \<Rightarrow> ast \<Rightarrow> location \<Rightarrow> ast" where
  "lowerUnaryOp d expr loc =
     (case od_name d of
        Some nm \<Rightarrow> Node None loc (Call (mk_ident loc nm) [expr])
      | None \<Rightarrow> Node None loc (Unary (od_op d) expr))"

text \<open>The rows of \<open>parseBinaryOp\<close>, in order: the token, and what it stands for.\<close>

definition binary_ops :: "((token_type \<times> str) \<times> binary_op op_def) list" where
  "binary_ops =
     [((TypeAtom, ''*%''), OpDef 7 BinaryOpMultiplyWrap (Some ''operatorMultiplyWrap'')),
      ((TypeAtom, ''*''), OpDef 7 BinaryOpMultiply (Some ''operatorMultiply'')),
      ((TypeAtom, ''/''), OpDef 7 BinaryOpDivide (Some ''operatorDivide'')),
      ((TypeAtom, ''%''), OpDef 7 BinaryOpModulo (Some ''operatorModulo'')),
      ((TypeAtom, ''+%''), OpDef 6 BinaryOpAddWrap (Some ''operatorAddWrap'')),
      ((TypeAtom, ''+''), OpDef 6 BinaryOpAdd (Some ''operatorAdd'')),
      ((TypeAtom, ''-%''), OpDef 6 BinaryOpSubtractWrap (Some ''operatorSubtractWrap'')),
      ((TypeAtom, ''-''), OpDef 6 BinaryOpSubtract (Some ''operatorSubtract'')),
      ((TypeAtom, ''<''), OpDef 5 BinaryOpLess (Some ''operatorLess'')),
      ((TypeAtom, ''<=''), OpDef 5 BinaryOpLessEqual (Some ''operatorLessEqual'')),
      ((TypeAtom, ''>''), OpDef 5 BinaryOpGreater (Some ''operatorGreater'')),
      ((TypeAtom, ''>=''), OpDef 5 BinaryOpGreaterEqual (Some ''operatorGreaterEqual'')),
      ((TypeAtom, ''==''), OpDef 4 BinaryOpEqual (Some ''operatorEqual'')),
      ((TypeAtom, ''!=''), OpDef 4 BinaryOpNotEqual (Some ''operatorNotEqual'')),
      ((TypeIdent, ''and''), OpDef 3 BinaryOpAnd None),
      ((TypeIdent, ''or''), OpDef 2 BinaryOpOr None)]"

definition parseBinaryOp :: "token_stream \<Rightarrow> binary_op op_def" where
  "parseBinaryOp s =
     (case map_of binary_ops (t_type (ts_get s 0), t_data (ts_get s 0)) of
        Some d \<Rightarrow> d
      | None \<Rightarrow> OpDef 0 BinaryOpOr None)"

definition lowerBinaryOp :: "binary_op op_def \<Rightarrow> ast \<Rightarrow> ast \<Rightarrow> location \<Rightarrow> ast" where
  "lowerBinaryOp d left right loc =
     (case od_name d of
        Some nm \<Rightarrow> Node None loc (Call (mk_ident loc nm) [left, right])
      | None \<Rightarrow> Node None loc (Binary (od_op d) left right))"

section \<open>Expressions\<close>

text \<open>The calls, indexings and members after a term.\<close>

fun parse_postfix :: "nat \<Rightarrow> ast parser \<Rightarrow> location \<Rightarrow> ast \<Rightarrow> ast parser" where
  "parse_postfix 0 pe start term = (\<lambda>s. Inl NoFuel)"
| "parse_postfix (Suc k) pe start term =
     ifP (ts_isd TypeBracket ''('') (bindP (parseCall k pe term start None) (parse_postfix k pe start))
    (ifP (ts_isd TypeBracket ''['') (bindP (parseIndex pe term) (parse_postfix k pe start))
    (ifP (ts_isd TypeAtom ''.'') (bindP (parseMember k pe term) (parse_postfix k pe start))
       (unitP term)))"

definition parse_term_expr :: "nat \<Rightarrow> ast parser \<Rightarrow> ast parser" where
  "parse_term_expr k pe =
     bindP ts_here (\<lambda>start.
     bindP (parseTerm k pe) (\<lambda>term.
     bindP (parse_postfix k pe start term) (\<lambda>term'.
       ifP (ts_isd TypeAtom ''='') (parseAssign pe term') (unitP term'))))"

definition parse_statement :: "nat \<Rightarrow> ast parser \<Rightarrow> ast parser" where
  "parse_statement k pe =
     ifP (\<lambda>s. ts_isd TypeIdent ''extern'' s \<or> ts_isd TypeIdent ''builtin'' s \<or> ts_isd TypeIdent ''inline'' s)
       (parseFnDecl k pe)
    (ifP (ts_isd TypeIdent ''fn'')
       (ifP (\<lambda>s. t_type (ts_get s 1) = TypeIdent) (parseFnDecl k pe) (parseFn k pe))
    (ifP (ts_isd TypeIdent ''var'') (parseVarDecl k pe)
    (ifP (ts_isd TypeIdent ''struct'') (parseStructDecl k pe)
    (ifP (ts_isd TypeIdent ''import'') (parseImport k)
    (ifP (ts_isd TypeIdent ''if'') (parseIf k pe)
    (ifP (ts_isd TypeIdent ''for'') (parseFor k pe)
    (ifP (ts_isd TypeIdent ''while'') (parseWhile k pe)
       (parse_term_expr k pe))))))))"

fun parsePrimary :: "nat \<Rightarrow> ast parser \<Rightarrow> ast parser" where
  "parsePrimary k pe =
     (\<lambda>s. let uop = parseUnaryOp s in
        if od_priority uop \<noteq> 0 then
          (case k of
             0 \<Rightarrow> Inl NoFuel
           | Suc j \<Rightarrow>
               bindP ts_here (\<lambda>start.
               bindP ts_move (\<lambda>_.
               bindP (parsePrimary j pe) (\<lambda>expr. unitP (lowerUnaryOp uop expr start)))) s)
        else parse_statement k pe s)"

declare parsePrimary.simps [simp del]

text \<open>
  Precedence climbing: the outer loop, over the parser \<open>pp\<close> for a primary expression, and the
  inner loop for operators that bind tighter than the one before \<open>right\<close>.
\<close>

fun parseExprClimb :: "nat \<Rightarrow> ast parser \<Rightarrow> ast \<Rightarrow> int \<Rightarrow> ast parser"
  and parseExprClimb_right :: "nat \<Rightarrow> ast parser \<Rightarrow> int \<Rightarrow> ast \<Rightarrow> ast parser"
where
  "parseExprClimb 0 pp left limit = (\<lambda>s. Inl NoFuel)"
| "parseExprClimb (Suc k) pp left limit =
     (\<lambda>s. let op = parseBinaryOp s in
        if od_priority op \<noteq> 0 \<and> od_priority op \<ge> limit then
          bindP ts_here (\<lambda>start.
          bindP ts_move (\<lambda>_.
          bindP pp (\<lambda>right.
          bindP (parseExprClimb_right k pp (od_priority op) right) (\<lambda>right'.
            parseExprClimb k pp (lowerBinaryOp op left right' start) limit)))) s
        else unitP left s)"
| "parseExprClimb_right 0 pp prio right = (\<lambda>s. Inl NoFuel)"
| "parseExprClimb_right (Suc k) pp prio right =
     (\<lambda>s. let nextop = parseBinaryOp s in
        if od_priority nextop \<noteq> 0 \<and> od_priority nextop > prio then
          bindP (parseExprClimb k pp right (od_priority nextop)) (\<lambda>right'.
            parseExprClimb_right k pp prio right') s
        else unitP right s)"

fun parseExpr :: "nat \<Rightarrow> ast parser" where
  "parseExpr 0 s = Inl NoFuel"
| "parseExpr (Suc k) s =
     bindP (parsePrimary k (parseExpr k)) (\<lambda>left.
       parseExprClimb (Suc k) (parsePrimary k (parseExpr k)) left 0) s"

section \<open>The parser\<close>

definition parse_stream ::
    "nat \<Rightarrow> tokens_rec \<Rightarrow> addr \<Rightarrow> (addr \<times> variable) list \<Rightarrow> (ast \<times> token_stream) result" where
  "parse_stream k tk nxt vs =
     bindP (parseBlock k (parseExpr k) None) (\<lambda>root.
     bindP (ts_expect TypeEnd) (\<lambda>_. unitP root))
       \<lparr>ts_tokens = tk, ts_index = 0, ts_next = nxt, ts_vars = vs\<rparr>"

definition parse_tokens :: "nat \<Rightarrow> tokens_rec \<Rightarrow> (ast \<times> token_stream) result" where
  "parse_tokens k tk = parse_stream k tk 0 []"

text \<open>The module, from the first free address and the variables there are, with those after it.\<close>

definition parse_at ::
    "nat \<Rightarrow> tokens_rec \<Rightarrow> str \<Rightarrow> addr \<Rightarrow> (addr \<times> variable) list \<Rightarrow>
      (ast \<times> addr \<times> (addr \<times> variable) list) result" where
  "parse_at k tk moduleName nxt vs =
     bindR (parse_stream k tk nxt vs) (\<lambda>(root, s).
       Inr (case tk_tokens tk of
              [] \<Rightarrow> root
            | t # _ \<Rightarrow> Node None (t_location t) (Module moduleName root []), ts_next s, ts_vars s))"

text \<open>A single module on its own, with the store of its variables.\<close>

definition parse :: "nat \<Rightarrow> tokens_rec \<Rightarrow> str \<Rightarrow> (ast \<times> (addr \<times> variable) list) result" where
  "parse k tk moduleName =
     bindR (parse_tokens k tk) (\<lambda>(root, s).
       Inr (case tk_tokens tk of
              [] \<Rightarrow> root
            | t # _ \<Rightarrow> Node None (t_location t) (Module moduleName root []), ts_vars s))"

end
