(* ===== verification/ParseCorrect.thy ===== *)
theory ParseCorrect
  imports ParseExpr TokenizeCorrect
begin

text \<open>
  The parser on the token stream of any text: it ends, one unit of fuel per token being enough;
  when it stops early it is by a diagnostic, never by an assertion, a location out of the line
  table or a span of tokens in the wrong order; and what it returns consumed every token.
\<close>

section \<open>A logic of parsers\<close>

text \<open>
  Streams as the tokenizer makes them: there is a line, no token is an end token, every location is
  on a line of the table, and each location ends before that of any later token begins, newline
  tokens aside (after a string literal, a newline token stands on the closing quote).
\<close>

definition loc_before :: "location \<Rightarrow> location \<Rightarrow> bool" where
  "loc_before a b = (l_source a = l_source b \<and> l_offset a + l_length a \<le> l_offset b)"

definition stream_ok :: "tokens_rec \<Rightarrow> bool" where
  "stream_ok tk = (tk_lines tk \<noteq> [] \<and>
     (\<forall>t \<in> set (tk_tokens tk). t_type t \<noteq> TypeEnd \<and>
        nat (l_line (t_location t)) < length (tk_lines tk)) \<and>
     sorted_wrt (\<lambda>a b. t_type b \<noteq> TypeLine \<longrightarrow> loc_before (t_location a) (t_location b)) (tk_tokens tk))"

definition inv_ts :: "token_stream \<Rightarrow> bool" where
  "inv_ts s = (stream_ok (ts_tokens s) \<and> ts_index s \<le> length (ts_toks s))"

definition rest :: "token_stream \<Rightarrow> nat" where
  "rest s = length (ts_toks s) - ts_index s"

definition adv :: "nat \<Rightarrow> token_stream \<Rightarrow> token_stream \<Rightarrow> bool" where
  "adv n s s' = (ts_tokens s' = ts_tokens s \<and> ts_index s + n \<le> ts_index s' \<and>
     ts_index s' \<le> length (ts_toks s))"

lemmas ts_arith = inv_ts_def rest_def adv_def ts_toks_def

text \<open>A location whose line is in the table and which ends before the tokens from the current one on.\<close>

definition closed_loc :: "token_stream \<Rightarrow> location \<Rightarrow> bool" where
  "closed_loc s loc = (nat (l_line loc) < length (tk_lines (ts_tokens s)) \<and>
     (\<forall>j < length (ts_toks s). ts_index s \<le> j \<longrightarrow> t_type (ts_toks s ! j) \<noteq> TypeLine \<longrightarrow>
        loc_before loc (t_location (ts_toks s ! j))))"

lemma closed_loc_adv: "closed_loc s loc \<Longrightarrow> adv n s s' \<Longrightarrow> closed_loc s' loc"
  by (auto simp: closed_loc_def adv_def ts_toks_def)

lemma closed_loc_line: "closed_loc s loc \<Longrightarrow> nat (l_line loc) < length (tk_lines (ts_tokens s))"
  by (simp add: closed_loc_def)

lemma closed_loc_get:
  assumes "inv_ts s" "adv 1 s s'"
  shows "closed_loc s' (t_location (ts_get s 0))"
proof -
  from assms have i: "ts_index s < length (ts_toks s)" by (simp add: ts_arith)
  then have "ts_toks s ! ts_index s \<in> set (ts_toks s)" by simp
  with i assms show ?thesis
    by (auto simp: closed_loc_def ts_get_def stream_ok_def ts_arith sorted_wrt_iff_nth_less)
qed

lemma line_ok_get: "inv_ts s \<Longrightarrow> nat (l_line (t_location (ts_get s 0))) < length (tk_lines (ts_tokens s))"
  by (auto simp: ts_get_def inv_ts_def stream_ok_def kEnd_def Location0_def ts_toks_def)

lemma before_get:
  "closed_loc s loc \<Longrightarrow> adv 1 s s' \<Longrightarrow> t_type (ts_get s 0) \<noteq> TypeLine \<Longrightarrow>
   loc_before loc (t_location (ts_get s 0))"
  by (auto simp: closed_loc_def ts_get_def ts_arith)

text \<open>What holds of a run: a panic, or the postcondition.\<close>

definition wp :: "'a parser \<Rightarrow> ('a \<Rightarrow> token_stream \<Rightarrow> bool) \<Rightarrow> token_stream \<Rightarrow> bool" where
  "wp p Q s = (case p s of Inr (x, s') \<Rightarrow> Q x s' | Inl e \<Rightarrow> (\<exists>loc msg. e = Panic loc msg))"

lemma wp_mono: "wp p Q s \<Longrightarrow> (\<And>x s'. Q x s' \<Longrightarrow> R x s') \<Longrightarrow> wp p R s"
  by (auto simp: wp_def split: sum.splits)

lemma wp_eq: "p s = q s \<Longrightarrow> wp q Q s \<Longrightarrow> wp p Q s"
  by (simp add: wp_def)

lemma wp_bind: "wp p (\<lambda>x. wp (f x) Q) s \<Longrightarrow> wp (bindP p f) Q s"
  by (auto simp: wp_def bindP_def bindR_def split: sum.splits)

lemma wp_unit: "Q x s \<Longrightarrow> wp (unitP x) Q s"
  by (simp add: wp_def unitP_def)

lemma wp_if: "(c s \<Longrightarrow> wp p Q s) \<Longrightarrow> (\<not> c s \<Longrightarrow> wp q Q s) \<Longrightarrow> wp (ifP c p q) Q s"
  by (simp add: wp_def ifP_def)

lemma wp_if_value: "(c \<Longrightarrow> wp p Q s) \<Longrightarrow> (\<not> c \<Longrightarrow> wp q Q s) \<Longrightarrow> wp (if c then p else q) Q s"
  by simp

lemma wp_panic: "wp (ts_panic msg) Q s"
  by (simp add: wp_def ts_panic_def)

lemma wp_panic_at: "wp (\<lambda>s. ts_panic (m s) s) Q s"
  by (simp add: wp_def ts_panic_def)

lemma wp_here: "Q (t_location (ts_get s 0)) s \<Longrightarrow> wp ts_here Q s"
  by (simp add: wp_def ts_here_def)

lemma wp_move:
  assumes "inv_ts s" "\<not> ts_is TypeEnd s"
    "\<And>s'. adv 1 s s' \<Longrightarrow> ts_index s' = ts_index s + 1 \<Longrightarrow> ts_next s' = ts_next s \<Longrightarrow>
      ts_vars s' = ts_vars s \<Longrightarrow> Q () s'"
  shows "wp ts_move Q s"
proof -
  have "ts_index s < length (ts_toks s)"
    using assms(2) by (auto simp: ts_is_def ts_get_def kEnd_def split: if_splits)
  then show ?thesis using assms by (simp add: wp_def ts_move_def ts_arith)
qed

lemma wp_expect: "(ts_is ty s \<Longrightarrow> Q () s) \<Longrightarrow> wp (ts_expect ty) Q s"
  by (simp add: wp_def ts_expect_def ts_panic_def)

lemma wp_expectd: "(ts_isd ty d s \<Longrightarrow> Q () s) \<Longrightarrow> wp (ts_expectd ty d) Q s"
  by (simp add: wp_def ts_expectd_def ts_panic_def)

lemma wp_eat:
  assumes "inv_ts s" "ty \<noteq> TypeEnd"
    "\<And>t s'. adv 1 s s' \<Longrightarrow> closed_loc s' (t_location t) \<Longrightarrow> t = ts_get s 0 \<Longrightarrow> t_type t = ty \<Longrightarrow>
      ts_index s' = ts_index s + 1 \<Longrightarrow> Q t s'"
  shows "wp (ts_eat ty) Q s"
  unfolding ts_eat_def
  by (intro wp_bind wp_expect)
    (use assms closed_loc_get [OF assms(1)] in
      \<open>auto simp: wp_def [of "\<lambda>s. Inr (ts_get s 0, s)"] ts_is_def intro!: wp_bind wp_move wp_unit\<close>)

lemma wp_eatd:
  assumes "inv_ts s" "ty \<noteq> TypeEnd" "\<And>s'. adv 1 s s' \<Longrightarrow> ts_isd ty d s \<Longrightarrow> Q () s'"
  shows "wp (ts_eatd ty d) Q s"
  unfolding ts_eatd_def
  by (intro wp_bind wp_expectd wp_move) (use assms in \<open>auto simp: ts_isd_def ts_is_def\<close>)

lemma wp_index: "Q (ts_index s) s \<Longrightarrow> wp (\<lambda>s. Inr (ts_index s, s)) Q s"
  by (simp add: wp_def)

lemma wp_new_addr: "inv_ts s \<Longrightarrow> (\<And>a s'. adv 0 s s' \<Longrightarrow> ts_index s' = ts_index s \<Longrightarrow> Q a s') \<Longrightarrow>
   wp new_addr Q s"
  by (simp add: wp_def new_addr_def ts_arith)

lemma wp_new_Variable:
  "inv_ts s \<Longrightarrow> (\<And>a s'. adv 0 s s' \<Longrightarrow> ts_index s' = ts_index s \<Longrightarrow> Q a s') \<Longrightarrow>
   wp (new_Variable k nm t loc fn) Q s"
  by (simp add: wp_def new_Variable_def ts_arith Let_def)

lemma wp_new_Unknown: "inv_ts s \<Longrightarrow> (\<And>a s'. adv 0 s s' \<Longrightarrow> ts_index s' = ts_index s \<Longrightarrow> Q a s') \<Longrightarrow>
   wp new_Unknown Q s"
  unfolding new_Unknown_def by (intro wp_bind wp_new_addr wp_unit) auto

lemma wp_indent_of: "nat (l_line loc) < length (tk_lines (ts_tokens s)) \<Longrightarrow> (\<And>i. Q i s) \<Longrightarrow>
   wp (indent_of loc) Q s"
  by (simp add: wp_def indent_of_def liftP_def getLineIndent_def)

lemma wp_indent_here: "inv_ts s \<Longrightarrow> (\<And>i. Q i s) \<Longrightarrow> wp indent_here Q s"
  unfolding indent_here_def by (intro wp_bind wp_here wp_indent_of) (simp_all add: line_ok_get)

lemma wp_span:
  "loc_before a b \<Longrightarrow> (\<And>l. l_line l = l_line a \<Longrightarrow> l_source l = l_source b \<Longrightarrow>
     l_offset l + l_length l = l_offset b + l_length b \<Longrightarrow> Q l s) \<Longrightarrow>
   wp (liftP (\<lambda>_. Location_span a b)) Q s"
  by (simp add: wp_def liftP_def Location_span_def loc_before_def)

lemma inv_adv: "inv_ts s \<Longrightarrow> adv n s s' \<Longrightarrow> inv_ts s'"
  by (simp add: ts_arith)

text \<open>A parser that ends within the fuel \<open>k\<close> and consumes a token when it succeeds.\<close>

definition consumes :: "nat \<Rightarrow> 'a parser \<Rightarrow> bool" where
  "consumes k p = (\<forall>s. inv_ts s \<longrightarrow> rest s < k \<longrightarrow> wp p (\<lambda>x. adv 1 s) s)"

lemma consumesD:
  "consumes k p \<Longrightarrow> inv_ts s \<Longrightarrow> rest s < k \<Longrightarrow> (\<And>x s'. adv 1 s s' \<Longrightarrow> Q x s') \<Longrightarrow> wp p Q s"
  by (auto simp: consumes_def intro: wp_mono)

lemma consumesI: "(\<And>s. inv_ts s \<Longrightarrow> rest s < k \<Longrightarrow> wp p (\<lambda>x. adv 1 s) s) \<Longrightarrow> consumes k p"
  by (simp add: consumes_def)

lemma consumes_mono: "consumes k p \<Longrightarrow> k' \<le> k \<Longrightarrow> consumes k' p"
  by (auto simp: consumes_def)

lemmas wp_basic = wp_bind wp_unit wp_if wp_if_value wp_panic wp_here wp_move wp_expect wp_expectd
  wp_eat wp_eatd wp_new_addr wp_new_Variable wp_new_Unknown wp_indent_of wp_indent_here

section \<open>Loops\<close>

lemma wp_comma_loop:
  assumes "consumes k item" "inv_ts s" "rest s < j" "rest s < k"
    "\<And>x s'. adv 0 s s' \<Longrightarrow> Q x s'"
  shows "wp (comma_loop j close item) Q s"
  using assms(2-)
proof (induction j arbitrary: s Q)
  case (Suc j)
  show ?case
    unfolding comma_loop.simps
  proof (intro wp_if wp_bind wp_unit)
    show "wp item (\<lambda>x. wp (case x of None \<Rightarrow> unitP ([], True)
         | Some x \<Rightarrow> bindP (ifP close (unitP ()) (ts_eatd TypeAtom '','')) (\<lambda>_.
             bindP (comma_loop j close item) (\<lambda>(xs, b). unitP (x # xs, b)))) Q) s"
    proof (rule consumesD [OF assms(1) Suc.prems(1,3)])
      fix r s1 assume a: "adv 1 s s1"
      show "wp (case r of None \<Rightarrow> unitP ([], True)
         | Some x \<Rightarrow> bindP (ifP close (unitP ()) (ts_eatd TypeAtom '','')) (\<lambda>_.
             bindP (comma_loop j close item) (\<lambda>(xs, b). unitP (x # xs, b)))) Q s1"
      proof (cases r)
        case None
        then show ?thesis using a Suc.prems(4) by (auto intro!: wp_unit simp: ts_arith)
      next
        case (Some y)
        have Q: "Q x s'" if "adv 0 s1 s'" for x s'
          using Suc.prems(4) a that by (auto simp: ts_arith)
        show ?thesis
          unfolding Some option.case case_prod_unfold
          by (intro wp_basic Suc.IH)
            (use a Suc.prems(1-3) in \<open>auto intro!: Q simp: ts_arith\<close>)
      qed
    qed
  qed (use Suc.prems in \<open>simp_all add: ts_arith\<close>)
qed simp

lemma consumes_Some: "consumes k p \<Longrightarrow> consumes k (bindP p (\<lambda>x. unitP (Some x)))"
  by (rule consumesI) (intro wp_bind, erule consumesD, auto intro!: wp_unit)

lemma wp_comma_list:
  assumes "consumes k item" "inv_ts s" "rest s < j" "rest s < k" "\<And>x s'. adv 0 s s' \<Longrightarrow> Q x s'"
  shows "wp (comma_list j close item) Q s"
  unfolding comma_list_def case_prod_unfold
  by (intro wp_bind wp_comma_loop [OF consumes_Some [OF assms(1)]] wp_unit assms(2-))

lemma wp_indent_newline:
  assumes "inv_ts s" "\<And>x s'. adv 0 s s' \<Longrightarrow> Q x s'"
  shows "wp (parseIndent_newline nested a b) Q s"
  unfolding parseIndent_newline_def
  by (intro wp_basic) (use assms in \<open>auto simp: ts_arith ts_is_def\<close>)

lemma wp_indent_loop:
  assumes "consumes k f" "inv_ts s" "rest s < j" "rest s < k" "\<And>x s'. adv 0 s s' \<Longrightarrow> Q x s'"
  shows "wp (parseIndent_loop j nested a b f) Q s"
  using assms(2-)
proof (induction j arbitrary: s Q)
  case (Suc j)
  show ?case
    unfolding parseIndent_loop.simps
  proof (intro wp_if wp_bind wp_unit)
    show "wp f (\<lambda>x. wp (ifP (ts_is TypeEnd) (unitP [x])
           (bindP (parseIndent_newline nested a b) (\<lambda>more.
             if more then bindP (parseIndent_loop j nested a b f) (\<lambda>xs. unitP (x # xs))
             else unitP [x]))) Q) s"
    proof (rule consumesD [OF assms(1) Suc.prems(1,3)])
      fix x s1 assume a: "adv 1 s s1"
      have Q: "Q y s'" if "adv 0 s1 s'" for y s'
        using Suc.prems(4) a that by (auto simp: ts_arith)
      show "wp (ifP (ts_is TypeEnd) (unitP [x])
           (bindP (parseIndent_newline nested a b) (\<lambda>more.
             if more then bindP (parseIndent_loop j nested a b f) (\<lambda>xs. unitP (x # xs))
             else unitP [x]))) Q s1"
        by (intro wp_basic wp_indent_newline Suc.IH)
          (use a Suc.prems(1-3) in \<open>auto intro!: Q simp: ts_arith\<close>)
    qed
  qed (use Suc.prems in \<open>simp_all add: ts_arith\<close>)
qed simp

lemma wp_parseIndent:
  assumes "consumes k f" "inv_ts s" "rest s < j" "rest s < k"
    "\<And>loc. ind = Some loc \<Longrightarrow> nat (l_line loc) < length (tk_lines (ts_tokens s))"
    "\<And>x s'. adv 0 s s' \<Longrightarrow> Q x s'"
  shows "wp (parseIndent j ind f) Q s"
  unfolding parseIndent_def
  by (cases ind)
    (auto intro!: wp_basic wp_indent_loop [OF assms(1)] assms(2-))

section \<open>Types\<close>

lemma wp_typeArguments:
  assumes "consumes k pty" "inv_ts s" "rest s < Suc k" "\<And>x s'. adv 0 s s' \<Longrightarrow> Q x s'"
  shows "wp (parseTypeArguments k pty) Q s"
  unfolding parseTypeArguments_def
  by (intro wp_basic wp_comma_list [OF assms(1)])
    (use assms(2,3) in \<open>auto intro!: assms(4) simp: ts_arith\<close>)

lemma consumes_vararg:
  assumes "consumes k p"
  shows "consumes k (ifP (ts_isd TypeAtom ''...'') (bindP ts_move (\<lambda>_. unitP None))
    (bindP p (\<lambda>t. unitP (Some t))))"
  by (rule consumesI, intro wp_basic consumesD [OF assms])
    (auto simp: ts_is_def ts_isd_def)

lemma wp_type_paren:
  assumes "consumes k pty" "inv_ts s" "rest s < Suc k" "\<And>x s'. adv 1 s s' \<Longrightarrow> Q x s'"
  shows "wp (parseType_paren k pty) Q s"
  unfolding parseType_paren_def
  by (intro wp_basic wp_comma_list [OF assms(1)])
    (use assms(2,3) in \<open>auto intro!: assms(4) simp: ts_arith\<close>)

lemma wp_type_fn:
  assumes "consumes k pty" "inv_ts s" "rest s < Suc k" "\<not> ts_is TypeEnd s"
    "\<And>x s'. adv 1 s s' \<Longrightarrow> Q x s'"
  shows "wp (parseType_fn k pty) Q s"
  unfolding parseType_fn_def case_prod_unfold
  by (intro wp_basic wp_comma_loop [OF consumes_vararg [OF assms(1)]] consumesD [OF assms(1)])
    (use assms(2-4) in \<open>auto intro!: assms(5) simp: ts_arith\<close>)

lemma wp_type_name:
  assumes "consumes k pty" "inv_ts s" "rest s < Suc k" "\<And>x s'. adv 1 s s' \<Longrightarrow> Q x s'"
  shows "wp (parseType_name k pty) Q s"
  unfolding parseType_name_def
  by (intro wp_basic wp_typeArguments [OF assms(1)])
    (use assms(2,3) in \<open>auto intro!: assms(4) simp: ts_arith\<close>)

lemma ts_isd_not_End [simp]: "ts_isd ty d s \<Longrightarrow> ty \<noteq> TypeEnd \<Longrightarrow> \<not> ts_is TypeEnd s"
  by (simp add: ts_isd_def ts_is_def)

lemma consumes_parseType: "consumes k (parseType k)"
proof (induction k)
  case (Suc k)
  show ?case
    by (rule consumesI, rule wp_eq, rule parseType.simps(2))
      (intro wp_basic wp_type_paren [OF Suc] wp_type_fn [OF Suc] wp_type_name [OF Suc]
        consumesD [OF Suc], auto simp: ts_arith)
qed (simp add: consumes_def)

section \<open>Signatures, blocks and declarations\<close>

lemma wp_typeSignature:
  assumes "inv_ts s" "rest s < Suc k" "\<And>x s'. adv 0 s s' \<Longrightarrow> Q x s'"
  shows "wp (parseTypeSignature k) Q s"
proof -
  have item: "consumes k (bindP (ts_eat TypeIdent) (\<lambda>name.
      bindP new_addr (\<lambda>a. unitP (TyGeneric a (t_data name) (t_location name)))))"
    by (rule consumesI, intro wp_basic) (auto simp: ts_arith)
  show ?thesis
    unfolding parseTypeSignature_def
    by (intro wp_basic wp_comma_list [OF item])
      (use assms(1,2) in \<open>auto intro!: assms(3) simp: ts_arith\<close>)
qed

lemma wp_typeAscription:
  assumes "inv_ts s" "rest s < Suc k" "\<And>x s'. adv 0 s s' \<Longrightarrow> Q x s'"
  shows "wp (parseTypeAscription k) Q s"
  unfolding parseTypeAscription_def
  by (intro wp_basic consumesD [OF consumes_parseType])
    (use assms(1,2) in \<open>auto intro!: assms(3) simp: ts_arith\<close>)

lemma wp_fnSignature:
  assumes "inv_ts s" "rest s < Suc k" "\<And>x s'. adv 1 s s' \<Longrightarrow> Q x s'"
  shows "wp (parseFnSignature k) Q s"
proof -
  have item: "consumes k (ifP (ts_isd TypeAtom ''...'') (bindP ts_move (\<lambda>_. unitP None))
     (bindP (ts_eat TypeIdent) (\<lambda>argname.
      bindP (parseTypeAscription k) (\<lambda>t.
      bindP (new_Variable KindArgument (t_data argname) t (t_location argname) False) (\<lambda>v.
        unitP (Some (v, t)))))))"
    by (rule consumesI, intro wp_basic wp_typeAscription) (auto simp: ts_arith)
  show ?thesis
    unfolding parseFnSignature_def case_prod_unfold
    by (intro wp_basic wp_comma_loop [OF item] wp_typeAscription)
      (use assms(1,2) in \<open>auto intro!: assms(3) simp: ts_arith\<close>)
qed

lemma wp_block:
  assumes "consumes k pe" "inv_ts s" "rest s < k"
    "\<And>loc. ind = Some loc \<Longrightarrow> nat (l_line loc) < length (tk_lines (ts_tokens s))"
    "\<And>x s'. adv 0 s s' \<Longrightarrow> Q x s'"
  shows "wp (parseBlock k pe ind) Q s"
  unfolding parseBlock_def
  by (intro wp_basic wp_parseIndent [OF assms(1)]) (use assms in auto)

lemma wp_blockExpr:
  assumes "consumes k pe" "inv_ts s" "rest s < k"
    "\<And>loc. ind = Some loc \<Longrightarrow> nat (l_line loc) < length (tk_lines (ts_tokens s))"
    "\<And>x s'. adv 1 s s' \<Longrightarrow> Q x s'"
  shows "wp (parseBlockExpr k pe ind) Q s"
  unfolding parseBlockExpr_def
  by (intro wp_basic wp_block [OF assms(1)] consumesD [OF assms(1)])
    (use assms(2-4) in \<open>auto intro!: assms(5) simp: ts_arith ts_is_def\<close>)

lemma wp_fn:
  assumes "consumes k pe" "inv_ts s" "rest s < Suc k" "\<And>x s'. adv 1 s s' \<Longrightarrow> Q x s'"
  shows "wp (parseFn k pe) Q s"
  unfolding parseFn_def case_prod_unfold
  by (intro wp_basic wp_fnSignature wp_blockExpr [OF assms(1)] wp_index)
    (use assms(2,3) line_ok_get [OF assms(2)] in \<open>auto intro!: assms(4) simp: ts_arith\<close>)

lemma wp_fnBody:
  assumes "consumes k pe" "inv_ts s" "rest s < Suc k"
    "\<And>loc. ind = Some loc \<Longrightarrow> nat (l_line loc) < length (tk_lines (ts_tokens s))"
    "\<And>x s'. adv 1 s s' \<Longrightarrow> Q x s'"
  shows "wp (parseFnBody k pe ind) Q s"
  unfolding parseFnBody_def
  by (intro wp_basic wp_block [OF assms(1)])
    (use assms(2-4) in \<open>auto intro!: assms(5) simp: ts_arith\<close>)

lemma wp_attribute:
  assumes "inv_ts s" "\<And>x s'. adv 0 s s' \<Longrightarrow> Q x s'"
  shows "wp (parse_attribute w fl att) Q s"
  unfolding parse_attribute_def
  by (intro wp_basic) (use assms in \<open>auto simp: ts_arith\<close>)

lemma wp_fnDecl:
  assumes "consumes k pe" "inv_ts s" "rest s < Suc k" "\<And>x s'. adv 1 s s' \<Longrightarrow> Q x s'"
  shows "wp (parseFnDecl k pe) Q s"
  unfolding parseFnDecl_def case_prod_unfold
  by (intro wp_basic wp_attribute wp_typeSignature wp_fnSignature wp_fnBody [OF assms(1)])
    (use assms(2,3) line_ok_get [OF assms(2)] in \<open>auto intro!: assms(4) simp: ts_arith\<close>)

lemma wp_varDecl:
  assumes "consumes k pe" "inv_ts s" "rest s < Suc k" "\<And>x s'. adv 1 s s' \<Longrightarrow> Q x s'"
  shows "wp (parseVarDecl k pe) Q s"
  unfolding parseVarDecl_def
  by (intro wp_basic wp_typeAscription consumesD [OF assms(1)])
    (use assms(2,3) in \<open>auto intro!: assms(4) simp: ts_arith\<close>)

lemma wp_field_names:
  "inv_ts s \<Longrightarrow> rest s < k \<Longrightarrow> (\<And>x s'. adv 1 s s' \<Longrightarrow> Q x s') \<Longrightarrow> wp (parse_field_names k) Q s"
proof (induction k arbitrary: s Q)
  case (Suc k)
  show ?case
    unfolding parse_field_names.simps
    by (intro wp_basic Suc.IH) (use Suc.prems(1,2) in \<open>auto intro!: Suc.prems(3) simp: ts_arith\<close>)
qed simp

lemma wp_struct_line:
  assumes "consumes k pe" "inv_ts s" "rest s < k" "\<And>x s'. adv 1 s s' \<Longrightarrow> Q x s'"
  shows "wp (parse_struct_line k pe) Q s"
  unfolding parse_struct_line_def
  by (intro wp_basic wp_field_names consumesD [OF consumes_parseType] consumesD [OF assms(1)])
    (use assms(2,3) in \<open>auto intro!: assms(4) simp: ts_arith\<close>)

lemma consumes_struct_line: "consumes k pe \<Longrightarrow> consumes k (parse_struct_line k pe)"
  by (rule consumesI) (rule wp_struct_line)

lemma wp_structDecl:
  assumes "consumes k pe" "inv_ts s" "rest s < Suc k" "\<And>x s'. adv 1 s s' \<Longrightarrow> Q x s'"
  shows "wp (parseStructDecl k pe) Q s"
  unfolding parseStructDecl_def
  by (intro wp_basic wp_typeSignature wp_parseIndent [OF consumes_struct_line [OF assms(1)]])
    (use assms(2,3) line_ok_get [OF assms(2)] in \<open>auto intro!: assms(4) simp: ts_arith\<close>)

lemma wp_import_path:
  "inv_ts s \<Longrightarrow> rest s < k \<Longrightarrow> closed_loc s loc \<Longrightarrow> (\<And>x s'. adv 0 s s' \<Longrightarrow> Q x s') \<Longrightarrow>
   wp (parse_import_path k path loc) Q s"
proof (induction k arbitrary: s path loc Q)
  case (Suc k)
  show ?case
    unfolding parse_import_path.simps
  proof (intro wp_basic)
    fix s1 t s2
    assume a: "adv 1 s s1" "adv 1 s1 s2" "closed_loc s2 (t_location t)" "t = ts_get s1 0"
      "t_type t = TypeIdent"
    have b: "loc_before loc (t_location t)"
      using before_get [OF closed_loc_adv [OF Suc.prems(3) a(1)] a(2)] a(4,5) by simp
    show "wp (liftP (\<lambda>_. Location_span loc (t_location t)))
        (\<lambda>l. wp (parse_import_path k (path @ ''.'' @ t_data t) l) Q) s2"
    proof (rule wp_span [OF b])
      fix l :: location assume l: "l_line l = l_line loc" "l_source l = l_source (t_location t)"
        "l_offset l + l_length l = l_offset (t_location t) + l_length (t_location t)"
      have "closed_loc s2 l"
        using a(1,2,3) l Suc.prems(3) by (auto simp: closed_loc_def loc_before_def adv_def)
      then show "wp (parse_import_path k (path @ ''.'' @ t_data t) l) Q s2"
        using a(1,2) Suc.prems(1,2,4) by (intro Suc.IH) (auto simp: ts_arith)
    qed
  qed (use Suc.prems in \<open>auto simp: ts_arith\<close>)
qed simp

lemma wp_import:
  assumes "inv_ts s" "rest s < Suc k" "\<And>x s'. adv 1 s s' \<Longrightarrow> Q x s'"
  shows "wp (parseImport k) Q s"
  unfolding parseImport_def case_prod_unfold
  by (intro wp_basic wp_import_path) (use assms(1,2) in \<open>auto intro!: assms(3) simp: ts_arith\<close>)

section \<open>Expressions\<close>

lemma wp_span_end:
  assumes "closed_loc s start" "adv 1 s s'" "ts_isd TypeBracket d s" "\<And>l. Q l s'"
  shows "wp (liftP (\<lambda>_. Location_span start (t_location (ts_get s 0)))) Q s'"
  using before_get [OF assms(1,2)] assms(3,4) by (intro wp_span) (auto simp: ts_isd_def)

lemma wp_call:
  assumes "consumes k pe" "inv_ts s" "rest s < Suc k" "closed_loc s start"
    "\<And>x s'. adv 1 s s' \<Longrightarrow> Q x s'"
  shows "wp (parseCall k pe expr start self) Q s"
  unfolding parseCall_def
  by (intro wp_basic wp_comma_list [OF assms(1)] wp_span_end)
    (use assms(2,3) in \<open>auto intro!: assms(5) closed_loc_adv [OF assms(4), where n = 0] simp: ts_arith\<close>)

lemma wp_parseIndex:
  assumes "consumes k pe" "inv_ts s" "rest s < Suc k" "\<And>x s'. adv 1 s s' \<Longrightarrow> Q x s'"
  shows "wp (parseIndex pe expr) Q s"
  unfolding parseIndex_def
  by (intro wp_basic consumesD [OF assms(1)]) (use assms(2,3) in \<open>auto intro!: assms(4) simp: ts_arith\<close>)

lemma wp_ident:
  assumes "inv_ts s" "rest s < Suc k" "\<And>x s'. adv 1 s s' \<Longrightarrow> Q x s'"
  shows "wp (parseIdent k) Q s"
  unfolding parseIdent_def
  by (intro wp_basic wp_typeArguments [OF consumes_parseType])
    (use assms(1,2) in \<open>auto intro!: assms(3) simp: ts_arith\<close>)

lemma wp_assign:
  assumes "consumes k pe" "inv_ts s" "rest s < Suc k" "\<And>x s'. adv 1 s s' \<Longrightarrow> Q x s'"
  shows "wp (parseAssign pe expr) Q s"
  unfolding parseAssign_def
  by (intro wp_basic consumesD [OF assms(1)]) (use assms(2,3) in \<open>auto intro!: assms(4) simp: ts_arith\<close>)

lemma wp_ifExpr:
  assumes "consumes k pe" "inv_ts s" "rest s < Suc k" "\<And>x s'. adv 1 s s' \<Longrightarrow> Q x s'"
  shows "wp (parseIf k pe) Q s"
  unfolding parseIf_def
  by (intro wp_basic wp_blockExpr [OF assms(1)] consumesD [OF assms(1)])
    (use assms(2,3) line_ok_get [OF assms(2)] in \<open>auto intro!: assms(4) simp: ts_arith\<close>)

lemma wp_for:
  assumes "consumes k pe" "inv_ts s" "rest s < Suc k" "\<And>x s'. adv 1 s s' \<Longrightarrow> Q x s'"
  shows "wp (parseFor k pe) Q s"
  unfolding parseFor_def
  by (intro wp_basic wp_blockExpr [OF assms(1)] consumesD [OF assms(1)])
    (use assms(2,3) line_ok_get [OF assms(2)] in \<open>auto intro!: assms(4) simp: ts_arith\<close>)

lemma wp_while:
  assumes "consumes k pe" "inv_ts s" "rest s < Suc k" "\<And>x s'. adv 1 s s' \<Longrightarrow> Q x s'"
  shows "wp (parseWhile k pe) Q s"
  unfolding parseWhile_def
  by (intro wp_basic wp_blockExpr [OF assms(1)] consumesD [OF assms(1)])
    (use assms(2,3) line_ok_get [OF assms(2)] in \<open>auto intro!: assms(4) simp: ts_arith\<close>)

lemma wp_literalArray:
  assumes "consumes k pe" "inv_ts s" "rest s < Suc k" "\<And>x s'. adv 1 s s' \<Longrightarrow> Q x s'"
  shows "wp (parseLiteralArray k pe) Q s"
  unfolding parseLiteralArray_def
  by (intro wp_basic wp_comma_list [OF assms(1)]) (use assms(2,3) in \<open>auto intro!: assms(4) simp: ts_arith\<close>)

lemma consumes_struct_init:
  assumes "consumes k pe"
  shows "consumes k (parse_struct_init pe)"
  unfolding parse_struct_init_def
  by (rule consumesI, intro wp_basic consumesD [OF assms]) (auto simp: ts_arith)

lemma wp_literalStruct:
  assumes "consumes k pe" "inv_ts s" "rest s < Suc k" "\<And>x s'. adv 1 s s' \<Longrightarrow> Q x s'"
  shows "wp (parseLiteralStruct k pe) Q s"
  unfolding parseLiteralStruct_def
  by (intro wp_basic wp_comma_list [OF consumes_struct_init [OF assms(1)]]
      wp_typeArguments [OF consumes_parseType])
    (use assms(2,3) in \<open>auto intro!: assms(4) simp: ts_arith\<close>)

lemma wp_number:
  assumes "inv_ts s" "\<And>x s'. adv 1 s s' \<Longrightarrow> Q x s'"
  shows "wp parseNumber Q s"
  unfolding parseNumber_def
proof (intro wp_basic)
  fix t s1 assume a: "adv 1 s s1"
  show "wp (liftP (\<lambda>_. parseNumber_value (t_location t) (t_data t))) Q s1"
    using assms(2) [OF a]
    by (auto simp: wp_def liftP_def parseNumber_value_def Let_def case_prod_unfold bindR_def)
qed (use assms in auto)

lemma wp_paren_expr:
  assumes "consumes k pe" "inv_ts s" "rest s < Suc k" "\<not> ts_is TypeEnd s"
    "\<And>x s'. adv 1 s s' \<Longrightarrow> Q x s'"
  shows "wp (parse_paren_expr k pe) Q s"
  unfolding parse_paren_expr_def
  by (intro wp_basic wp_comma_list [OF assms(1)] wp_span_end)
    (use assms(2-4) closed_loc_get [OF assms(2)] in
      \<open>auto intro!: assms(5) intro: closed_loc_adv [where n = 0] simp: ts_arith\<close>)

lemma wp_term:
  assumes "consumes k pe" "inv_ts s" "rest s < Suc k" "\<And>x s'. adv 1 s s' \<Longrightarrow> Q x s'"
  shows "wp (parseTerm k pe) Q s"
  unfolding parseTerm_def parse_bool_def
  by (intro wp_basic wp_number wp_literalStruct [OF assms(1)] wp_literalArray [OF assms(1)] wp_ident
      wp_paren_expr [OF assms(1)] wp_panic_at)
    (use assms(2,3) in \<open>auto intro!: assms(4)\<close>)

text \<open>The member parser steps back over the name and parses it again with its type arguments.\<close>

lemma wp_back: "Q () (s\<lparr>ts_index := ts_index s - 1\<rparr>) \<Longrightarrow> wp ts_back Q s"
  by (simp add: wp_def ts_back_def)

lemma wp_member:
  assumes "consumes k pe" "inv_ts s" "rest s < Suc k" "\<And>x s'. adv 1 s s' \<Longrightarrow> Q x s'"
  shows "wp (parseMember k pe expr) Q s"
  unfolding parseMember_def
proof (intro wp_basic wp_back)
  fix s1 t s2
  assume a: "adv 1 s s1" "adv 1 s1 s2" "ts_index s2 = ts_index s1 + 1" and cl: "closed_loc s2 (t_location t)"
  let ?s = "s2\<lparr>ts_index := ts_index s2 - 1\<rparr>"
  have s: "inv_ts ?s" "rest ?s < Suc k" "adv 1 s ?s"
    using a assms(2,3) by (auto simp: ts_arith)
  show "wp (parseIdent k) (\<lambda>m. wp (parseCall k pe m (t_location t) (Some expr)) Q) ?s"
  proof (rule wp_ident [OF s(1,2)])
    fix m s3 assume b: "adv 1 ?s s3"
    have "adv 0 s2 s3" using b a(3) by (auto simp: ts_arith)
    from closed_loc_adv [OF cl this]
    show "wp (parseCall k pe m (t_location t) (Some expr)) Q s3"
      by (intro wp_call [OF assms(1)]) (use a b assms(2,3) in \<open>auto intro!: assms(4) simp: ts_arith\<close>)
  qed
qed (use assms(2,3) in \<open>auto intro!: assms(4) simp: ts_arith\<close>)

lemma wp_postfix:
  "consumes k pe \<Longrightarrow> inv_ts s \<Longrightarrow> rest s < k \<Longrightarrow> closed_loc s start \<Longrightarrow>
   (\<And>x s'. adv 0 s s' \<Longrightarrow> Q x s') \<Longrightarrow> wp (parse_postfix k pe start term) Q s"
proof (induction k arbitrary: s "term" Q)
  case (Suc k)
  have pe: "consumes k pe" using Suc.prems(1) by (rule consumes_mono) simp
  have go: "wp (parse_postfix k pe start x) Q s'" if a: "adv 1 s s'" for x s'
    using a Suc.prems(2,3)
    by (intro Suc.IH pe closed_loc_adv [OF Suc.prems(4) a] Suc.prems(5)) (auto simp: ts_arith)
  show ?case
    unfolding parse_postfix.simps
    by (intro wp_basic wp_call [OF pe] wp_parseIndex [OF pe] wp_member [OF pe] go)
      (use Suc.prems in \<open>auto simp: ts_arith\<close>)
qed simp

lemma wp_term_expr:
  assumes "consumes k pe" "inv_ts s" "rest s < Suc k" "\<And>x s'. adv 1 s s' \<Longrightarrow> Q x s'"
  shows "wp (parse_term_expr k pe) Q s"
  unfolding parse_term_expr_def
  by (intro wp_basic wp_term [OF assms(1)] wp_postfix [OF assms(1)] wp_assign [OF assms(1)])
    (use assms(2,3) closed_loc_get [OF assms(2)] in \<open>auto intro!: assms(4) simp: ts_arith\<close>)

lemma wp_statement:
  assumes "consumes k pe" "inv_ts s" "rest s < Suc k" "\<And>x s'. adv 1 s s' \<Longrightarrow> Q x s'"
  shows "wp (parse_statement k pe) Q s"
  unfolding parse_statement_def
  by (intro wp_basic wp_fnDecl [OF assms(1)] wp_fn [OF assms(1)] wp_varDecl [OF assms(1)]
      wp_structDecl [OF assms(1)] wp_import wp_ifExpr [OF assms(1)] wp_for [OF assms(1)]
      wp_while [OF assms(1)] wp_term_expr [OF assms(1)])
    (use assms in auto)

lemma unary_not_End: "od_priority (parseUnaryOp s) \<noteq> 0 \<Longrightarrow> \<not> ts_is TypeEnd s"
  by (auto simp: parseUnaryOp_def OpDef_def ts_is_def ts_isd_def split: if_splits)

lemma consumes_primary: "consumes k pe \<Longrightarrow> consumes (Suc k) (parsePrimary k pe)"
proof (induction k)
  case 0
  have "wp (parsePrimary 0 pe) (\<lambda>x. adv 1 s) s" if s: "inv_ts s" "rest s < Suc 0" for s
  proof (rule wp_eq)
    show "parsePrimary 0 pe s = parse_statement 0 pe s"
      using s unary_not_End [of s]
      by (auto simp: parsePrimary.simps [of 0] Let_def ts_is_def ts_get_def kEnd_def ts_arith)
    show "wp (parse_statement 0 pe) (\<lambda>x. adv 1 s) s"
      using s by (intro wp_statement [OF 0])
  qed
  then show ?case by (rule consumesI)
next
  case (Suc k)
  have pe: "consumes k pe" using Suc.prems by (rule consumes_mono) simp
  have "wp (parsePrimary (Suc k) pe) (\<lambda>x. adv 1 s) s" if s: "inv_ts s" "rest s < Suc (Suc k)" for s
  proof (cases "od_priority (parseUnaryOp s) \<noteq> 0")
    case True
    show ?thesis
      by (rule wp_eq [where q = "bindP ts_here (\<lambda>start. bindP ts_move (\<lambda>_.
            bindP (parsePrimary k pe) (\<lambda>expr. unitP (lowerUnaryOp (parseUnaryOp s) expr start))))"],
          use True in \<open>simp add: parsePrimary.simps [of "Suc k"] Let_def\<close>)
        (intro wp_basic consumesD [OF Suc.IH [OF pe]],
          use s unary_not_End [OF True] in \<open>auto simp: ts_arith\<close>)
  next
    case False
    show ?thesis
      by (rule wp_eq [where q = "parse_statement (Suc k) pe"],
          use False in \<open>simp add: parsePrimary.simps [of "Suc k"] Let_def\<close>)
        (intro wp_statement [OF Suc.prems] s)
  qed
  then show ?case by (rule consumesI)
qed

lemma binary_not_End:
  assumes "od_priority (parseBinaryOp s) \<noteq> 0"
  shows "\<not> ts_is TypeEnd s"
proof
  assume "ts_is TypeEnd s"
  moreover have "map_of binary_ops (TypeEnd, d) = None" for d by (simp add: binary_ops_def)
  ultimately show False using assms by (simp add: parseBinaryOp_def ts_is_def OpDef_def)
qed

text \<open>The climb consumes an operator and an operand when it starts at an operator it takes.\<close>

lemma wp_climb:
  "consumes K pp \<Longrightarrow> inv_ts s \<Longrightarrow> rest s < k \<Longrightarrow> rest s < K \<Longrightarrow>
     (\<And>x s'. adv (if od_priority (parseBinaryOp s) \<noteq> 0 \<and> od_priority (parseBinaryOp s) \<ge> limit
        then 2 else 0) s s' \<Longrightarrow> Q x s') \<Longrightarrow> wp (parseExprClimb k pp left limit) Q s"
  "consumes K pp \<Longrightarrow> inv_ts s \<Longrightarrow> rest s + 1 < k \<Longrightarrow> rest s < K \<Longrightarrow>
     (\<And>x s'. adv 0 s s' \<Longrightarrow> Q x s') \<Longrightarrow> wp (parseExprClimb_right k pp prio right) Q s"
proof (induction k pp left limit and k pp prio right arbitrary: s Q and s Q
    rule: parseExprClimb_parseExprClimb_right.induct)
  case (2 k pp left limit)
  let ?op = "parseBinaryOp s"
  let ?q = "bindP ts_here (\<lambda>start. bindP ts_move (\<lambda>_. bindP pp (\<lambda>right.
            bindP (parseExprClimb_right k pp (od_priority ?op) right) (\<lambda>right'.
              parseExprClimb k pp (lowerBinaryOp ?op left right' start) limit))))"
  show ?case
  proof (cases "od_priority ?op \<noteq> 0 \<and> od_priority ?op \<ge> limit")
    case True
    show ?thesis
    proof (rule wp_eq [where q = ?q])
      show "parseExprClimb (Suc k) pp left limit s =
          ?q s"
        using True by (simp add: Let_def)
      show "wp ?q Q s"
        using "2.prems" True binary_not_End [of s]
        by (intro wp_basic consumesD [OF "2.prems"(1)] "2.IH" [OF refl True])
          (auto simp: ts_arith split: if_splits)
    qed
  qed (use "2.prems"(5) [where x = left and s' = s] "2.prems"(2) in \<open>auto simp: wp_def Let_def unitP_def ts_arith\<close>)
next
  case (4 k pp prio right)
  let ?op = "parseBinaryOp s"
  let ?q = "bindP (parseExprClimb k pp right (od_priority ?op)) (\<lambda>right'.
            parseExprClimb_right k pp prio right')"
  show ?case
  proof (cases "od_priority ?op \<noteq> 0 \<and> od_priority ?op > prio")
    case True
    show ?thesis
    proof (rule wp_eq [where q = ?q])
      show "parseExprClimb_right (Suc k) pp prio right s =
          ?q s"
        using True by (simp add: Let_def)
      show "wp ?q Q s"
        using "4.prems" True
        by (intro wp_bind "4.IH" [OF refl True]) (auto simp: ts_arith split: if_splits)
    qed
  qed (use "4.prems"(5) [where x = right and s' = s] "4.prems"(2) in \<open>auto simp: wp_def Let_def unitP_def ts_arith\<close>)
qed simp_all

lemma consumes_expr: "consumes k (parseExpr k)"
proof (induction k)
  case (Suc k)
  note pp = consumes_primary [OF Suc]
  show ?case
    by (rule consumesI, rule wp_eq, rule parseExpr.simps(2))
      (intro wp_bind consumesD [OF pp] wp_climb(1) [OF pp], auto simp: ts_arith split: if_splits)
qed (simp add: consumes_def)

section \<open>Streams of the tokenizer\<close>

lemma insertNewline_from_mem:
  "x \<in> set (insertNewline_from p ts) \<Longrightarrow> t_type x \<noteq> TypeLine \<Longrightarrow> x \<in> set ts"
  by (induction ts arbitrary: p) (auto split: if_splits)

lemma insertNewline_from_line:
  "x \<in> set (insertNewline_from p ts) \<Longrightarrow> t_type x = TypeLine \<Longrightarrow> \<forall>t \<in> set ts. t_type t \<noteq> TypeLine \<Longrightarrow>
   \<exists>q \<in> set (p # ts). x = getLineToken q"
  by (induction ts arbitrary: p) (auto split: if_splits)

lemma token_chain_offset: "token_chain d lo ts \<Longrightarrow> t \<in> set ts \<Longrightarrow> lo \<le> t_offset t"
  by (induction ts arbitrary: lo) (fastforce simp: token_ok_def)+

lemma token_at_offset: "token_ok d t \<Longrightarrow> t_offset t \<le> t_at t"
  by (auto simp: token_ok_def class_ok_def split: token_type.splits)

abbreviation before_code :: "token \<Rightarrow> token \<Rightarrow> bool" where
  "before_code \<equiv> \<lambda>a b. t_type b \<noteq> TypeLine \<longrightarrow> loc_before (t_location a) (t_location b)"

lemma insertNewline_from_sorted:
  "token_chain d lo (p # ts) \<Longrightarrow> \<forall>t \<in> set (p # ts). t_location t = true_location src d t \<Longrightarrow>
   sorted_wrt before_code (p # insertNewline_from p ts)"
proof (induction ts arbitrary: p lo)
  case (Cons t ts)
  from Cons.prems(1) have c: "token_ok d p" "token_chain d (t_end p) (t # ts)" by simp_all
  have at: "t_offset p + length (t_data p) \<le> t_end p"
    using token_at_offset [OF c(1)] by simp
  have src: "l_source (t_location x) = src \<and> t_end p \<le> l_offset (t_location x)"
    if "x \<in> set (t # insertNewline_from t ts)" "t_type x \<noteq> TypeLine" for x
  proof -
    have "x \<in> set (t # ts)" using that insertNewline_from_mem by auto
    with token_chain_offset [OF c(2) this] Cons.prems(2)
    have "t_location x = true_location src d x" "t_end p \<le> t_offset x" by auto
    then show ?thesis by (simp add: true_location_def Location_def)
  qed
  have p: "t_location p = true_location src d p" using Cons.prems(2) by simp
  have "t_offset p < t_end p" using c(1) by (simp add: token_ok_def)
  with src p have "\<forall>x \<in> set (t # insertNewline_from t ts). before_code p x"
    by (auto simp: loc_before_def true_location_def Location_def)
  moreover have "\<forall>x \<in> set (t # insertNewline_from t ts). before_code (getLineToken p) x"
  proof (intro ballI impI)
    fix x assume "x \<in> set (t # insertNewline_from t ts)" "t_type x \<noteq> TypeLine"
    with src [of x] at p show "loc_before (t_location (getLineToken p)) (t_location x)"
      by (simp add: loc_before_def true_location_def Location_def getLineToken_def Let_def)
  qed
  moreover have "sorted_wrt before_code (t # insertNewline_from t ts)"
    using Cons.IH [OF c(2)] Cons.prems(2) by simp
  ultimately show ?case by (simp add: getLineToken_type)
qed simp

lemma true_location_line:
  assumes "line_table d ls" "t_offset t < length d"
  shows "nat (l_line (true_location src d t)) < length ls"
proof -
  have "length ls = length (line_starts d)" using assms(1) by (metis length_map line_table_def)
  moreover have "length (filter (is_line_start d) [0..<Suc (t_offset t)]) \<le> length (line_starts d)"
    unfolding line_starts_def using assms(2) upt_split [of 0 "Suc (t_offset t)" "length d"]
    by (metis Suc_leI filter_append le_add1 length_append zero_le)
  ultimately show ?thesis
    using line_starts_count [of "t_offset t" d] assms(2)
    by (simp add: true_location_def Location_def)
qed

lemma tokenize_stream_ok:
  assumes "tokenize src d = Inr tk" "d \<noteq> []"
  shows "stream_ok tk"
proof (rule tokenize_Inr [OF assms(1)])
  fix ts
  assume tk: "tk_tokens tk = insertNewline ts" "token_chain d 0 ts"
    "\<forall>t \<in> set ts. t_location t = true_location src d t" "line_table d (tk_lines tk)"
    "\<forall>t \<in> set ts. t_type t \<noteq> TypeLine"
  have line: "nat (l_line (t_location t)) < length (tk_lines tk)" if "t \<in> set ts" for t
    using true_location_line [OF tk(4), of t src] tk(3) that token_chain_class [OF tk(2) that]
    by (simp add: token_ok_def)
  have "0 \<in> set (line_starts d)" using assms(2) by (simp add: line_starts_def is_line_start_def)
  then have "tk_lines tk \<noteq> []" using tk(4) by (auto simp: line_table_def)
  moreover have "t_type t \<noteq> TypeEnd \<and> nat (l_line (t_location t)) < length (tk_lines tk)"
    if "t \<in> set (insertNewline ts)" for t
  proof (cases "t_type t = TypeLine")
    case True
    with that tk(5) obtain q where "q \<in> set ts" "t = getLineToken q"
      by (cases ts) (auto simp: insertNewline_def dest: insertNewline_from_line)
    with line [of q] True show ?thesis by (simp add: getLineToken_def Let_def Location_def)
  next
    case False
    with that have "t \<in> set ts"
      by (cases ts) (auto simp: insertNewline_def dest: insertNewline_from_mem)
    with line [of t] token_chain_class [OF tk(2), of t] show ?thesis
      by (auto simp: token_ok_def class_ok_def)
  qed
  moreover have "sorted_wrt before_code (insertNewline ts)"
    using insertNewline_from_sorted [of d 0] tk(2,3) by (cases ts) (simp_all add: insertNewline_def)
  ultimately show ?thesis by (simp add: stream_ok_def tk(1))
qed

section \<open>Properties\<close>

lemma parse_stream_wp:
  assumes "stream_ok tk" "length (tk_tokens tk) < k"
  shows "case parse_stream k tk n vs of
      Inr (root, s) \<Rightarrow> ts_index s = length (tk_tokens tk) \<and> ts_tokens s = tk
    | Inl e \<Rightarrow> \<exists>loc msg. e = Panic loc msg"
proof -
  let ?s = "\<lparr>ts_tokens = tk, ts_index = 0, ts_next = n, ts_vars = vs\<rparr>"
  have "wp (bindP (parseBlock k (parseExpr k) None) (\<lambda>root.
      bindP (ts_expect TypeEnd) (\<lambda>_. unitP root)))
      (\<lambda>root s. ts_index s = length (tk_tokens tk) \<and> ts_tokens s = tk) ?s"
  proof (intro wp_bind wp_block [OF consumes_expr])
    fix root s assume a: "adv 0 ?s s"
    show "wp (ts_expect TypeEnd) (\<lambda>_. wp (unitP root)
        (\<lambda>root s. ts_index s = length (tk_tokens tk) \<and> ts_tokens s = tk)) s"
    proof (intro wp_expect wp_unit conjI)
      assume "ts_is TypeEnd s"
      then show "ts_index s = length (tk_tokens tk)"
        using a assms(1)
        by (fastforce simp: ts_is_def ts_get_def stream_ok_def ts_arith kEnd_def split: if_splits)
      show "ts_tokens s = tk" using a by (simp add: ts_arith)
    qed
  qed (use assms in \<open>auto simp: ts_arith\<close>)
  then show ?thesis by (simp add: wp_def parse_stream_def)
qed



end
