(* ===== verification/ParsePrecedence.thy ===== *)
theory ParsePrecedence
  imports ParseExpr
begin

text \<open>
  Operator precedence. A chain of operands and binary operators has exactly one tree in which no
  operator has a looser one to its left below it, nor one that is not tighter to its right below
  it; precedence climbing builds this tree and stops at the first token that is not an operator.
\<close>

section \<open>Operator trees\<close>

type_synonym chain_item = "binary_op op_def \<times> location \<times> ast"

datatype etree = Leaf ast | Op "binary_op op_def" location etree etree

fun build :: "etree \<Rightarrow> ast" where
  "build (Leaf a) = a"
| "build (Op d loc l r) = lowerBinaryOp d (build l) (build r) loc"

text \<open>The operands and operators of a tree from left to right: the first operand, then pairs.\<close>

fun first_operand :: "etree \<Rightarrow> ast" where
  "first_operand (Leaf a) = a"
| "first_operand (Op d loc l r) = first_operand l"

fun items :: "etree \<Rightarrow> chain_item list" where
  "items (Leaf a) = []"
| "items (Op d loc l r) = items l @ (d, loc, first_operand r) # items r"

fun root_ge :: "int \<Rightarrow> etree \<Rightarrow> bool" where
  "root_ge p (Leaf a) = True"
| "root_ge p (Op d loc l r) = (p \<le> od_priority d)"

fun prec_ok :: "etree \<Rightarrow> bool" where
  "prec_ok (Leaf a) = True"
| "prec_ok (Op d loc l r) =
     (prec_ok l \<and> prec_ok r \<and> root_ge (od_priority d) l \<and> root_ge (od_priority d + 1) r)"

lemma prec_ok_items: "prec_ok t \<Longrightarrow> root_ge p t \<Longrightarrow> \<forall>y \<in> set (items t). p \<le> od_priority (fst y)"
proof (induction t arbitrary: p)
  case (Op d loc l r)
  have "\<forall>y \<in> set (items l). od_priority d \<le> od_priority (fst y)"
    using Op.IH(1) [of "od_priority d"] Op.prems by simp
  moreover have "\<forall>y \<in> set (items r). od_priority d + 1 \<le> od_priority (fst y)"
    using Op.IH(2) [of "od_priority d + 1"] Op.prems by simp
  ultimately show ?case using Op.prems(2) by fastforce
qed simp

text \<open>The root is the last of the loosest operators, so the tree of a chain is unique.\<close>

lemma last_loosest_unique:
  assumes "xs @ (d, l, x) # ys = xs' @ (d', l', x') # (ys' :: chain_item list)"
    "\<forall>y \<in> set xs. od_priority d \<le> od_priority (fst y)"
    "\<forall>y \<in> set ys. od_priority d + 1 \<le> od_priority (fst y)"
    "\<forall>y \<in> set xs'. od_priority d' \<le> od_priority (fst y)"
    "\<forall>y \<in> set ys'. od_priority d' + 1 \<le> od_priority (fst y)"
  shows "xs = xs' \<and> (d, l, x) = (d', l', x') \<and> ys = ys'"
proof -
  from assms(1) obtain zs where
    "xs = xs' @ zs \<and> zs @ (d, l, x) # ys = (d', l', x') # ys' \<or>
     xs @ zs = xs' \<and> (d, l, x) # ys = zs @ (d', l', x') # ys'"
    by (auto simp: append_eq_append_conv2)
  then show ?thesis
  proof
    assume a: "xs = xs' @ zs \<and> zs @ (d, l, x) # ys = (d', l', x') # ys'"
    show ?thesis
    proof (cases zs)
      case (Cons z us)
      with a assms(2,5) have "od_priority d \<le> od_priority d'" "od_priority d' + 1 \<le> od_priority d" by auto
      then show ?thesis by simp
    qed (use a in simp)
  next
    assume a: "xs @ zs = xs' \<and> (d, l, x) # ys = zs @ (d', l', x') # ys'"
    show ?thesis
    proof (cases zs)
      case (Cons z us)
      with a assms(3,4) have "od_priority d' \<le> od_priority d" "od_priority d + 1 \<le> od_priority d'" by auto
      then show ?thesis by simp
    qed (use a in simp)
  qed
qed

lemma prec_unique:
  "prec_ok t \<Longrightarrow> prec_ok t' \<Longrightarrow> first_operand t = first_operand t' \<Longrightarrow> items t = items t' \<Longrightarrow> t = t'"
proof (induction t arbitrary: t')
  case (Leaf a)
  then show ?case by (cases t') auto
next
  case (Op d loc l r)
  show ?case
  proof (cases t')
    case t': (Op d' loc' l' r')
    have "items l = items l' \<and> (d, loc, first_operand r) = (d', loc', first_operand r') \<and> items r = items r'"
      using Op.prems t' by (intro last_loosest_unique prec_ok_items) simp_all
    with Op t' show ?thesis by auto
  qed (use Op.prems in auto)
qed

section \<open>Climbing\<close>

text \<open>A chain in the token stream: operators, each followed by an operand of the parser \<open>pp\<close>.\<close>

inductive chain :: "ast parser \<Rightarrow> token_stream \<Rightarrow> chain_item list \<Rightarrow> token_stream \<Rightarrow> bool"
  for pp :: "ast parser"
where
  chain_end: "chain pp s [] s"
| chain_op: "od_priority (parseBinaryOp s) \<noteq> 0 \<Longrightarrow> ts_move s = Inr ((), s1) \<Longrightarrow> pp s1 = Inr (x, s2) \<Longrightarrow>
    chain pp s2 its s3 \<Longrightarrow>
    chain pp s ((parseBinaryOp s, t_location (ts_get s 0), x) # its) s3"

lemma chain_append: "chain pp s xs s1 \<Longrightarrow> chain pp s1 ys s2 \<Longrightarrow> chain pp s (xs @ ys) s2"
  by (induction rule: chain.induct) (auto intro: chain.intros)

abbreviation op_prio :: "token_stream \<Rightarrow> int" where
  "op_prio s \<equiv> od_priority (parseBinaryOp s)"

lemma bindP_Inr: "bindP p f s = Inr y \<longleftrightarrow> (\<exists>x s1. p s = Inr (x, s1) \<and> f x s1 = Inr y)"
  by (auto simp: bindP_def bindR_eq_Inr)

lemma climb_correct:
  "parseExprClimb k pp left limit s = Inr (a, s') \<Longrightarrow> left = build lt \<Longrightarrow> prec_ok lt \<Longrightarrow>
     (op_prio s \<noteq> 0 \<Longrightarrow> root_ge (op_prio s) lt) \<Longrightarrow>
     \<exists>t its. a = build t \<and> prec_ok t \<and> first_operand t = first_operand lt \<and> items t = items lt @ its \<and>
       chain pp s its s' \<and> (op_prio s' = 0 \<or> op_prio s' < limit) \<and>
       (if op_prio s \<noteq> 0 \<and> limit \<le> op_prio s then root_ge limit t else t = lt)"
  "parseExprClimb_right k pp prio right s = Inr (a, s') \<Longrightarrow> right = build rt \<Longrightarrow> prec_ok rt \<Longrightarrow>
     root_ge (prio + 1) rt \<Longrightarrow> (op_prio s \<noteq> 0 \<Longrightarrow> root_ge (op_prio s) rt) \<Longrightarrow>
     \<exists>t its. a = build t \<and> prec_ok t \<and> root_ge (prio + 1) t \<and> first_operand t = first_operand rt \<and>
       items t = items rt @ its \<and> chain pp s its s' \<and> (op_prio s' = 0 \<or> op_prio s' \<le> prio)"
proof (induction k pp left limit and k pp prio right arbitrary: s a s' lt and s a s' rt
    rule: parseExprClimb_parseExprClimb_right.induct)
  case (2 k pp left limit)
  show ?case
  proof (cases "op_prio s \<noteq> 0 \<and> limit \<le> op_prio s")
    case True
    let ?op = "parseBinaryOp s" and ?loc = "t_location (ts_get s 0)"
    from "2.prems"(1) True obtain s1 x s2 rx s3 where
      mv: "ts_move s = Inr ((), s1)" and x: "pp s1 = Inr (x, s2)" and
      r: "parseExprClimb_right k pp (od_priority ?op) x s2 = Inr (rx, s3)" and
      rec: "parseExprClimb k pp (lowerBinaryOp ?op left rx ?loc) limit s3 = Inr (a, s')"
      by (auto simp: Let_def bindP_Inr ts_here_def)
    from "2.IH"(1) [OF refl True r, of "Leaf x"] obtain rt its where
      rt: "rx = build rt" "prec_ok rt" "root_ge (od_priority ?op + 1) rt" "first_operand rt = x"
        "items rt = its" "chain pp s2 its s3" "op_prio s3 = 0 \<or> op_prio s3 \<le> od_priority ?op"
      by auto
    let ?lt = "Op ?op ?loc lt rt"
    have "prec_ok ?lt" using "2.prems"(3,4) True rt by simp
    moreover have "op_prio s3 \<noteq> 0 \<Longrightarrow> root_ge (op_prio s3) ?lt" using rt(7) by simp
    moreover have "lowerBinaryOp ?op left rx ?loc = build ?lt" using "2.prems"(2) rt(1) by simp
    ultimately obtain t its' where
      t: "a = build t" "prec_ok t" "first_operand t = first_operand ?lt" "items t = items ?lt @ its'"
        "chain pp s3 its' s'" "op_prio s' = 0 \<or> op_prio s' < limit"
        "if op_prio s3 \<noteq> 0 \<and> limit \<le> op_prio s3 then root_ge limit t else t = ?lt"
      using "2.IH"(2) [OF refl True rec] by blast
    have "root_ge limit t" using t(7) True by (auto split: if_splits)
    moreover have "chain pp s ((?op, ?loc, x) # its @ its') s'"
      using chain.chain_op [of s s1 pp x s2 "its @ its'" s'] True mv x chain_append [OF rt(6) t(5)] by simp
    ultimately show ?thesis
      using t(1-4,6) rt(4,5) True by (intro exI [of _ t] exI [of _ "(?op, ?loc, x) # its @ its'"]) simp
  next
    case False
    with "2.prems" show ?thesis
      by (auto simp: Let_def unitP_def intro!: exI [of _ lt] chain_end)
  qed
next
  case (4 k pp prio right)
  show ?case
  proof (cases "op_prio s \<noteq> 0 \<and> prio < op_prio s")
    case True
    with "4.prems"(1) obtain rx s1 where
      c: "parseExprClimb k pp right (op_prio s) s = Inr (rx, s1)" and
      rec: "parseExprClimb_right k pp prio rx s1 = Inr (a, s')"
      by (auto simp: Let_def bindP_Inr)
    from "4.IH"(1) [OF refl True c "4.prems"(2,3,5)] True obtain t its where
      t: "rx = build t" "prec_ok t" "first_operand t = first_operand rt" "items t = items rt @ its"
        "chain pp s its s1" "op_prio s1 = 0 \<or> op_prio s1 < op_prio s" "root_ge (op_prio s) t"
      by auto
    have "root_ge (prio + 1) t" "op_prio s1 \<noteq> 0 \<Longrightarrow> root_ge (op_prio s1) t"
      using t(6,7) True by (cases t; auto)+
    with "4.IH"(2) [OF refl True rec t(1,2)] obtain u its' where
      "a = build u" "prec_ok u" "root_ge (prio + 1) u" "first_operand u = first_operand t"
        "items u = items t @ its'" "chain pp s1 its' s'" "op_prio s' = 0 \<or> op_prio s' \<le> prio"
      by blast
    with t show ?thesis
      by (intro exI [of _ u] exI [of _ "its @ its'"]) (auto intro: chain_append)
  next
    case False
    with "4.prems" show ?thesis
      by (auto simp: Let_def unitP_def intro!: exI [of _ rt] chain_end)
  qed
qed simp_all

lemma op_prio_nonneg: "op_prio s = 0 \<or> 2 \<le> op_prio s"
proof -
  have "\<forall>(k, d) \<in> set binary_ops. 2 \<le> od_priority d" by (simp add: binary_ops_def OpDef_def)
  then show ?thesis
    by (auto simp: parseBinaryOp_def OpDef_def split: option.splits dest: map_of_SomeD)
qed

text \<open>
  C12: An expression that parses is a chain of primary expressions and binary operators up to a token
  that is not an operator, and its tree is the one that precedence and left associativity allow
  for this chain: no other tree of the chain respects them.
\<close>

theorem parseExpr_precedence:
  assumes "parseExpr (Suc k) s = Inr (a, s')"
  shows "\<exists>x s1 its t. parsePrimary k (parseExpr k) s = Inr (x, s1) \<and>
    chain (parsePrimary k (parseExpr k)) s1 its s' \<and> od_priority (parseBinaryOp s') = 0 \<and>
    a = build t \<and> first_operand t = x \<and> items t = its \<and> prec_ok t \<and>
    (\<forall>u. prec_ok u \<and> first_operand u = x \<and> items u = its \<longrightarrow> u = t)"
proof -
  from assms obtain x s1 where x: "parsePrimary k (parseExpr k) s = Inr (x, s1)"
    and c: "parseExprClimb (Suc k) (parsePrimary k (parseExpr k)) x 0 s1 = Inr (a, s')"
    unfolding parseExpr.simps bindP_Inr by blast
  from climb_correct(1) [OF c, of "Leaf x"] obtain t its where
    t: "a = build t" "prec_ok t" "first_operand t = x" "items t = its"
      "chain (parsePrimary k (parseExpr k)) s1 its s'" "op_prio s' = 0 \<or> op_prio s' < 0"
    by auto
  with x op_prio_nonneg [of s'] prec_unique [of _ t] show ?thesis by (metis not_numeral_le_zero
        order_less_imp_le order_trans)
qed

definition demo_token :: "nat \<Rightarrow> token_type \<Rightarrow> string \<Rightarrow> token" where
  "demo_token i y d = \<lparr>t_type = y, t_data = d, t_at = i, t_offset = i, t_matching = 0,
     t_location = \<lparr>l_source = [], l_line = 0, l_column = int i, l_offset = i, l_length = 1\<rparr>\<rparr>"

text \<open>The tokens of \<open>a-b\<close>.\<close>

definition demo_stream :: token_stream where
  "demo_stream =
     \<lparr>ts_tokens = \<lparr>tk_lines = [\<lparr>indent = 0, ln_offset = 0\<rparr>],
        tk_tokens = [demo_token 0 TypeIdent ''a'', demo_token 1 TypeAtom ''-'', demo_token 2 TypeIdent ''b'',
          demo_token 3 TypeLine []]\<rparr>,
      ts_index = 0, ts_next = 0, ts_vars = []\<rparr>"

lemma parseExpr_precedence_witness:
  "\<exists>a s' t. parseExpr (Suc 1) demo_stream = Inr (a, s') \<and> ts_index s' = 3 \<and> a = build t \<and> prec_ok t"
proof -
  have "case parseExpr (Suc 1) demo_stream of Inr (a, s') \<Rightarrow> ts_index s' = 3 | Inl e \<Rightarrow> False" by code_simp
  then obtain a s' where r: "parseExpr (Suc 1) demo_stream = Inr (a, s')" "ts_index s' = 3"
    by (auto split: sum.splits simp del: parseExpr.simps)
  from parseExpr_precedence [OF r(1)] r show ?thesis by blast
qed

end
