(* ===== verification/ParseRoundtrip.thy ===== *)
theory ParseRoundtrip
  imports ParseExpr
begin

text \<open>
  Printing a type as tokens and parsing it gives the type back, up to the fresh addresses and the
  locations of its nodes.
\<close>

section \<open>Printing\<close>

type_synonym tok = "token_type \<times> str"

fun comma_toks :: "tok list list \<Rightarrow> tok list" where
  "comma_toks [] = []"
| "comma_toks [x] = x"
| "comma_toks (x # xs) = x @ (TypeAtom, '','') # comma_toks xs"

fun ty_toks :: "ty \<Rightarrow> tok list" where
  "ty_toks (TyUnknown a) = [(TypeIdent, ''_'')]"
| "ty_toks TyVoid = [(TypeIdent, ''void'')]"
| "ty_toks TyBool = [(TypeIdent, ''bool'')]"
| "ty_toks TyInteger = [(TypeIdent, ''int'')]"
| "ty_toks TyFloat = [(TypeIdent, ''float'')]"
| "ty_toks TyString = [(TypeIdent, ''string'')]"
| "ty_toks (TyTuple fs) =
     (TypeBracket, ''('') # comma_toks (map ty_toks fs) @ [(TypeBracket, '')'')]"
| "ty_toks (TyArray e) = (TypeBracket, ''['') # ty_toks e @ [(TypeBracket, '']'')]"
| "ty_toks (TyPointer e) = (TypeAtom, ''*'') # ty_toks e"
| "ty_toks (TyFunction as r v) =
     (TypeIdent, ''fn'') # (TypeBracket, ''('') #
     comma_toks (map ty_toks as @ (if v then [[(TypeAtom, ''...'')]] else [])) @
     (TypeBracket, '')'') # (TypeAtom, '':'') # ty_toks r"
| "ty_toks (TyInstance i nm loc as df gen) =
     (TypeIdent, nm) #
     (if as = [] then []
      else (TypeAtom, ''.<'') # comma_toks (map ty_toks as) @ [(TypeAtom, ''>'')])"
| "ty_toks (TyGeneric g nm loc) = []"

definition type_keywords :: "str list" where
  "type_keywords = [''_'', ''void'', ''bool'', ''int'', ''float'', ''string'', ''fn'']"

text \<open>The types a program can write: tuples have two fields or rst, names are not keywords.\<close>

fun printable :: "ty \<Rightarrow> bool" where
  "printable (TyTuple fs) = (2 \<le> length fs \<and> (\<forall>f \<in> set fs. printable f))"
| "printable (TyArray e) = printable e"
| "printable (TyPointer e) = printable e"
| "printable (TyFunction as r v) = ((\<forall>a \<in> set as. printable a) \<and> printable r)"
| "printable (TyInstance i nm loc as df gen) =
     (nm \<notin> set type_keywords \<and> df = None \<and> gen = None \<and> (\<forall>a \<in> set as. printable a))"
| "printable (TyGeneric g nm loc) = False"
| "printable _ = True"

fun anon :: "ty \<Rightarrow> ty" where
  "anon (TyUnknown a) = TyUnknown 0"
| "anon (TyTuple fs) = TyTuple (map anon fs)"
| "anon (TyArray e) = TyArray (anon e)"
| "anon (TyPointer e) = TyPointer (anon e)"
| "anon (TyFunction as r v) = TyFunction (map anon as) (anon r) v"
| "anon (TyInstance i nm loc as df gen) = TyInstance 0 nm Location0 (map anon as) df gen"
| "anon t = t"

section \<open>The stream as a list\<close>

definition ts_rest :: "token_stream \<Rightarrow> tok list" where
  "ts_rest s = map (\<lambda>t. (t_type t, t_data t)) (drop (ts_index s) (ts_toks s))"

definition adv :: "token_stream \<Rightarrow> token_stream" where
  "adv s = s\<lparr>ts_index := ts_index s + 1\<rparr>"

lemma ts_rest_get:
  "ts_rest s \<noteq> [] \<Longrightarrow> (t_type (ts_get s 0), t_data (ts_get s 0)) = hd (ts_rest s)"
  by (simp add: ts_rest_def ts_get_def hd_drop_conv_nth hd_map)

lemma ts_get_end: "ts_rest s = [] \<Longrightarrow> t_type (ts_get s 0) = TypeEnd"
  by (simp add: ts_rest_def ts_get_def kEnd_def)

named_theorems rest_simps \<open>the parser's primitives on the list of the tokens ahead\<close>

lemma ts_is_rest [rest_simps]:
  "y \<noteq> TypeEnd \<Longrightarrow> ts_is y s \<longleftrightarrow> ts_rest s \<noteq> [] \<and> fst (hd (ts_rest s)) = y"
  by (cases "ts_rest s = []") (auto simp: ts_is_def ts_get_end ts_rest_get [symmetric])

lemma ts_isd_rest [rest_simps]:
  "y \<noteq> TypeEnd \<Longrightarrow> ts_isd y d s \<longleftrightarrow> ts_rest s \<noteq> [] \<and> hd (ts_rest s) = (y, d)"
  by (cases "ts_rest s = []") (auto simp: ts_isd_def ts_get_end ts_rest_get [symmetric])

lemma ts_rest_adv [rest_simps]: "ts_rest (adv s) = tl (ts_rest s)"
  by (simp add: adv_def ts_rest_def ts_toks_def drop_Suc tl_drop map_tl [symmetric])

lemma ts_tokens_adv [rest_simps]: "ts_tokens (adv s) = ts_tokens s"
  by (simp add: adv_def)

lemma ts_move_rest [rest_simps]:
  "ts_rest s \<noteq> [] \<Longrightarrow> fst (hd (ts_rest s)) \<noteq> TypeEnd \<Longrightarrow> ts_move s = Inr ((), adv s)"
  using ts_rest_get [of s] by (auto simp: ts_move_def ts_is_def adv_def fst_def split: prod.splits)

lemma ts_eatd_rest [rest_simps]:
  "y \<noteq> TypeEnd \<Longrightarrow> ts_rest s \<noteq> [] \<Longrightarrow> hd (ts_rest s) = (y, d) \<Longrightarrow> ts_eatd y d s = Inr ((), adv s)"
  by (simp add: ts_eatd_def bindP_def ts_expectd_def ts_isd_rest ts_move_rest)

lemma ts_eat_rest [rest_simps]:
  "y \<noteq> TypeEnd \<Longrightarrow> ts_rest s \<noteq> [] \<Longrightarrow> fst (hd (ts_rest s)) = y \<Longrightarrow>
     ts_eat y s = Inr (ts_get s 0, adv s)"
  by (simp add: ts_eat_def bindP_def ts_expect_def ts_is_rest ts_move_rest unitP_def)

lemma new_addr_rest [rest_simps]:
  "ts_rest (s\<lparr>ts_next := a\<rparr>) = ts_rest s"
  by (simp add: ts_rest_def ts_toks_def)

lemmas parser_ops = bindP_def ifP_def unitP_def

section \<open>Lists of types\<close>

lemma ty_toks_hd: "printable t \<Longrightarrow> ty_toks t \<noteq> [] \<and> fst (hd (ty_toks t)) \<noteq> TypeEnd \<and>
  hd (ty_toks t) \<notin> {(TypeBracket, '')''), (TypeAtom, ''>''), (TypeAtom, ''...'')}"
  by (cases t) auto

definition next_ok :: "tok list \<Rightarrow> bool" where
  "next_ok rst = (rst = [] \<or> hd rst \<noteq> (TypeAtom, ''.<''))"

definition parses :: "ty parser \<Rightarrow> ty \<Rightarrow> bool" where
  "parses p t = (\<forall>s rst. ts_rest s = ty_toks t @ rst \<longrightarrow> next_ok rst \<longrightarrow>
     (\<exists>t' s'. p s = Inr (t', s') \<and> anon t' = anon t \<and> ts_rest s' = rst \<and> ts_tokens s' = ts_tokens s))"

lemma parsesD:
  assumes "parses p t" "ts_rest s = ty_toks t @ rst" "next_ok rst"
  obtains t' s' where "p s = Inr (t', s')" "anon t' = anon t" "ts_rest s' = rst" "ts_tokens s' = ts_tokens s"
  using assms unfolding parses_def by blast

text \<open>
  The comma loop over the tokens of \<open>ts\<close>, then \<open>...\<close> if \<open>v\<close>, up to the closing token. The item
  parser is the one of function types, that also knows \<open>...\<close>, or the one of types alone.
\<close>

definition dots :: "bool \<Rightarrow> tok list list" where
  "dots v = (if v then [[(TypeAtom, ''...'')]] else [])"

definition items_ok :: "ty option parser \<Rightarrow> ty parser \<Rightarrow> bool \<Rightarrow> bool" where
  "items_ok item pty v =
     ((\<forall>s. ts_rest s \<noteq> [] \<and> hd (ts_rest s) \<noteq> (TypeAtom, ''...'') \<longrightarrow>
         item s = bindP pty (\<lambda>t. unitP (Some t)) s) \<and>
      (v \<longrightarrow> (\<forall>s. ts_rest s \<noteq> [] \<and> hd (ts_rest s) = (TypeAtom, ''...'') \<longrightarrow> item s = Inr (None, adv s))))"

lemma ifP_not: "\<not> c s \<Longrightarrow> ifP c p q s = q s"
  by (simp add: ifP_def)

lemma comma_loop_step:
  assumes "\<not> close s" "item s = Inr (Some x, s1)"
    "ifP close (unitP ()) (ts_eatd TypeAtom '','') s1 = Inr ((), s2)"
    "comma_loop k close item s2 = Inr ((xs, b), s3)"
  shows "comma_loop (Suc k) close item s = Inr ((x # xs, b), s3)"
  using assms by (simp add: ifP_not [of close] bindP_def unitP_def)

lemma comma_loop_runs:
  assumes "items_ok item pty v" "\<forall>t \<in> set ts. parses pty t \<and> printable t" "length ts < k"
    "(cy, cd) \<in> {(TypeBracket, '')''), (TypeAtom, ''>'')}"
    "ts_rest s = comma_toks (map ty_toks ts @ dots v) @ (cy, cd) # rst"
  shows "\<exists>xs s'. comma_loop k (ts_isd cy cd) item s = Inr ((xs, v), s') \<and> map anon xs = map anon ts \<and>
    ts_rest s' = (cy, cd) # rst \<and> ts_tokens s' = ts_tokens s"
  using assms(2-)
proof (induction ts arbitrary: k s)
  case Nil
  then obtain j where k: "k = Suc j" by (cases k) auto
  have c: "cy \<noteq> TypeEnd" "(TypeAtom, ''...'') \<noteq> (cy, cd)" using Nil.prems(3) by auto
  show ?case
  proof (cases v)
    case True
    then show ?thesis
      using assms(1) Nil.prems(4) c unfolding k
      by (simp add: parser_ops rest_simps dots_def items_ok_def)
  next
    case False
    then show ?thesis
      using Nil.prems(4) c unfolding k by (simp add: parser_ops rest_simps dots_def)
  qed
next
  case (Cons t ts)
  then obtain j where k: "k = Suc j" "length ts < j" by (cases k) auto
  have c: "cy \<noteq> TypeEnd" using Cons.prems(3) by auto
  define tail where "tail = (if ts = [] \<and> \<not> v then (cy, cd) # rst
    else (TypeAtom, '','') # comma_toks (map ty_toks ts @ dots v) @ (cy, cd) # rst)"
  have s: "ts_rest s = ty_toks t @ tail"
    using Cons.prems(4) by (cases "map ty_toks ts @ dots v") (auto simp: tail_def dots_def split: if_splits)
  have nx: "next_ok tail" using Cons.prems(3) by (auto simp: tail_def next_ok_def)
  have hd: "ts_rest s \<noteq> []" "hd (ts_rest s) \<noteq> (cy, cd)" "hd (ts_rest s) \<noteq> (TypeAtom, ''...'')"
    using s ty_toks_hd [of t] Cons.prems(1,3) by auto
  obtain t' s1 where t': "pty s = Inr (t', s1)" "anon t' = anon t" "ts_rest s1 = tail"
      "ts_tokens s1 = ts_tokens s"
    using Cons.prems(1) s nx by (auto elim: parsesD)
  have item: "item s = Inr (Some t', s1)"
    using assms(1) hd t'(1) by (simp add: items_ok_def parser_ops)
  let ?s2 = "if ts = [] \<and> \<not> v then s1 else adv s1"
  have sep: "ifP (ts_isd cy cd) (unitP ()) (ts_eatd TypeAtom '','') s1 = Inr ((), ?s2)"
    using t'(3) Cons.prems(3) c by (auto simp: tail_def parser_ops rest_simps split: if_splits)
  have "ts_rest ?s2 = comma_toks (map ty_toks ts @ dots v) @ (cy, cd) # rst" "ts_tokens ?s2 = ts_tokens s"
    using t'(3,4) by (auto simp: tail_def rest_simps dots_def)
  then obtain xs s' where xs: "comma_loop j (ts_isd cy cd) item ?s2 = Inr ((xs, v), s')"
      "map anon xs = map anon ts" "ts_rest s' = (cy, cd) # rst" "ts_tokens s' = ts_tokens s"
    using Cons.IH [of j ?s2] Cons.prems(1,3) k(2) by auto
  have "comma_loop k (ts_isd cy cd) item s = Inr ((t' # xs, v), s')"
    unfolding k(1) by (rule comma_loop_step [OF _ item sep xs(1)]) (use hd c in \<open>simp add: rest_simps\<close>)
  with xs t' show ?case by auto
qed

lemma comma_list_runs:
  assumes "\<forall>t \<in> set ts. parses pty t \<and> printable t" "length ts < k"
    "(cy, cd) \<in> {(TypeBracket, '')''), (TypeAtom, ''>'')}"
    "ts_rest s = comma_toks (map ty_toks ts) @ (cy, cd) # rst"
  obtains xs s' where "comma_list k (ts_isd cy cd) pty s = Inr (xs, s')" "map anon xs = map anon ts"
    "ts_rest s' = (cy, cd) # rst" "ts_tokens s' = ts_tokens s"
proof -
  have "items_ok (bindP pty (\<lambda>x. unitP (Some x))) pty False" by (simp add: items_ok_def)
  from comma_loop_runs [OF this assms(1-3), of s rst] assms(4) obtain xs s' where
    "comma_loop k (ts_isd cy cd) (bindP pty (\<lambda>x. unitP (Some x))) s = Inr ((xs, False), s')"
    "map anon xs = map anon ts" "ts_rest s' = (cy, cd) # rst" "ts_tokens s' = ts_tokens s"
    by (auto simp: dots_def)
  then show ?thesis by (intro that [of xs s']) (simp_all add: comma_list_def bindP_def [of "comma_loop _ _ _"] unitP_def)
qed

lemma length_comma_toks:
  "\<forall>t \<in> set xs. t \<noteq> [] \<Longrightarrow> length xs \<le> length (comma_toks xs)"
  "t \<in> set xs \<Longrightarrow> length t \<le> length (comma_toks xs)"
proof (induction xs rule: comma_toks.induct)
  case (3 x y ys)
  { case 1 with 3 show ?case by (cases x) auto }
  { case 2 with 3 show ?case by auto }
qed (auto simp: Suc_le_eq)

section \<open>Types\<close>

lemma parse_args:
  assumes "\<forall>t \<in> set as. parses p t \<and> printable t" "length as < k" "next_ok rst"
    "ts_rest s = (if as = [] then [] else (TypeAtom, ''.<'') # comma_toks (map ty_toks as) @ [(TypeAtom, ''>'')]) @ rst"
  obtains xs s' where "parseTypeArguments k p s = Inr (xs, s')" "map anon xs = map anon as"
    "ts_rest s' = rst" "ts_tokens s' = ts_tokens s"
proof (cases "as = []")
  case True
  with assms(3,4) that [of "[]" s] show ?thesis
    by (auto simp: parseTypeArguments_def parser_ops rest_simps next_ok_def)
next
  case False
  with assms(4) have s: "ts_rest (adv s) = comma_toks (map ty_toks as) @ (TypeAtom, ''>'') # rst"
    by (simp add: rest_simps)
  obtain xs s' where "comma_list k (ts_isd TypeAtom ''>'') p (adv s) = Inr (xs, s')"
    "map anon xs = map anon as" "ts_rest s' = (TypeAtom, ''>'') # rst" "ts_tokens s' = ts_tokens (adv s)"
    by (rule comma_list_runs [OF assms(1,2) _ s]) auto
  with that [of xs "adv s'"] assms(4) False show ?thesis
    by (simp add: parseTypeArguments_def parser_ops rest_simps)
qed

lemma parse_tuple:
  assumes "2 \<le> length fs" "\<forall>t \<in> set fs. parses (parseType j) t \<and> printable t" "length fs < j"
  shows "parses (parseType (Suc j)) (TyTuple fs)"
  unfolding parses_def
proof (intro allI impI)
  fix s rst
  assume s: "ts_rest s = ty_toks (TyTuple fs) @ rst"
  then have r: "ts_rest (adv s) = comma_toks (map ty_toks fs) @ (TypeBracket, '')'') # rst"
    by (simp add: rest_simps)
  obtain xs s' where xs: "comma_list j (ts_isd TypeBracket '')'') (parseType j) (adv s) = Inr (xs, s')"
    "map anon xs = map anon fs" "ts_rest s' = (TypeBracket, '')'') # rst" "ts_tokens s' = ts_tokens (adv s)"
    by (rule comma_list_runs [OF assms(2,3) _ r]) auto
  moreover from this have "xs \<noteq> []" "length xs \<noteq> Suc 0"
    using assms(1) map_eq_imp_length_eq [OF xs(2)] by auto
  ultimately show "\<exists>t' s'. parseType (Suc j) s = Inr (t', s') \<and> anon t' = anon (TyTuple fs) \<and>
      ts_rest s' = rst \<and> ts_tokens s' = ts_tokens s"
    using s by (simp add: parser_ops rest_simps parseType_paren_def)
qed

lemma parse_instance:
  assumes "nm \<notin> set type_keywords" "\<forall>t \<in> set as. parses (parseType j) t \<and> printable t" "length as < j"
  shows "parses (parseType (Suc j)) (TyInstance i nm loc as None None)"
  unfolding parses_def
proof (intro allI impI)
  fix s rst
  assume s: "ts_rest s = ty_toks (TyInstance i nm loc as None None) @ rst" and r: "next_ok rst"
  then have "ts_rest (adv s) = (if as = [] then []
      else (TypeAtom, ''.<'') # comma_toks (map ty_toks as) @ [(TypeAtom, ''>'')]) @ rst"
    by (simp add: rest_simps)
  then obtain xs s' where "parseTypeArguments j (parseType j) (adv s) = Inr (xs, s')"
    "map anon xs = map anon as" "ts_rest s' = rst" "ts_tokens s' = ts_tokens (adv s)"
    by (rule parse_args [OF assms(2,3) r])
  then show "\<exists>t' s'. parseType (Suc j) s = Inr (t', s') \<and>
      anon t' = anon (TyInstance i nm loc as None None) \<and> ts_rest s' = rst \<and> ts_tokens s' = ts_tokens s"
    using s assms(1) ts_rest_get [of s]
    by (simp add: parser_ops rest_simps parseType_name_def type_keywords_def new_addr_def)
qed

lemma parse_array:
  assumes "parses (parseType j) e"
  shows "parses (parseType (Suc j)) (TyArray e)"
  unfolding parses_def
proof (intro allI impI)
  fix s rst
  assume s: "ts_rest s = ty_toks (TyArray e) @ rst"
  then have "ts_rest (adv s) = ty_toks e @ (TypeBracket, '']'') # rst" by (simp add: rest_simps)
  with assms obtain t' s' where "parseType j (adv s) = Inr (t', s')" "anon t' = anon e"
    "ts_rest s' = (TypeBracket, '']'') # rst" "ts_tokens s' = ts_tokens (adv s)"
    by (rule parsesD) (simp add: next_ok_def)
  then show "\<exists>t' s'. parseType (Suc j) s = Inr (t', s') \<and> anon t' = anon (TyArray e) \<and>
      ts_rest s' = rst \<and> ts_tokens s' = ts_tokens s"
    using s by (simp add: parser_ops rest_simps)
qed

lemma parse_pointer:
  assumes "parses (parseType j) e"
  shows "parses (parseType (Suc j)) (TyPointer e)"
  unfolding parses_def
proof (intro allI impI)
  fix s rst
  assume s: "ts_rest s = ty_toks (TyPointer e) @ rst" and r: "next_ok rst"
  then have "ts_rest (adv s) = ty_toks e @ rst" by (simp add: rest_simps)
  with assms obtain t' s' where "parseType j (adv s) = Inr (t', s')" "anon t' = anon e"
    "ts_rest s' = rst" "ts_tokens s' = ts_tokens (adv s)"
    using r by (rule parsesD)
  then show "\<exists>t' s'. parseType (Suc j) s = Inr (t', s') \<and> anon t' = anon (TyPointer e) \<and>
      ts_rest s' = rst \<and> ts_tokens s' = ts_tokens s"
    using s by (simp add: parser_ops rest_simps)
qed

definition fn_item :: "ty parser \<Rightarrow> ty option parser" where
  "fn_item p = ifP (ts_isd TypeAtom ''...'') (bindP ts_move (\<lambda>_. unitP None))
     (bindP p (\<lambda>t. unitP (Some t)))"

lemma parseType_at_fn:
  assumes "ts_rest s = (TypeIdent, ''fn'') # (TypeBracket, ''('') # r"
    "comma_loop j (ts_isd TypeBracket '')'') (fn_item (parseType j)) (adv (adv s)) = Inr ((xs, v), s1)"
    "ts_rest s1 = (TypeBracket, '')'') # (TypeAtom, '':'') # r'"
    "parseType j (adv (adv s1)) = Inr (t, s2)"
  shows "parseType (Suc j) s = Inr (TyFunction xs t v, s2)"
proof -
  have "parseType (Suc j) s = parseType_fn j (parseType j) s"
    using assms(1) by (simp add: ifP_def rest_simps)
  also have "\<dots> = Inr (TyFunction xs t v, s2)"
    unfolding parseType_fn_def fn_item_def [symmetric]
    using assms by (simp add: bindP_def unitP_def rest_simps del: parseType.simps)
  finally show ?thesis .
qed

lemma parse_function:
  assumes "\<forall>t \<in> set as. parses (parseType j) t \<and> printable t" "length as < j" "parses (parseType j) r"
  shows "parses (parseType (Suc j)) (TyFunction as r v)"
  unfolding parses_def
proof (intro allI impI)
  fix s rst
  assume s: "ts_rest s = ty_toks (TyFunction as r v) @ rst" and rst: "next_ok rst"
  then have a: "ts_rest (adv (adv s)) = comma_toks (map ty_toks as @ dots v) @ (TypeBracket, '')'') #
      (TypeAtom, '':'') # ty_toks r @ rst"
    by (simp add: rest_simps dots_def)
  have item: "items_ok (fn_item (parseType j)) (parseType j) v"
    by (simp add: items_ok_def fn_item_def parser_ops rest_simps del: parseType.simps)
  obtain xs s1 where
    xs: "comma_loop j (ts_isd TypeBracket '')'') (fn_item (parseType j)) (adv (adv s)) = Inr ((xs, v), s1)"
    "map anon xs = map anon as" "ts_rest s1 = (TypeBracket, '')'') # (TypeAtom, '':'') # ty_toks r @ rst"
    "ts_tokens s1 = ts_tokens (adv (adv s))"
    using comma_loop_runs [OF item assms(1,2) _ a] by auto
  have "ts_rest (adv (adv s1)) = ty_toks r @ rst" using xs(3) by (simp add: rest_simps)
  with assms(3) obtain r' s2 where r': "parseType j (adv (adv s1)) = Inr (r', s2)" "anon r' = anon r"
    "ts_rest s2 = rst" "ts_tokens s2 = ts_tokens (adv (adv s1))"
    using rst by (rule parsesD)
  from s have "ts_rest s = (TypeIdent, ''fn'') # (TypeBracket, ''('') # tl (tl (ts_rest s))" by simp
  from parseType_at_fn [OF this xs(1,3) r'(1)] xs r'
  show "\<exists>t' s'. parseType (Suc j) s = Inr (t', s') \<and> anon t' = anon (TyFunction as r v) \<and>
      ts_rest s' = rst \<and> ts_tokens s' = ts_tokens s"
    by (simp add: rest_simps)
qed

lemma list_fuel:
  assumes "\<forall>t \<in> set ts. printable t" "length (comma_toks (map ty_toks ts @ dots v)) < j"
  shows "length ts < j" "\<forall>t \<in> set ts. length (ty_toks t) < j"
proof -
  have "ty_toks t \<noteq> []" if "t \<in> set ts" for t using that assms(1) ty_toks_hd [of t] by simp
  then have "\<forall>x \<in> set (map ty_toks ts @ dots v). x \<noteq> []" by (auto simp: dots_def eq_commute [of "[]"])
  from length_comma_toks(1) [OF this] assms(2) show "length ts < j" by simp
  show "\<forall>t \<in> set ts. length (ty_toks t) < j"
  proof
    fix t
    assume "t \<in> set ts"
    then have "length (ty_toks t) \<le> length (comma_toks (map ty_toks ts @ dots v))"
      by (intro length_comma_toks(2)) simp
    with assms(2) show "length (ty_toks t) < j" by simp
  qed
qed

lemma parse_leaf:
  assumes "t \<in> {TyVoid, TyBool, TyInteger, TyFloat, TyString} \<or> (\<exists>a. t = TyUnknown a)" "0 < k"
  shows "parses (parseType k) t"
  using assms by (auto simp: gr0_conv_Suc parses_def parser_ops rest_simps new_Unknown_def new_addr_def)

lemma parseType_parses: "printable t \<Longrightarrow> length (ty_toks t) < k \<Longrightarrow> parses (parseType k) t"
proof (induction t arbitrary: k)
  case (TyTuple fs)
  then obtain j where k: "k = Suc j" by (cases k) auto
  from TyTuple k show ?case
    using list_fuel [of fs False j] by (auto simp: dots_def simp del: parseType.simps intro!: parse_tuple)
next
  case (TyInstance i nm loc as df gen)
  then obtain j where k: "k = Suc j" by (cases k) auto
  with TyInstance.prems have "length as < j" "\<forall>t \<in> set as. length (ty_toks t) < j"
    using list_fuel [of as False j] by (auto simp: dots_def split: if_splits)
  then show ?case using TyInstance k by (auto simp del: parseType.simps intro!: parse_instance)
next
  case (TyArray e)
  then obtain j where "k = Suc j" by (cases k) auto
  with TyArray show ?case by (auto simp del: parseType.simps intro!: parse_array)
next
  case (TyPointer e)
  then obtain j where "k = Suc j" by (cases k) auto
  with TyPointer show ?case by (auto simp del: parseType.simps intro!: parse_pointer)
next
  case (TyFunction as r v)
  then obtain j where k: "k = Suc j" by (cases k) auto
  with TyFunction.prems have "length as < j" "\<forall>t \<in> set as. length (ty_toks t) < j" "length (ty_toks r) < j"
    using list_fuel [of as v j] by (auto simp: dots_def)
  then show ?case using TyFunction k by (auto simp del: parseType.simps intro!: parse_function)
qed (simp_all add: parse_leaf)

text \<open>
  C14: Parsing the tokens a type is written with gives the type back, up to the fresh addresses and
  the source locations of its nodes, and leaves the tokens after it; a fuel of one more than its
  tokens is enough.
\<close>

theorem parseType_roundtrip:
  assumes "printable t" "ts_rest s = ty_toks t @ rst" "next_ok rst" "length (ty_toks t) < k"
  shows "\<exists>t' s'. parseType k s = Inr (t', s') \<and> anon t' = anon t \<and> ts_rest s' = rst"
  using parseType_parses [OF assms(1,4)] assms(2,3) by (auto elim: parsesD)

definition stream_of :: "tok list \<Rightarrow> token_stream" where
  "stream_of ds =
     \<lparr>ts_tokens = \<lparr>tk_lines = [],
        tk_tokens = map (\<lambda>(y, d). \<lparr>t_type = y, t_data = d, t_at = 0, t_offset = 0, t_matching = 0,
          t_location = Location0\<rparr>) ds\<rparr>,
      ts_index = 0, ts_next = 0, ts_vars = []\<rparr>"

definition demo_type :: ty where
  "demo_type = TyFunction [TyTuple [TyInteger, TyArray TyBool],
     TyInstance 3 ''list'' Location0 [TyPointer TyFloat] None None] TyVoid True"

lemma parseType_roundtrip_witness:
  "\<exists>t' s'. parseType 30 (stream_of (ty_toks demo_type)) = Inr (t', s') \<and> anon t' = anon demo_type \<and>
     ts_rest s' = []"
proof (rule parseType_roundtrip)
  show "printable demo_type" by code_simp
  show "ts_rest (stream_of (ty_toks demo_type)) = ty_toks demo_type @ []"
    by (simp add: ts_rest_def stream_of_def ts_toks_def comp_def case_prod_unfold)
  show "next_ok []" by (simp add: next_ok_def)
  show "length (ty_toks demo_type) < 30" by code_simp
qed

end
