(* ===== verification/Mangle.thy ===== *)
theory Mangle
  imports Types
begin

text \<open>
  Symbol names: \<open>compiler/mangle.cpp\<close>. The buffer each function appends to is the string it
  returns here. \<open>inst\<close> is the callback of the code generator, what a generic stands for in the
  function instance at hand; it may fail itself. The fuel bounds how often one generic leads to
  another, the only recursion that is not on the type.
\<close>

definition mangleName :: "str \<Rightarrow> str" where
  "mangleName name = show_nat (length name) @ name"

fun mangle :: "nat \<Rightarrow> (addr \<Rightarrow> ty result) \<Rightarrow> ty \<Rightarrow> str result" where
  "mangle k inst TyVoid = Inr ''v''"
| "mangle k inst TyBool = Inr ''b''"
| "mangle k inst TyInteger = Inr ''i''"
| "mangle k inst TyFloat = Inr ''f''"
| "mangle k inst TyString = Inr ''N6stringE''"
| "mangle k inst (TyTuple fs) =
     bindR (mapR (mangle k inst) fs) (\<lambda>ms. Inr (''N5tupleI'' @ concat ms @ ''EE''))"
| "mangle k inst (TyArray e) = bindR (mangle k inst e) (\<lambda>m. Inr (''U5array'' @ m))"
| "mangle k inst (TyPointer e) = bindR (mangle k inst e) (\<lambda>m. Inr (''U3ptr'' @ m))"
| "mangle k inst (TyFunction as r v) =
     bindR (mangle k inst r) (\<lambda>mr.
     bindR (mapR (mangle k inst) as) (\<lambda>ms.
       Inr (''F'' @ mr @ concat ms @ (if v then ''z'' else []) @ ''E'')))"
| "mangle k inst (TyInstance i nm loc as df (Some g)) =
     (case k of
        0 \<Rightarrow> Inl NoFuel
      | Suc j \<Rightarrow> bindR (inst g) (\<lambda>t. mangle j inst t))"
| "mangle k inst (TyInstance i nm loc as df None) =
     bindR (mapR (mangle k inst) as) (\<lambda>ms.
       Inr (''N'' @ mangleName nm @
         (if length as > 0 then ''I'' @ concat ms @ ''E'' else []) @ ''E''))"
| "mangle k inst (TyUnknown a) = Inl (ICE ''Unknown Ty kind'')"
| "mangle k inst (TyGeneric g nm loc) = Inl (ICE ''Unknown Ty kind'')"

definition mangleFnName ::
    "nat \<Rightarrow> (addr \<Rightarrow> ty result) \<Rightarrow> str \<Rightarrow> int \<Rightarrow> ty list \<Rightarrow> str result" where
  "mangleFnName k inst name unnamed tyargs =
     bindR (mapR (mangle k inst) tyargs) (\<lambda>ms.
       Inr ((if length name > 0 then mangleName name else ''Ut'' @ show_int unnamed @ ''_'') @
         (if length tyargs > 0 then ''I'' @ concat ms @ ''E'' else [])))"

definition mangleFn ::
    "nat \<Rightarrow> (addr \<Rightarrow> ty result) \<Rightarrow> str \<Rightarrow> int \<Rightarrow> ty \<Rightarrow> ty list \<Rightarrow> str \<Rightarrow> str result" where
  "mangleFn k inst name unnamed t tyargs parent =
     (case t of
        TyFunction args ret varargs \<Rightarrow>
          bindR (mangleFnName k inst name unnamed tyargs) (\<lambda>fname.
          bindR (if length tyargs > 0 then mangle k inst ret else Inr []) (\<lambda>mret.
          bindR (mapR (mangle k inst) args) (\<lambda>margs.
            Inr (''_Z'' @
              (if parent \<noteq> [] then
                 if length parent > 2 \<and> parent ! 0 = CHR ''_'' \<and> parent ! 1 = CHR ''Z''
                 then ''Z'' @ drop 2 parent @ ''E'' @ fname
                 else ''N'' @ parent @ fname @ ''E''
               else fname) @
              mret @
              (if length args = 0 \<and> \<not> varargs then ''v''
               else concat margs @ (if varargs then ''z'' else []))))))
      | _ \<Rightarrow> Inl AssertFail)"

definition mangleType :: "nat \<Rightarrow> (addr \<Rightarrow> ty result) \<Rightarrow> ty \<Rightarrow> str result" where
  "mangleType k inst t = mangle k inst t"

definition mangleTypeInfo :: "nat \<Rightarrow> (addr \<Rightarrow> ty result) \<Rightarrow> ty \<Rightarrow> str result" where
  "mangleTypeInfo k inst t = bindR (mangle k inst t) (\<lambda>m. Inr (''_Z'' @ ''TI'' @ m))"

definition mangleModule :: "str \<Rightarrow> str" where
  "mangleModule name = mangleName name"

section \<open>What a symbol names\<close>

text \<open>
  Types after instantiation, and what their symbols tell apart: everything but the addresses,
  locations and definitions of instance nodes. Names are identifiers, so they do not start
  with a digit; \<open>tuple\<close> and \<open>string\<close> are the names the code uses for types of its own.
\<close>

definition name_ok :: "str \<Rightarrow> bool" where
  "name_ok nm = (nm \<noteq> [] \<and> \<not> is_digit_char (hd nm))"

fun mangleable :: "ty \<Rightarrow> bool" where
  "mangleable (TyTuple fs) = (\<forall>f \<in> set fs. mangleable f)"
| "mangleable (TyArray e) = mangleable e"
| "mangleable (TyPointer e) = mangleable e"
| "mangleable (TyFunction as r v) = ((\<forall>a \<in> set as. mangleable a) \<and> mangleable r)"
| "mangleable (TyInstance i nm loc as df gen) =
     (gen = None \<and> name_ok nm \<and> nm \<noteq> ''tuple'' \<and> nm \<noteq> ''string'' \<and> (\<forall>a \<in> set as. mangleable a))"
| "mangleable (TyUnknown a) = False"
| "mangleable (TyGeneric g nm loc) = False"
| "mangleable _ = True"

fun shape :: "ty \<Rightarrow> ty" where
  "shape (TyTuple fs) = TyTuple (map shape fs)"
| "shape (TyArray e) = TyArray (shape e)"
| "shape (TyPointer e) = TyPointer (shape e)"
| "shape (TyFunction as r v) = TyFunction (map shape as) (shape r) v"
| "shape (TyInstance i nm loc as df gen) = TyInstance 0 nm Location0 (map shape as) None None"
| "shape t = t"

text \<open>The symbol of such a type, which needs neither fuel nor callback.\<close>

fun symbol :: "ty \<Rightarrow> str" where
  "symbol TyBool = ''b''"
| "symbol TyInteger = ''i''"
| "symbol TyFloat = ''f''"
| "symbol TyString = ''N6stringE''"
| "symbol (TyTuple fs) = ''N5tupleI'' @ concat (map symbol fs) @ ''EE''"
| "symbol (TyArray e) = ''U5array'' @ symbol e"
| "symbol (TyPointer e) = ''U3ptr'' @ symbol e"
| "symbol (TyFunction as r v) = ''F'' @ symbol r @ concat (map symbol as) @ (if v then ''z'' else []) @ ''E''"
| "symbol (TyInstance i nm loc as df gen) =
     ''N'' @ mangleName nm @ (if as \<noteq> [] then ''I'' @ concat (map symbol as) @ ''E'' else []) @ ''E''"
| "symbol _ = ''v''"

lemma mangle_sym: "mangleable t \<Longrightarrow> mangle k inst t = Inr (symbol t)"
proof (induction t)
  case (TyTuple fs)
  then show ?case using mapR_map [of fs "mangle k inst" symbol] by simp
next
  case (TyFunction as r v)
  then show ?case using mapR_map [of as "mangle k inst" symbol] by simp
next
  case (TyInstance i nm loc as df gen)
  then show ?case using mapR_map [of as "mangle k inst" symbol] by simp
qed simp_all

lemma sym_hd: "\<exists>c cs. symbol t = c # cs \<and> c \<in> set ''vbifNUF''"
  by (cases t rule: symbol.cases) simp_all

lemma mangleName_cancel:
  assumes "name_ok nm" "name_ok nm'" "mangleName nm @ r = mangleName nm' @ r'"
  shows "nm = nm' \<and> r = r'"
proof -
  have t: "takeWhile is_digit_char (mangleName x @ s) = show_nat (length x)"
    "dropWhile is_digit_char (mangleName x @ s) = x @ s" if "name_ok x" for x s
    using that show_nat_digits [of "length x"]
    by (cases x; simp add: mangleName_def takeWhile_append_stop dropWhile_append_stop name_ok_def)+
  have "length nm = length nm'" using t(1) [OF assms(1), of r] t(1) [OF assms(2), of r'] assms(3) by simp
  moreover have "nm @ r = nm' @ r'"
    using t(2) [OF assms(1), of r] t(2) [OF assms(2), of r'] assms(3) by simp
  ultimately show ?thesis by simp
qed

text \<open>
  The symbols are a prefix code: a string that starts with the symbols of two types starts with the
  same symbol. In a list, an \<open>E\<close>, a \<open>z\<close> or the end of the string ends the symbols.
\<close>

definition stops :: "str \<Rightarrow> bool" where
  "stops r = (r = [] \<or> hd r = CHR ''E'' \<or> hd r = CHR ''z'')"

definition cancels :: "ty \<Rightarrow> bool" where
  "cancels t = (\<forall>t' r r'. mangleable t \<longrightarrow> mangleable t' \<longrightarrow> symbol t @ r = symbol t' @ r' \<longrightarrow>
     shape t = shape t' \<and> r = r')"

lemma cancelsD:
  "cancels t \<Longrightarrow> mangleable t \<Longrightarrow> mangleable t' \<Longrightarrow> symbol t @ r = symbol t' @ r' \<Longrightarrow>
   shape t = shape t' \<and> r = r'"
  unfolding cancels_def by blast

lemma sym_not_stop: "stops (symbol t @ r) \<Longrightarrow> False"
  using sym_hd [of t] by (auto simp: stops_def)

lemma syms_cancel:
  assumes "\<forall>t \<in> set ts. cancels t" "\<forall>t \<in> set ts. mangleable t" "\<forall>t \<in> set ts'. mangleable t"
    "stops r" "stops r'" "concat (map symbol ts) @ r = concat (map symbol ts') @ r'"
  shows "map shape ts = map shape ts' \<and> r = r'"
  using assms
proof (induction ts arbitrary: ts')
  case Nil
  then show ?case using sym_not_stop by (cases ts') auto
next
  case (Cons t ts)
  show ?case
  proof (cases ts')
    case Nil
    with Cons.prems sym_not_stop [of t] show ?thesis by auto
  next
    case (Cons t' us)
    with Cons.prems have "shape t = shape t' \<and>
        concat (map symbol ts) @ r = concat (map symbol us) @ r'"
      unfolding cancels_def by (auto dest: spec)
    with Cons.IH [of us] Cons.prems Cons show ?thesis by simp
  qed
qed

text \<open>The three kinds of types between \<open>N\<close> and \<open>E\<close>: a name and perhaps a list of types.\<close>

definition nested_sym :: "str \<Rightarrow> ty list option \<Rightarrow> str" where
  "nested_sym nm args =
     ''N'' @ mangleName nm @ (case args of Some ts \<Rightarrow> ''I'' @ concat (map symbol ts) @ ''E'' | None \<Rightarrow> []) @ ''E''"

fun nested :: "ty \<Rightarrow> (str \<times> ty list option) option" where
  "nested TyString = Some (''string'', None)"
| "nested (TyTuple fs) = Some (''tuple'', Some fs)"
| "nested (TyInstance i nm loc as df gen) = Some (nm, if as = [] then None else Some as)"
| "nested _ = None"

lemma reserved_names:
  "mangleName ''tuple'' = ''5tuple''" "mangleName ''string'' = ''6string''" by code_simp+

lemma sym_nested: "nested t = Some (nm, args) \<Longrightarrow> symbol t = nested_sym nm args"
  by (cases t) (auto simp: nested_sym_def reserved_names)

lemma nested_shape:
  "nested t = Some (nm, args) \<Longrightarrow> nested t' = Some (nm, args') \<Longrightarrow> mangleable t \<Longrightarrow> mangleable t' \<Longrightarrow>
   map_option (map shape) args = map_option (map shape) args' \<Longrightarrow> shape t = shape t'"
  by (cases t; cases t') (auto split: if_splits)

lemma nested_ok: "nested t = Some (nm, args) \<Longrightarrow> mangleable t \<Longrightarrow>
  name_ok nm \<and> (\<forall>ts. args = Some ts \<longrightarrow> (\<forall>x \<in> set ts. mangleable x))"
  by (cases t) (auto simp: name_ok_def is_digit_char_def split: if_splits)

lemma nested_sym_cancel:
  assumes "name_ok nm" "name_ok nm'" "nested_sym nm args @ r = nested_sym nm' args' @ r'"
    "\<forall>ts. args = Some ts \<longrightarrow> (\<forall>t \<in> set ts. cancels t \<and> mangleable t)"
    "\<forall>ts. args' = Some ts \<longrightarrow> (\<forall>t \<in> set ts. mangleable t)"
  shows "nm = nm' \<and> map_option (map shape) args = map_option (map shape) args' \<and> r = r'"
proof -
  let ?rest = "\<lambda>args r. (case args of Some ts \<Rightarrow> ''I'' @ concat (map symbol ts) @ ''E'' | None \<Rightarrow> []) @ ''E'' @ r"
  have "nm = nm'" and rest: "?rest args r = ?rest args' r'"
    using mangleName_cancel [OF assms(1,2), of "?rest args r" "?rest args' r'"] assms(3)
    by (simp_all add: nested_sym_def)
  from rest show ?thesis
  proof (cases args; cases args')
    fix ts ts' assume a: "args = Some ts" "args' = Some ts'"
    with rest have "concat (map symbol ts) @ ''EE'' @ r = concat (map symbol ts') @ ''EE'' @ r'" by simp
    then have "map shape ts = map shape ts' \<and> ''EE'' @ r = ''EE'' @ r'"
      using assms(4,5) a by (intro syms_cancel) (auto simp: stops_def)
    with a \<open>nm = nm'\<close> show ?thesis by simp
  qed (use rest \<open>nm = nm'\<close> in simp_all)
qed

lemma hd_N: "mangleable t \<Longrightarrow> nested t \<noteq> None \<longleftrightarrow> hd (symbol t @ r) = CHR ''N''"
  by (cases t) auto

lemma cancels_nested:
  assumes n: "nested t = Some (nm, args)" and args: "\<forall>ts. args = Some ts \<longrightarrow> (\<forall>x \<in> set ts. cancels x)"
  shows "cancels t"
  unfolding cancels_def
proof (intro allI impI)
  fix t' r r' assume m: "mangleable t" "mangleable t'" and eq: "symbol t @ r = symbol t' @ r'"
  have "hd (symbol t' @ r') = CHR ''N''" using hd_N [OF m(1), of r] n eq by simp
  with hd_N [OF m(2), of r'] obtain nm' args' where n': "nested t' = Some (nm', args')" by auto
  have "nm = nm' \<and> map_option (map shape) args = map_option (map shape) args' \<and> r = r'"
    by (rule nested_sym_cancel)
      (use nested_ok [OF n m(1)] nested_ok [OF n' m(2)] eq args sym_nested [OF n] sym_nested [OF n'] in auto)
  with nested_shape [OF n] n' m show "shape t = shape t' \<and> r = r'" by auto
qed

lemma cancels_Function:
  assumes "cancels rt" "\<forall>t \<in> set as. cancels t"
  shows "cancels (TyFunction as rt v)"
  unfolding cancels_def
proof (intro allI impI)
  fix t' r r' assume m: "mangleable (TyFunction as rt v)" "mangleable t'"
    and eq: "symbol (TyFunction as rt v) @ r = symbol t' @ r'"
  show "shape (TyFunction as rt v) = shape t' \<and> r = r'"
  proof (cases t')
    case t': (TyFunction bs rt' v')
    let ?z = "\<lambda>v r. (if v then ''z'' else []) @ ''E'' @ r"
    from eq t' have "symbol rt @ (concat (map symbol as) @ ?z v r) = symbol rt' @ (concat (map symbol bs) @ ?z v' r')"
      by simp
    have ok: "mangleable rt" "mangleable rt'" using m t' by simp_all
    have ret: "shape rt = shape rt' \<and> concat (map symbol as) @ ?z v r = concat (map symbol bs) @ ?z v' r'"
      by (rule cancelsD [OF assms(1) ok]) fact
    then have "map shape as = map shape bs \<and> ?z v r = ?z v' r'"
      using assms(2) m t' by (intro syms_cancel) (simp_all add: stops_def)
    with ret t' show ?thesis by (cases v; cases v') simp_all
  qed (use eq m in \<open>simp_all add: mangleName_def\<close>)
qed

lemma cancels_Array:
  assumes "cancels e"
  shows "cancels (TyArray e)"
  unfolding cancels_def
proof (intro allI impI)
  fix t' r r' assume m: "mangleable (TyArray e)" "mangleable t'"
    and eq: "symbol (TyArray e) @ r = symbol t' @ r'"
  show "shape (TyArray e) = shape t' \<and> r = r'"
    using m eq by (cases t') (auto dest: cancelsD [OF assms])
qed

lemma cancels_Pointer:
  assumes "cancels e"
  shows "cancels (TyPointer e)"
  unfolding cancels_def
proof (intro allI impI)
  fix t' r r' assume m: "mangleable (TyPointer e)" "mangleable t'"
    and eq: "symbol (TyPointer e) @ r = symbol t' @ r'"
  show "shape (TyPointer e) = shape t' \<and> r = r'"
    using m eq by (cases t') (auto dest: cancelsD [OF assms])
qed

lemma cancels_leaf: "cancels TyVoid" "cancels TyBool" "cancels TyInteger" "cancels TyFloat"
  unfolding cancels_def by (intro allI impI, case_tac t', simp_all)+

lemma cancels: "cancels t"
proof (induction t)
  case (TyTuple fs)
  then show ?case by (intro cancels_nested [of _ "''tuple''" "Some fs"]) simp_all
next
  case (TyInstance i nm loc as df gen)
  then show ?case by (intro cancels_nested [of _ nm "if as = [] then None else Some as"]) simp_all
next
  case TyString
  then show ?case by (intro cancels_nested [of _ "''string''" None]) simp_all
qed (simp_all add: cancels_Function cancels_Array cancels_Pointer cancels_leaf,
    simp_all add: cancels_def)

section \<open>Properties\<close>

text \<open>
  Two types without generics left, whose struct names are identifiers other than the reserved
  \<open>tuple\<close> and \<open>string\<close>, have the same symbol only if they are the same type by structure and
  struct names; the symbol is always made, without any fuel.
\<close>

theorem mangleType_injective:
  assumes "mangleable t" "mangleable t'"
  shows "isRight (mangleType k inst t) \<and>
    (mangleType k inst t = mangleType k' inst' t' \<longrightarrow> shape t = shape t')"
  using cancelsD [OF cancels assms, of "[]" "[]"] assms by (simp add: mangleType_def mangle_sym)

lemma mangleType_injective_witness:
  "mangleType 0 (\<lambda>_. Inl NullDeref) (TyTuple [TyInteger, TyInstance 1 ''S'' Location0 [] (Some 2) None]) \<noteq>
   mangleType 0 (\<lambda>_. Inl NullDeref) (TyTuple [TyInteger, TyInstance 1 ''T'' Location0 [] (Some 2) None])"
  using mangleType_injective [of "TyTuple [TyInteger, TyInstance 1 ''S'' Location0 [] (Some 2) None]"
      "TyTuple [TyInteger, TyInstance 1 ''T'' Location0 [] (Some 2) None]" 0 "\<lambda>_. Inl NullDeref" 0 "\<lambda>_. Inl NullDeref"]
  by (auto simp: name_ok_def is_digit_char_def less_eq_char_def)

text \<open>
  The collision the source notes: a generic struct called \<open>tuple\<close> and the tuple type.
\<close>

lemma tuple_collision:
  "mangleType 0 inst (TyTuple [TyInteger]) =
   mangleType 0 inst (TyInstance 1 ''tuple'' Location0 [TyInteger] (Some 2) None)"
  by (simp add: mangleType_def reserved_names)

text \<open>A function of no arguments and one of a single void argument get the same symbol.\<close>

lemma void_argument_collision:
  "mangleFn 0 inst ''f'' 0 (TyFunction [] TyVoid False) [] parent =
   mangleFn 0 inst ''f'' 0 (TyFunction [TyVoid] TyVoid False) [] parent"
  by (simp add: mangleFn_def mangleFnName_def)

section \<open>Function symbols\<close>

lemma map_mangle: "\<forall>t \<in> set ts. mangleable t \<Longrightarrow> mapR (mangle k inst) ts = Inr (map symbol ts)"
  by (rule mapR_map) (simp add: mangle_sym)

text \<open>The parameters at the end of a function's symbol, which are not delimited.\<close>

definition params :: "ty list \<Rightarrow> bool \<Rightarrow> str" where
  "params args v =
     (if args = [] \<and> \<not> v then ''v'' else concat (map symbol args) @ (if v then ''z'' else []))"

lemma params_list: "\<not> (args = [] \<and> \<not> v) \<Longrightarrow>
  params args v = concat (map symbol args) @ (if v then ''z'' else [])"
  unfolding params_def by (rule if_not_P)

lemma params_void:
  assumes "\<forall>t \<in> set args. mangleable t" "TyVoid \<notin> set args" "args \<noteq> [] \<or> v"
  shows "params args v \<noteq> ''v''"
proof (cases args)
  case (Cons a as)
  have "symbol a @ s \<noteq> symbol TyVoid @ []" for s
  proof
    assume "symbol a @ s = symbol TyVoid @ []"
    with cancelsD [OF cancels, of a TyVoid s "[]"] assms(1) Cons have "shape a = TyVoid" by simp
    with assms(2) Cons show False by (cases a) simp_all
  qed
  with Cons show ?thesis by (simp add: params_def)
qed (use assms(3) in \<open>simp add: params_def\<close>)

lemma params_cancel:
  assumes "\<forall>t \<in> set args. mangleable t" "\<forall>t \<in> set args'. mangleable t"
    "TyVoid \<notin> set args" "TyVoid \<notin> set args'" "params args v = params args' v'"
  shows "map shape args = map shape args' \<and> v = v'"
proof (cases "(args = [] \<and> \<not> v) \<or> (args' = [] \<and> \<not> v')")
  case True
  have "params [] False = ''v''" by (simp add: params_def)
  with True params_void [OF assms(1,3)] params_void [OF assms(2,4)] assms(5)
  have "args = [] \<and> \<not> v \<and> args' = [] \<and> \<not> v'" by metis
  then show ?thesis by simp
next
  case False
  then have "params args v = concat (map symbol args) @ (if v then ''z'' else [])"
    "params args' v' = concat (map symbol args') @ (if v' then ''z'' else [])"
    by (simp_all only: params_list de_Morgan_disj simp_thms)
  with assms(5) have "concat (map symbol args) @ (if v then ''z'' else []) =
      concat (map symbol args') @ (if v' then ''z'' else [])" by simp
  then have "map shape args = map shape args' \<and> (if v then ''z'' else []) = (if v' then ''z'' else [])"
    using assms(1,2) cancels by (intro syms_cancel) (simp_all add: stops_def)
  then show ?thesis by (simp split: if_splits)
qed

definition fn_symbol :: "str \<Rightarrow> str \<Rightarrow> ty list \<Rightarrow> ty list \<Rightarrow> ty \<Rightarrow> bool \<Rightarrow> str" where
  "fn_symbol mname name tyargs args ret v =
     ''_ZN'' @ mangleName mname @ mangleName name @
     (if tyargs \<noteq> [] then ''I'' @ concat (map symbol tyargs) @ ''EE'' @ symbol ret else ''E'') @
     params args v"

lemma mangleName_hd: "\<exists>c cs. mangleName nm = c # cs \<and> is_digit_char c"
  using show_nat_digits [of "length nm"] by (cases "show_nat (length nm)") (auto simp: mangleName_def)

lemma mangleFn_symbol:
  assumes "name \<noteq> []" "\<forall>t \<in> set tyargs \<union> set args. mangleable t" "mangleable ret"
  shows "mangleFn k inst name un (TyFunction args ret v) tyargs (mangleModule mname) =
    Inr (fn_symbol mname name tyargs args ret v)"
proof -
  have "mangleName mname \<noteq> []" "mangleName mname ! 0 \<noteq> CHR ''_''"
    using mangleName_hd [of mname] by (auto simp: is_digit_char_def less_eq_char_def)
  then show ?thesis
    using assms by (simp add: mangleFn_def mangleFnName_def map_mangle mangle_sym fn_symbol_def
        params_def mangleModule_def)
qed



end
