(* ===== verification/Scheduler.thy ===== *)
theory Scheduler
  imports Prelude
begin

text \<open>
  The coroutine scheduler of the runtime, \<open>runtime/scheduler.cpp\<close>. Coroutines are cells of a heap,
  linked in both directions into the list of the ready ones; the null pointer is 0. The five
  static variables and the heap are the state, together with the place where control is: in the
  worker at its capture point, in a coroutine, or back in the caller of \<open>schedulerRun\<close>. The
  assembly routines are modelled by what they do to this place: \<open>contextCapture\<close> returns true and
  stores the point that \<open>contextResume\<close> later goes to, where the capture returns false.
\<close>

type_synonym ptr = nat

text \<open>Where a context resumes: at \<open>coroEntry\<close>, with the stack empty, or inside \<open>yield\<close>.\<close>

datatype resume_point = AtEntry | InYield

record 'f coro =
  co_context :: resume_point
  co_fn :: 'f
  co_stack :: ptr
  co_stackSize :: nat
  co_prev :: ptr
  co_next :: ptr

datatype control = InWorker | InCoro resume_point | Returned

record 'f sched =
  readyHead :: ptr
  readyTail :: ptr
  current :: ptr
  cleanup :: ptr
  cells :: "ptr \<Rightarrow> 'f coro option"
  stacks :: "(ptr \<times> nat) list"
  at :: control

text \<open>
  A read or write through a pointer, and a write of one field. A null or a freed pointer is the
  failure \<open>NullDeref\<close>. The stacks that are mapped are a list, from which \<open>stackDestroy\<close> takes one;
  destroying what is not mapped is a failed \<open>check\<close>.
\<close>

definition deref :: "ptr \<Rightarrow> 'f sched \<Rightarrow> 'f coro result" where
  "deref p s = (case cells s p of None \<Rightarrow> Inl NullDeref | Some k \<Rightarrow> Inr k)"

definition assign :: "ptr \<Rightarrow> ('f coro \<Rightarrow> 'f coro) \<Rightarrow> 'f sched \<Rightarrow> 'f sched result" where
  "assign p f s = bindR (deref p s) (\<lambda>k. Inr (s\<lparr>cells := (cells s)(p \<mapsto> f k)\<rparr>))"

definition unmap :: "ptr \<Rightarrow> nat \<Rightarrow> 'f sched \<Rightarrow> 'f sched result" where
  "unmap p n s =
     bindR (assertR ((p, n) \<in> set (stacks s))) (\<lambda>_. Inr (s\<lparr>stacks := remove1 (p, n) (stacks s)\<rparr>))"

section \<open>The code\<close>

definition coroQueue :: "ptr \<Rightarrow> 'f sched \<Rightarrow> 'f sched result" where
  "coroQueue coro s =
     bindR (assign coro (\<lambda>k. k\<lparr>co_next := 0\<rparr>) s) (\<lambda>s.
       if readyTail s \<noteq> 0 then
         bindR (assign coro (\<lambda>k. k\<lparr>co_prev := readyTail s\<rparr>) s) (\<lambda>s.
         bindR (assign (readyTail s) (\<lambda>k. k\<lparr>co_next := coro\<rparr>) s) (\<lambda>s.
           Inr (s\<lparr>readyTail := coro\<rparr>)))
       else
         bindR (assertR (readyHead s = 0)) (\<lambda>_.
         bindR (assign coro (\<lambda>k. k\<lparr>co_prev := 0\<rparr>) s) (\<lambda>s.
           Inr (s\<lparr>readyHead := coro, readyTail := coro\<rparr>))))"

text \<open>The part of \<open>coroDispatch\<close> that takes the head \<open>c\<close> off the list.\<close>

definition coroDequeue :: "ptr \<Rightarrow> 'f sched \<Rightarrow> 'f sched result" where
  "coroDequeue c s =
     bindR (deref c s) (\<lambda>k.
     bindR (assertR (co_prev k = 0)) (\<lambda>_.
       if co_next k \<noteq> 0 then
         bindR (assign (co_next k) (\<lambda>k. k\<lparr>co_prev := 0\<rparr>) s) (\<lambda>s.
           assign c (\<lambda>k. k\<lparr>co_next := 0\<rparr>) (s\<lparr>readyHead := co_next k\<rparr>))
       else
         bindR (assertR (readyTail s = c)) (\<lambda>_.
           Inr (s\<lparr>readyHead := 0, readyTail := 0\<rparr>))))"

definition coroDispatch :: "'f sched \<Rightarrow> 'f sched result" where
  "coroDispatch s =
     (if readyHead s \<noteq> 0 then
        let c = readyHead s in
        bindR (coroDequeue c s) (\<lambda>s.
        bindR (assertR (current s = 0)) (\<lambda>_.
        bindR (deref c s) (\<lambda>k. Inr (s\<lparr>current := c, at := InCoro (co_context k)\<rparr>))))
      else Inr (s\<lparr>at := Returned\<rparr>))"

definition coroReturn :: "'f sched \<Rightarrow> 'f sched" where
  "coroReturn s = s\<lparr>at := InWorker\<rparr>"

text \<open>What \<open>coroEntry\<close> does when the coroutine's function has returned.\<close>

definition coroEntry_exit :: "'f sched \<Rightarrow> 'f sched result" where
  "coroEntry_exit s =
     bindR (assertR (cleanup s = 0)) (\<lambda>_. Inr (coroReturn (s\<lparr>current := 0, cleanup := current s\<rparr>)))"

text \<open>\<open>spawn\<close>, with the answers \<open>a\<close> of \<open>malloc\<close> and \<open>stk\<close> of \<open>stackCreate\<close>.\<close>

definition spawn :: "'f \<Rightarrow> ptr \<Rightarrow> ptr \<Rightarrow> 'f sched \<Rightarrow> 'f sched result" where
  "spawn fn a stk s =
     coroQueue a (s\<lparr>cells := (cells s)(a \<mapsto> \<lparr>co_context = AtEntry, co_fn = fn, co_stack = stk,
         co_stackSize = 64 * 1024, co_prev = 0, co_next = 0\<rparr>),
       stacks := (stk, 64 * 1024) # stacks s\<rparr>)"

definition yield :: "'f sched \<Rightarrow> 'f sched result" where
  "yield s =
     bindR (assertR (current s \<noteq> 0)) (\<lambda>_.
     bindR (coroQueue (current s) s) (\<lambda>s.
     bindR (assign (current s) (\<lambda>k. k\<lparr>co_context := InYield\<rparr>) s) (\<lambda>s.
       Inr (coroReturn (s\<lparr>current := 0\<rparr>)))))"

text \<open>\<open>schedulerRun\<close> from its capture of the worker's context on, where every return to it resumes.\<close>

definition schedulerRun :: "'f sched \<Rightarrow> 'f sched result" where
  "schedulerRun s =
     bindR (if cleanup s \<noteq> 0 then
              bindR (deref (cleanup s) s) (\<lambda>k.
              bindR (unmap (co_stack k) (co_stackSize k) s) (\<lambda>s.
                Inr (s\<lparr>cells := (cells s)(cleanup s := None), cleanup := 0\<rparr>)))
            else Inr s)
       coroDispatch"

definition schedulerGetStack :: "'f sched \<Rightarrow> (ptr \<times> nat) option result" where
  "schedulerGetStack s =
     (if current s \<noteq> 0 then
        bindR (deref (current s) s) (\<lambda>k. Inr (Some (co_stack k, co_stackSize k)))
      else Inr None)"

text \<open>\<open>aikeEntry\<close> starts from zero-initialised statics and spawns the program's main function.\<close>

definition sched0 :: "'f sched" where
  "sched0 = \<lparr>readyHead = 0, readyTail = 0, current = 0, cleanup = 0, cells = Map.empty, stacks = [],
     at = InWorker\<rparr>"

definition aikeEntry :: "'f \<Rightarrow> ptr \<Rightarrow> ptr \<Rightarrow> 'f sched result" where
  "aikeEntry main a stk = bindR (spawn main a stk sched0) schedulerRun"

section \<open>Runs\<close>

text \<open>
  What can happen next: the worker goes on from its capture point, or the running coroutine spawns
  another, yields, or returns from its function.
\<close>

datatype 'f event = Work | Spawn 'f ptr ptr | Yield | Return

fun exec :: "'f event \<Rightarrow> 'f sched \<Rightarrow> 'f sched result" where
  "exec Work s = schedulerRun s"
| "exec (Spawn fn a stk) s = spawn fn a stk s"
| "exec Yield s = yield s"
| "exec Return s = coroEntry_exit s"

text \<open>
  An event can happen where control is, and \<open>malloc\<close> answers with a pointer that is neither null
  nor in use; the pointers of stacks are those \<open>mmap\<close> made.
\<close>

fun enabled :: "'f event \<Rightarrow> 'f sched \<Rightarrow> bool" where
  "enabled Work s = (at s = InWorker)"
| "enabled (Spawn fn a stk) s = (at s \<in> range InCoro \<and> a \<noteq> 0 \<and> cells s a = None)"
| "enabled Yield s = (at s \<in> range InCoro)"
| "enabled Return s = (at s \<in> range InCoro)"

inductive reachable :: "'f sched \<Rightarrow> bool" where
  start: "a \<noteq> 0 \<Longrightarrow> aikeEntry main a stk = Inr s \<Longrightarrow> reachable s"
| step: "reachable s \<Longrightarrow> enabled ev s \<Longrightarrow> exec ev s = Inr s' \<Longrightarrow> reachable s'"

inductive_cases reachableE: "reachable s"

end
