(* ===== verification/SchedulerCorrect.thy ===== *)
theory SchedulerCorrect
  imports Scheduler "HOL-Library.Multiset"
begin

text \<open>
  The scheduler keeps a well-formed ready list, which is a first-in first-out queue, and never
  loses, leaks or doubly frees a coroutine or a stack.
\<close>

section \<open>Linked lists\<close>

definition first :: "ptr list \<Rightarrow> ptr" where
  "first xs = (case xs of [] \<Rightarrow> 0 | x # _ \<Rightarrow> x)"

lemma first_simps [simp]: "first [] = 0" "first (x # xs) = x"
  by (simp_all add: first_def)

fun links :: "(ptr \<Rightarrow> 'f coro option) \<Rightarrow> ptr \<Rightarrow> ptr list \<Rightarrow> bool" where
  "links h p [] = True"
| "links h p (x # xs) =
     (x \<noteq> 0 \<and> (\<exists>k. h x = Some k \<and> co_prev k = p \<and> co_next k = first xs) \<and> links h x xs)"

lemma links_cong: "(\<And>x. x \<in> set xs \<Longrightarrow> h x = h' x) \<Longrightarrow> links h p xs = links h' p xs"
  by (induction xs arbitrary: p) auto

lemma links_upd: "a \<notin> set xs \<Longrightarrow> links (h(a := v)) p xs = links h p xs"
  by (rule links_cong) auto

lemma links_nonzero: "links h p xs \<Longrightarrow> 0 \<notin> set xs"
  by (induction xs arbitrary: p) auto

lemma links_dom: "links h p xs \<Longrightarrow> set xs \<subseteq> dom h"
  by (induction xs arbitrary: p) auto

lemma links_last:
  "links h p xs \<Longrightarrow> xs \<noteq> [] \<Longrightarrow> \<exists>k. h (last xs) = Some k \<and> co_next k = 0"
  by (induction xs arbitrary: p) auto

lemma links_snoc:
  assumes "links h p xs" "distinct (xs @ [a])" "xs \<noteq> []" "a \<noteq> 0" "h (last xs) = Some l"
    "h' = h(a \<mapsto> k\<lparr>co_next := 0, co_prev := last xs\<rparr>, last xs \<mapsto> l\<lparr>co_next := a\<rparr>)"
  shows "links h' p (xs @ [a])"
  using assms
proof (induction xs arbitrary: p)
  case (Cons x xs)
  show ?case
  proof (cases "xs = []")
    case True
    with Cons.prems show ?thesis by auto
  next
    case False
    have "links h' x (xs @ [a])" by (rule Cons.IH) (use Cons.prems False in auto)
    moreover have "last xs \<noteq> x" using False Cons.prems(2) last_in_set [of xs] by auto
    then have "h' x = h x" using Cons.prems(2,6) False by simp
    moreover have "first (xs @ [a]) = first xs" using False by (cases xs) auto
    ultimately show ?thesis using Cons.prems(1) by simp
  qed
qed simp

text \<open>The queue that the state holds.\<close>

definition ready :: "'f sched \<Rightarrow> ptr list \<Rightarrow> bool" where
  "ready s xs =
     (links (cells s) 0 xs \<and> distinct xs \<and> readyHead s = first xs \<and>
      readyTail s = (if xs = [] then 0 else last xs))"

text \<open>What the list operations leave alone: all but the links and the two ends.\<close>

definition payload :: "'f coro \<Rightarrow> resume_point \<times> 'f \<times> ptr \<times> nat" where
  "payload k = (co_context k, co_fn k, co_stack k, co_stackSize k)"

definition keeps :: "'f sched \<Rightarrow> 'f sched \<Rightarrow> bool" where
  "keeps s s' =
     (current s' = current s \<and> cleanup s' = cleanup s \<and> stacks s' = stacks s \<and> at s' = at s \<and>
      (\<forall>p. map_option payload (cells s' p) = map_option payload (cells s p)))"

lemma keeps_dom: "keeps s s' \<Longrightarrow> dom (cells s') = dom (cells s)"
  unfolding keeps_def dom_def by (metis (no_types, lifting) map_option_is_None)

lemma assign_Some [simp]:
  "cells s p = Some k \<Longrightarrow> assign p f s = Inr (s\<lparr>cells := (cells s)(p \<mapsto> f k)\<rparr>)"
  by (simp add: assign_def deref_def)

lemma coroQueue_ok:
  assumes "ready s xs" "a \<notin> set xs" "a \<noteq> 0" "a \<in> dom (cells s)"
  shows "\<exists>s'. coroQueue a s = Inr s' \<and> ready s' (xs @ [a]) \<and> keeps s s'"
proof -
  from assms(4) obtain k where k: "cells s a = Some k" by auto
  show ?thesis
  proof (cases "xs = []")
    case True
    with assms k show ?thesis
      by (auto simp: ready_def coroQueue_def keeps_def payload_def)
  next
    case False
    with assms(1) obtain l where l: "cells s (last xs) = Some l" "co_next l = 0"
      unfolding ready_def using links_last by blast
    have "0 \<notin> set xs" using assms(1) links_nonzero [of "cells s" 0 xs] by (simp add: ready_def)
    then have "last xs \<noteq> 0" using last_in_set [OF False] by metis
    moreover have ne: "last xs \<noteq> a" using assms(2) False last_in_set [of xs] by auto
    moreover have new: "links ((cells s)(a \<mapsto> k\<lparr>co_next := 0, co_prev := last xs\<rparr>,
        last xs \<mapsto> l\<lparr>co_next := a\<rparr>)) 0 (xs @ [a])"
      by (rule links_snoc [of "cells s" 0 xs a l _ k]) (use assms(1-3) False l in \<open>simp_all add: ready_def\<close>)
    moreover have "first (xs @ [a]) = first xs" using False by (cases xs) auto
    ultimately show ?thesis
      using assms(1,2) k l False
      by (auto simp: ready_def coroQueue_def keeps_def payload_def fun_upd_twist)
  qed
qed

lemma coroDequeue_ok:
  assumes "ready s (x # xs)"
  shows "\<exists>s'. coroDequeue x s = Inr s' \<and> ready s' xs \<and> keeps s s'"
proof (cases xs)
  case Nil
  with assms show ?thesis by (auto simp: ready_def coroDequeue_def deref_def keeps_def)
next
  case (Cons y ys)
  with assms obtain k l where k: "cells s x = Some k" "co_prev k = 0" "co_next k = y"
    and l: "cells s y = Some l" "co_next l = first ys" "y \<noteq> 0" "links (cells s) y ys" "x \<noteq> y"
    and d: "x \<notin> set ys" "y \<notin> set ys" "distinct ys"
    by (auto simp: ready_def)
  let ?h = "(cells s)(y \<mapsto> l\<lparr>co_prev := 0\<rparr>, x \<mapsto> k\<lparr>co_next := 0\<rparr>)"
  have "links ?h 0 (y # ys)" using l d by (auto simp: links_upd)
  then show ?thesis
    using assms k l d unfolding Cons
    by (auto simp: ready_def coroDequeue_def deref_def keeps_def payload_def)
qed

section \<open>The queue as an interface\<close>

text \<open>
  What a user of the ready list relies on: \<open>enq\<close> and \<open>deq\<close> do not fail on a represented queue, act
  at its two ends and keep the rest of the state, as \<open>kept\<close> says. The user's lemma is that the
  elements are served in the order in which they came.
\<close>

locale fifo_queue =
  fixes rep :: "'s \<Rightarrow> 'a list \<Rightarrow> bool"
    and usable :: "'a \<Rightarrow> 's \<Rightarrow> bool"
    and kept :: "'s \<Rightarrow> 's \<Rightarrow> bool"
    and enq :: "'a \<Rightarrow> 's \<Rightarrow> 's result"
    and deq :: "'a \<Rightarrow> 's \<Rightarrow> 's result"
  assumes enq: "rep s xs \<Longrightarrow> a \<notin> set xs \<Longrightarrow> usable a s \<Longrightarrow>
      \<exists>s'. enq a s = Inr s' \<and> rep s' (xs @ [a]) \<and> kept s s'"
    and deq: "rep s (x # xs) \<Longrightarrow> \<exists>s'. deq x s = Inr s' \<and> rep s' xs \<and> kept s s'"
    and kept_refl: "kept s s"
    and kept_trans: "kept s s' \<Longrightarrow> kept s' s'' \<Longrightarrow> kept s s''"
    and usable_kept: "kept s s' \<Longrightarrow> usable a s' = usable a s"
begin

text \<open>Taking \<open>n\<close> elements off the front.\<close>

lemma deq_many:
  "rep s (xs @ ys) \<Longrightarrow> \<exists>s'. foldS deq xs s = Inr s' \<and> rep s' ys \<and> kept s s'"
proof (induction xs arbitrary: s)
  case Nil
  then show ?case by (auto intro: kept_refl)
next
  case (Cons x xs)
  then obtain s1 where "deq x s = Inr s1" "rep s1 (xs @ ys)" "kept s s1"
    using deq [of s x "xs @ ys"] by auto
  with Cons.IH [of s1] show ?case by (auto intro: kept_trans)
qed

lemma enq_many:
  "rep s xs \<Longrightarrow> distinct (xs @ ys) \<Longrightarrow> \<forall>a \<in> set ys. usable a s \<Longrightarrow>
     \<exists>s'. foldS enq ys s = Inr s' \<and> rep s' (xs @ ys) \<and> kept s s'"
proof (induction ys arbitrary: s xs)
  case Nil
  then show ?case by (auto intro: kept_refl)
next
  case (Cons y ys)
  then obtain s1 where s1: "enq y s = Inr s1" "rep s1 (xs @ [y])" "kept s s1"
    using enq [of s xs y] by auto
  with Cons.IH [of s1 "xs @ [y]"] Cons.prems show ?case
    by (auto simp: usable_kept intro: kept_trans)
qed

text \<open>What is put in comes out in the same order.\<close>

lemma fifo:
  assumes "rep s []" "distinct xs" "\<forall>a \<in> set xs. usable a s"
  shows "\<exists>s1 s2. foldS enq xs s = Inr s1 \<and> foldS deq xs s1 = Inr s2 \<and> rep s2 [] \<and> kept s s2"
proof -
  obtain s1 where s1: "foldS enq xs s = Inr s1" "rep s1 xs" "kept s s1"
    using enq_many [of s "[]" xs] assms by auto
  with deq_many [of s1 xs "[]"] show ?thesis by (auto intro: kept_trans)
qed

end

interpretation rq: fifo_queue ready "\<lambda>a s. a \<noteq> 0 \<and> a \<in> dom (cells s)" keeps coroQueue coroDequeue
proof unfold_locales
  fix s s' s'' :: "'a sched"
  show "keeps s s" by (simp add: keeps_def)
  show "keeps s s' \<Longrightarrow> keeps s' s'' \<Longrightarrow> keeps s s''" by (simp add: keeps_def)
qed (use coroQueue_ok coroDequeue_ok keeps_dom in blast)+

section \<open>The invariant\<close>

text \<open>
  \<open>owns s ls\<close>: the cells of the heap are those of \<open>ls\<close>, each once, and the mapped stacks are just
  theirs.
\<close>

definition stack_of :: "'f sched \<Rightarrow> ptr \<Rightarrow> ptr \<times> nat" where
  "stack_of s p = (co_stack (the (cells s p)), co_stackSize (the (cells s p)))"

definition owns :: "'f sched \<Rightarrow> ptr list \<Rightarrow> bool" where
  "owns s ls =
     (distinct ls \<and> set ls = dom (cells s) \<and> cells s 0 = None \<and>
      mset (stacks s) = image_mset (stack_of s) (mset ls))"

definition nonnull :: "ptr \<Rightarrow> ptr list" where
  "nonnull p = (if p = 0 then [] else [p])"

definition sched_inv :: "'f sched \<Rightarrow> ptr list \<Rightarrow> bool" where
  "sched_inv s xs =
     (ready s xs \<and> owns s (xs @ nonnull (current s) @ nonnull (cleanup s)) \<and>
      (case at s of
         InWorker \<Rightarrow> current s = 0
       | InCoro _ \<Rightarrow> current s \<noteq> 0 \<and> cleanup s = 0
       | Returned \<Rightarrow> xs = [] \<and> current s = 0 \<and> cleanup s = 0))"

lemma stack_of_keeps: "keeps s s' \<Longrightarrow> stack_of s' p = stack_of s p"
  unfolding keeps_def stack_of_def payload_def
  by (cases "cells s p"; cases "cells s' p") (auto dest!: spec [of _ p])

lemma owns_keeps: "keeps s s' \<Longrightarrow> owns s ls \<Longrightarrow> owns s' ls"
  using keeps_dom [of s s'] stack_of_keeps [of s s']
  by (auto simp: owns_def keeps_def intro!: image_mset_cong)

lemma owns_mset:
  assumes "owns s ls" "mset ls = mset ls'"
  shows "owns s ls'"
proof -
  have "distinct ls = distinct ls'" "set ls = set ls'"
    using assms(2) by (rule mset_eq_imp_distinct_iff, rule mset_eq_setD)
  with assms show ?thesis by (simp add: owns_def)
qed

lemma owns_new:
  assumes "owns s ls" "a \<noteq> 0" "cells s a = None"
  shows "owns (s\<lparr>cells := (cells s)(a \<mapsto> k), stacks := (co_stack k, co_stackSize k) # stacks s\<rparr>) (a # ls)"
proof -
  have "a \<notin> set ls" using assms by (auto simp: owns_def)
  with assms show ?thesis by (auto simp: owns_def stack_of_def intro!: image_mset_cong split: if_splits)
qed

lemma owns_free:
  assumes "owns s (c # ls)" "cells s c = Some k"
  shows "(co_stack k, co_stackSize k) \<in> set (stacks s)"
    "owns (s\<lparr>cells := (cells s)(c := None), stacks := remove1 (co_stack k, co_stackSize k) (stacks s)\<rparr>) ls"
proof -
  have m: "mset (stacks s) = add_mset (co_stack k, co_stackSize k) (image_mset (stack_of s) (mset ls))"
    using assms by (simp add: owns_def stack_of_def)
  then show "(co_stack k, co_stackSize k) \<in> set (stacks s)"
    by (metis set_mset_mset union_single_eq_member)
  have "c \<notin> set ls" using assms(1) by (simp add: owns_def)
  with assms m show
    "owns (s\<lparr>cells := (cells s)(c := None), stacks := remove1 (co_stack k, co_stackSize k) (stacks s)\<rparr>) ls"
    by (auto simp: owns_def stack_of_def intro!: image_mset_cong)
qed

text \<open>Writes that the queue does not see.\<close>

lemma links_cong_links:
  "(\<And>x. x \<in> set xs \<Longrightarrow> map_option (\<lambda>k. (co_prev k, co_next k)) (h x) =
      map_option (\<lambda>k. (co_prev k, co_next k)) (h' x)) \<Longrightarrow> links h p xs \<Longrightarrow> links h' p xs"
proof (induction xs arbitrary: p)
  case (Cons x xs)
  then have "links h' x xs" by simp
  moreover have "\<exists>k. h' x = Some k \<and> co_prev k = p \<and> co_next k = first xs"
    using Cons.prems(1) [of x] Cons.prems(2) by (cases "h' x") auto
  ultimately show ?case using Cons.prems(2) by simp
qed simp

lemma ready_frame [simp]:
  "ready (s\<lparr>current := c\<rparr>) xs = ready s xs" "ready (s\<lparr>cleanup := c\<rparr>) xs = ready s xs"
  "ready (s\<lparr>at := w\<rparr>) xs = ready s xs" "ready (s\<lparr>stacks := st\<rparr>) xs = ready s xs"
  by (simp_all add: ready_def)

lemma owns_frame [simp]:
  "owns (s\<lparr>current := c\<rparr>) ls = owns s ls" "owns (s\<lparr>cleanup := c\<rparr>) ls = owns s ls"
  "owns (s\<lparr>at := w\<rparr>) ls = owns s ls"
  by (simp_all add: owns_def stack_of_def [abs_def])

lemma ready_upd: "a \<notin> set xs \<Longrightarrow> ready (s\<lparr>cells := (cells s)(a := v)\<rparr>) xs = ready s xs"
  by (simp add: ready_def links_upd)

section \<open>Every event\<close>

text \<open>The queue and the running coroutine, as a first-in first-out scheduler moves them.\<close>

fun fifo_exec :: "'f event \<Rightarrow> ptr list \<times> ptr \<Rightarrow> ptr list \<times> ptr" where
  "fifo_exec Work ([], c) = ([], 0)"
| "fifo_exec Work (x # xs, c) = (xs, x)"
| "fifo_exec (Spawn fn a stk) (xs, c) = (xs @ [a], c)"
| "fifo_exec Yield (xs, c) = (xs @ [c], 0)"
| "fifo_exec Return (xs, c) = (xs, 0)"

definition goes_to :: "'f sched result \<Rightarrow> ptr list \<times> ptr \<Rightarrow> bool" where
  "goes_to r q = (\<exists>s'. r = Inr s' \<and> sched_inv s' (fst q) \<and> current s' = snd q)"

lemma spawn_queues:
  assumes "ready s xs" "owns s ls" "set xs \<subseteq> set ls" "a \<noteq> 0" "cells s a = None"
  obtains s' where "spawn fn a stk s = Inr s'" "ready s' (xs @ [a])" "owns s' (a # ls)"
    "current s' = current s" "cleanup s' = cleanup s" "at s' = at s"
proof -
  let ?k = "\<lparr>co_context = AtEntry, co_fn = fn, co_stack = stk, co_stackSize = 64 * 1024, co_prev = 0, co_next = 0\<rparr>"
  let ?s = "s\<lparr>cells := (cells s)(a \<mapsto> ?k), stacks := (stk, 64 * 1024) # stacks s\<rparr>"
  have a: "a \<notin> set xs" using assms by (auto simp: owns_def)
  have o: "owns ?s (a # ls)" using owns_new [OF assms(2,4,5), of ?k] by simp
  have "ready ?s xs"
    using assms(1) ready_upd [OF a, of s "Some ?k"] by (simp add: ready_def)
  then obtain s' where s': "coroQueue a ?s = Inr s'" "ready s' (xs @ [a])" "keeps ?s s'"
    using rq.enq [of ?s xs a] a assms(4) by auto
  moreover have "owns s' (a # ls)" by (rule owns_keeps [OF s'(3) o])
  ultimately show ?thesis using that [of s'] by (simp add: spawn_def keeps_def)
qed

lemma exec_spawn:
  assumes "sched_inv s xs" "enabled (Spawn fn a stk) s"
  shows "goes_to (exec (Spawn fn a stk) s) (fifo_exec (Spawn fn a stk) (xs, current s))"
proof -
  have "ready s xs" "owns s (xs @ nonnull (current s) @ nonnull (cleanup s))"
    using assms(1) by (auto simp: sched_inv_def)
  then obtain s' where s': "spawn fn a stk s = Inr s'" "ready s' (xs @ [a])"
    "owns s' (a # xs @ nonnull (current s) @ nonnull (cleanup s))"
    "current s' = current s" "cleanup s' = cleanup s" "at s' = at s"
    by (rule spawn_queues [of s xs _ a fn stk]) (use assms(2) in auto)
  moreover have "owns s' ((xs @ [a]) @ nonnull (current s) @ nonnull (cleanup s))"
    by (rule owns_mset [OF s'(3)]) simp
  ultimately show ?thesis using assms by (auto simp: goes_to_def sched_inv_def)
qed

lemma exec_return:
  assumes "sched_inv s xs" "enabled Return s"
  shows "goes_to (exec Return s) (fifo_exec Return (xs, current s))"
  using assms by (auto simp: goes_to_def sched_inv_def coroEntry_exit_def coroReturn_def nonnull_def)

lemma exec_yield:
  assumes "sched_inv s xs" "enabled Yield s"
  shows "goes_to (exec Yield s) (fifo_exec Yield (xs, current s))"
proof -
  let ?c = "current s"
  have c: "?c \<noteq> 0" "cleanup s = 0" "ready s xs" "owns s (xs @ [?c])"
    using assms by (auto simp: sched_inv_def nonnull_def)
  then have "?c \<notin> set xs" "?c \<in> dom (cells s)" by (auto simp: owns_def)
  then obtain s1 where s1: "coroQueue ?c s = Inr s1" "ready s1 (xs @ [?c])" "keeps s s1"
    using rq.enq [of s xs ?c] c by auto
  have o1: "owns s1 (xs @ [?c])" by (rule owns_keeps [OF s1(3) c(4)])
  have cur: "current s1 = ?c" "cleanup s1 = 0" using s1(3) c(2) by (simp_all add: keeps_def)
  from o1 obtain k where k: "cells s1 ?c = Some k" by (auto simp: owns_def)
  let ?s2 = "s1\<lparr>cells := (cells s1)(?c \<mapsto> k\<lparr>co_context := InYield\<rparr>)\<rparr>"
  have "links (cells ?s2) 0 (xs @ [?c])"
    by (rule links_cong_links [of _ "cells s1"]) (use s1(2) k in \<open>auto simp: ready_def\<close>)
  then have "ready ?s2 (xs @ [?c])" using s1(2) by (simp add: ready_def)
  moreover have "owns ?s2 (xs @ [?c])"
    using o1 k c(1) by (auto simp: owns_def stack_of_def intro!: image_mset_cong)
  ultimately show ?thesis
    using s1(1) c(1) cur k by (simp add: goes_to_def sched_inv_def yield_def coroReturn_def nonnull_def)
qed

lemma dispatch_ok:
  assumes "ready s xs" "owns s xs" "current s = 0" "cleanup s = 0"
  shows "goes_to (coroDispatch s) (fifo_exec Work (xs, c))"
proof (cases xs)
  case Nil
  with assms show ?thesis by (simp add: coroDispatch_def ready_def goes_to_def sched_inv_def nonnull_def)
next
  case (Cons x ys)
  with assms obtain s1 where s1: "coroDequeue x s = Inr s1" "ready s1 ys" "keeps s s1"
    using rq.deq [of s x ys] by auto
  have o: "owns s1 (x # ys)" using owns_keeps [OF s1(3)] assms(2) Cons by simp
  then obtain k where k: "cells s1 x = Some k" by (auto simp: owns_def)
  have "owns s1 (ys @ [x])" by (rule owns_mset [OF o]) simp
  moreover have "readyHead s = x" "x \<noteq> 0" using assms(1) Cons by (auto simp: ready_def)
  moreover have "current s1 = 0" "cleanup s1 = 0" using s1(3) assms(3,4) by (simp_all add: keeps_def)
  ultimately show ?thesis
    using s1 k Cons by (simp add: coroDispatch_def goes_to_def sched_inv_def nonnull_def deref_def)
qed

lemma exec_work:
  assumes "sched_inv s xs" "enabled Work s"
  shows "goes_to (exec Work s) (fifo_exec Work (xs, current s))"
proof (cases "cleanup s = 0")
  case True
  then have "current s = 0" "ready s xs" "owns s xs"
    using assms by (auto simp: sched_inv_def nonnull_def)
  with True show ?thesis using dispatch_ok [of s xs 0] by (simp add: schedulerRun_def)
next
  case False
  let ?c = "cleanup s"
  have s: "ready s xs" "owns s (xs @ [?c])" "current s = 0"
    using assms False by (auto simp: sched_inv_def nonnull_def)
  have o: "owns s (?c # xs)" by (rule owns_mset [OF s(2)]) simp
  then obtain k where k: "cells s ?c = Some k" by (auto simp: owns_def)
  let ?s = "s\<lparr>cells := (cells s)(?c := None), stacks := remove1 (co_stack k, co_stackSize k) (stacks s)\<rparr>"
  have "?c \<notin> set xs" using o by (simp add: owns_def)
  then have r: "ready ?s xs" using s(1) ready_upd [of ?c xs s None] by (simp add: ready_def)
  have "goes_to (coroDispatch (?s\<lparr>cleanup := 0\<rparr>)) (fifo_exec Work (xs, current s))"
    by (rule dispatch_ok) (use r owns_free(2) [OF o k] s(3) in simp_all)
  moreover have "schedulerRun s = coroDispatch (?s\<lparr>cleanup := 0\<rparr>)"
    using False k owns_free(1) [OF o k]
    by (simp add: schedulerRun_def deref_def unmap_def) (rule arg_cong [of _ _ coroDispatch], simp)
  ultimately show ?thesis by simp
qed

lemma exec_ok:
  assumes "sched_inv s xs" "enabled ev s"
  shows "goes_to (exec ev s) (fifo_exec ev (xs, current s))"
proof (cases ev)
  case Work
  with assms show ?thesis using exec_work by blast
next
  case (Spawn fn a stk)
  with assms show ?thesis using exec_spawn [of s xs fn a stk] by simp
next
  case Yield
  with assms show ?thesis using exec_yield [of s xs] by simp
next
  case Return
  with assms show ?thesis using exec_return [of s xs] by simp
qed

lemma start_ok:
  assumes "a \<noteq> 0"
  shows "goes_to (aikeEntry main a stk) ([], a)"
proof -
  have "ready sched0 []" "owns sched0 []" by (simp_all add: ready_def owns_def sched0_def)
  then obtain s where s: "spawn main a stk (sched0 :: 'a sched) = Inr s" "ready s [a]" "owns s [a]"
    "current s = 0" "cleanup s = 0"
    using spawn_queues [of "sched0 :: 'a sched" "[]" "[]" a main stk] assms by (auto simp: sched0_def)
  with dispatch_ok [of s "[a]" 0] show ?thesis by (simp add: aikeEntry_def schedulerRun_def)
qed

lemma reachable_inv: "reachable s \<Longrightarrow> \<exists>xs. sched_inv s xs"
proof (induction rule: reachable.induct)
  case (start a main stk s)
  then show ?case using start_ok [of a main stk] by (auto simp: goes_to_def)
next
  case (step s ev s')
  then show ?case using exec_ok [of s _ ev] by (auto simp: goes_to_def)
qed

section \<open>Properties\<close>

text \<open>A run for the witnesses: coroutine 1 starts, and spawns 2 and 3.\<close>

definition demo_sched :: "nat sched" where
  "demo_sched =
     \<lparr>readyHead = 2, readyTail = 3, current = 1, cleanup = 0,
      cells = [1 \<mapsto> \<lparr>co_context = AtEntry, co_fn = 7, co_stack = 100, co_stackSize = 65536, co_prev = 0, co_next = 0\<rparr>,
               2 \<mapsto> \<lparr>co_context = AtEntry, co_fn = 8, co_stack = 200, co_stackSize = 65536, co_prev = 0, co_next = 3\<rparr>,
               3 \<mapsto> \<lparr>co_context = AtEntry, co_fn = 9, co_stack = 300, co_stackSize = 65536, co_prev = 2, co_next = 0\<rparr>],
      stacks = [(300, 65536), (200, 65536), (100, 65536)], at = InCoro AtEntry\<rparr>"

lemmas scheduler_code = aikeEntry_def spawn_def yield_def coroQueue_def coroDequeue_def coroDispatch_def
  schedulerRun_def coroEntry_exit_def coroReturn_def deref_def unmap_def sched0_def

lemma demo_reachable: "reachable demo_sched"
proof -
  have a: "reachable (fst (projr (bindR (aikeEntry 7 1 100) (\<lambda>s. Inr (s, ())))))" (is "reachable ?s")
    by (rule reachable.start [of 1 7 100]) (simp_all add: scheduler_code)
  have "reachable (projr (exec (Spawn 8 2 200) ?s))" (is "reachable ?t")
    by (rule reachable.step [OF a, of "Spawn 8 2 200"]) (simp_all add: scheduler_code)
  then have "reachable (projr (exec (Spawn 9 3 300) ?t))" (is "reachable ?u")
    by (rule reachable.step [of _ "Spawn 9 3 300"]) (simp_all add: scheduler_code)
  also have "?u = demo_sched" by (auto simp: scheduler_code demo_sched_def)
  finally show ?thesis .
qed



text \<open>
  C27: The scheduler refines a first-in first-out queue: in every reachable state the links of the
  ready list describe one list of coroutines, and an event changes this list and the running
  coroutine as it does on the queue.
\<close>

theorem scheduler_refines_fifo:
  assumes "reachable s" "enabled ev s" "exec ev s = Inr s'"
  shows "\<exists>xs. ready s xs \<and> ready s' (fst (fifo_exec ev (xs, current s))) \<and>
    current s' = snd (fifo_exec ev (xs, current s))"
proof -
  from reachable_inv [OF assms(1)] obtain xs where xs: "sched_inv s xs" ..
  from exec_ok [OF this assms(2)] assms(3) xs show ?thesis
    unfolding goes_to_def sched_inv_def by auto
qed

lemma scheduler_refines_fifo_witness:
  "\<exists>s' xs. exec Yield demo_sched = Inr s' \<and> ready s' (xs @ [1])"
proof -
  have "isRight (exec Yield demo_sched)" by (simp add: scheduler_code demo_sched_def)
  then obtain s' where s': "exec Yield demo_sched = Inr s'" by (rule isRightE)
  have "enabled Yield demo_sched" by (simp add: demo_sched_def)
  from scheduler_refines_fifo [OF demo_reachable this s'] s' show ?thesis
    by (auto simp: demo_sched_def)
qed

text \<open>
  C28: Nothing leaks and nothing is freed twice: in every reachable state the allocated coroutines
  are, each once, the ready ones, the running one and the one to be cleaned up, and the mapped
  stacks are theirs. While a coroutine runs, its stack is among them and is the one the signal
  handler is told; when \<open>schedulerRun\<close> returns, everything has been released.
\<close>

theorem scheduler_owns:
  assumes "reachable s"
  shows "\<exists>xs. ready s xs \<and> owns s (xs @ nonnull (current s) @ nonnull (cleanup s)) \<and>
    (\<forall>r. at s = InCoro r \<longrightarrow> (\<exists>st \<in> set (stacks s). schedulerGetStack s = Inr (Some st))) \<and>
    (at s = Returned \<longrightarrow> cells s = Map.empty \<and> stacks s = [])"
proof -
  from reachable_inv [OF assms] obtain xs where xs: "sched_inv s xs" ..
  then have o: "owns s (xs @ nonnull (current s) @ nonnull (cleanup s))" by (simp add: sched_inv_def)
  have "\<exists>st \<in> set (stacks s). schedulerGetStack s = Inr (Some st)" if r: "at s = InCoro r" for r
  proof -
    have c: "current s \<noteq> 0" using xs r by (simp add: sched_inv_def)
    have "owns s (current s # xs @ nonnull (cleanup s))"
      by (rule owns_mset [OF o]) (use c in \<open>simp add: nonnull_def\<close>)
    moreover from this obtain k where k: "cells s (current s) = Some k" by (auto simp: owns_def)
    ultimately have "(co_stack k, co_stackSize k) \<in> set (stacks s)" by (rule owns_free)
    then show ?thesis using c k by (simp add: schedulerGetStack_def deref_def)
  qed
  moreover have "cells s = Map.empty \<and> stacks s = []" if "at s = Returned"
    using xs that by (auto simp: sched_inv_def owns_def nonnull_def eq_commute [of "{}"])
  ultimately show ?thesis using xs by (auto simp: sched_inv_def)
qed

lemma scheduler_owns_witness:
  "\<exists>st \<in> set (stacks demo_sched). schedulerGetStack demo_sched = Inr (Some st)"
  using scheduler_owns [OF demo_reachable] by (auto simp: demo_sched_def)

text \<open>A sequence of events, each of them possible where it happens.\<close>

fun happens :: "'f event list \<Rightarrow> 'f sched \<Rightarrow> 'f sched \<Rightarrow> bool" where
  "happens [] s s' = (s' = s)"
| "happens (ev # evs) s s' = (enabled ev s \<and> (\<exists>t. exec ev s = Inr t \<and> happens evs t s'))"

fun works :: "'f event list \<Rightarrow> nat" where
  "works [] = 0"
| "works (Work # evs) = Suc (works evs)"
| "works (_ # evs) = works evs"

lemma turn:
  "sched_inv s xs \<Longrightarrow> happens (evs @ [Work]) s s' \<Longrightarrow> works evs < length xs \<Longrightarrow>
     current s' = xs ! works evs"
proof (induction evs arbitrary: s xs)
  case Nil
  with exec_work [of s xs] show ?case by (cases xs) (auto simp: goes_to_def)
next
  case (Cons ev evs)
  from Cons.prems(2) obtain t where t: "enabled ev s" "exec ev s = Inr t" "happens (evs @ [Work]) t s'"
    by auto
  from exec_ok [OF Cons.prems(1) t(1)] t(2)
  have inv: "sched_inv t (fst (fifo_exec ev (xs, current s)))" by (simp add: goes_to_def)
  note ih = Cons.IH [OF inv t(3)]
  show ?case
  proof (cases ev)
    case Work
    with Cons.prems(3) obtain x ys where "xs = x # ys" by (cases xs) auto
    with ih Work Cons.prems(3) show ?thesis by simp
  qed (use ih Cons.prems(3) in \<open>simp_all add: nth_append\<close>)
qed

text \<open>
  C29: No coroutine starves: one that has \<open>i\<close> others before it in the ready list runs at the
  \<open>i + 1\<close>st time that the worker gets control, whatever is spawned, yields or returns meanwhile.
\<close>

theorem scheduler_fair:
  assumes "reachable s" "ready s xs" "happens (evs @ [Work]) s s'" "works evs < length xs"
  shows "current s' = xs ! works evs"
proof -
  from reachable_inv [OF assms(1)] obtain ys where ys: "sched_inv s ys" ..
  have "links h p xs \<Longrightarrow> links h p ys \<Longrightarrow> first xs = first ys \<Longrightarrow> xs = ys" for h :: "ptr \<Rightarrow> 'a coro option" and p
  proof (induction xs arbitrary: ys p)
    case Nil
    then show ?case by (cases ys) auto
  next
    case (Cons x xs)
    then show ?case by (cases ys) auto
  qed
  then have "xs = ys" using assms(2) ys by (auto simp: ready_def sched_inv_def)
  with turn [OF ys assms(3)] assms(4) show ?thesis by simp
qed

lemma scheduler_fair_witness:
  "\<exists>s'. happens ([Yield, Work, Return] @ [Work]) demo_sched s' \<and> current s' = 3"
proof -
  have r: "ready demo_sched [2, 3]" by (simp add: ready_def demo_sched_def)
  have "\<exists>s'. happens ([Yield, Work, Return] @ [Work]) demo_sched s'"
    by (simp add: scheduler_code demo_sched_def)
  then obtain s' where s': "happens ([Yield, Work, Return] @ [Work]) demo_sched s'" ..
  from scheduler_fair [OF demo_reachable r s'] s' show ?thesis by auto
qed

end
