(* ===== verification/Memory.thy ===== *)
theory Memory
  imports Prelude
begin

text \<open>
  The runtime's memory at the width of its integers: the pages of a coroutine's stack
  (\<open>runtime/stack_unix.cpp\<close>), the blocks of the collector (\<open>runtime/gc.cpp\<close>), and the walk over the
  frames of a stack (\<open>runtime/backtrace_unix.cpp\<close>). \<open>size_t\<close> and \<open>uintptr_t\<close> are 64-bit words. \<open>mmap\<close>
  and \<open>GC_malloc\<close> are parameters: the address they answer for a size.
\<close>

unbundle bit_operations_syntax

type_synonym size = "64 word"

section \<open>Stacks\<close>

definition kPageSize :: size where
  "kPageSize = 4096"

definition round_up :: "size \<Rightarrow> size" where
  "round_up stackSize = (stackSize + kPageSize - 1) AND NOT (kPageSize - 1)"

text \<open>A range of addresses: where it starts, and its length.\<close>

type_synonym range = "size \<times> size"

text \<open>What \<open>stackCreate\<close> returns, what it has mapped, and what it has protected against any access.\<close>

record stack_made =
  sm_result :: size
  sm_mapped :: range
  sm_guard :: "range option"

definition stackCreate :: "(size \<Rightarrow> size) \<Rightarrow> size \<Rightarrow> stack_made" where
  "stackCreate mmap stackSize =
     (let n = round_up stackSize; ret = mmap (n + kPageSize)
      in if ret = 0 then \<lparr>sm_result = ret, sm_mapped = (ret, n + kPageSize), sm_guard = None\<rparr>
         else \<lparr>sm_result = ret + kPageSize, sm_mapped = (ret, n + kPageSize), sm_guard = Some (ret, kPageSize)\<rparr>)"

text \<open>The range that \<open>stackDestroy\<close> unmaps.\<close>

definition stackDestroy :: "size \<Rightarrow> size \<Rightarrow> range result" where
  "stackDestroy stack stackSize =
     bindR (assertR (stack \<noteq> 0)) (\<lambda>_.
       let n = round_up stackSize in Inr (stack - kPageSize, n + kPageSize))"

section \<open>Blocks of the collector\<close>

text \<open>
  A block: how many bytes were asked for, where it is, its header, and the range that is filled
  with zeros, which the caller gets.
\<close>

record gc_block =
  gb_asked :: size
  gb_at :: size
  gb_count :: "size option"
  gb_type :: size
  gb_data :: range

definition msg_out_of_memory :: "size \<Rightarrow> string" where
  "msg_out_of_memory n = ''Out of memory while allocating '' @ show_int (sint n) @ '' bytes''"

definition gcAlloc :: "(size \<Rightarrow> size) \<Rightarrow> size \<Rightarrow> size result" where
  "gcAlloc GC_malloc n =
     (let p = GC_malloc n in if p = 0 then Inl (Panic Location0 (msg_out_of_memory n)) else Inr p)"

definition gcNew :: "(size \<Rightarrow> size) \<Rightarrow> size \<Rightarrow> size \<Rightarrow> gc_block result" where
  "gcNew GC_malloc ti n =
     bindR (gcAlloc GC_malloc (8 + n)) (\<lambda>block.
       Inr \<lparr>gb_asked = 8 + n, gb_at = block, gb_count = None, gb_type = ti, gb_data = (block + 8, n)\<rparr>)"

definition gcNewArray :: "(size \<Rightarrow> size) \<Rightarrow> size \<Rightarrow> size \<Rightarrow> size \<Rightarrow> gc_block result" where
  "gcNewArray GC_malloc ti count elementSize =
     (let n = count * elementSize
      in bindR (gcAlloc GC_malloc (16 + n)) (\<lambda>block.
           Inr \<lparr>gb_asked = 16 + n, gb_at = block, gb_count = Some count, gb_type = ti,
                gb_data = (block + 16, n)\<rparr>))"

text \<open>The collector runs only inside \<open>gcCollect\<close>: the calls it makes, in order.\<close>

datatype gc_call = GC_init | GC_enable | GC_collect | GC_disable

definition gcInit :: "gc_call list" where
  "gcInit = [GC_init, GC_disable]"

definition gcCollect :: "gc_call list" where
  "gcCollect = [GC_enable, GC_collect, GC_disable]"

section \<open>Backtraces\<close>

definition isReadable :: "size \<Rightarrow> size \<Rightarrow> size \<Rightarrow> size \<Rightarrow> bool" where
  "isReadable stack stackSize address addressSize =
     (address \<ge> stack \<and> (address - stack) + addressSize \<le> stackSize)"

text \<open>
  The frames the walk prints, as their instruction pointers; \<open>mem\<close> reads a word of memory. The
  loop ends, for the frame pointers increase.
\<close>

function backtrace_walk :: "(size \<Rightarrow> size) \<Rightarrow> size \<Rightarrow> size \<Rightarrow> size \<Rightarrow> size list" where
  "backtrace_walk mem stack stackSize fp =
     (if isReadable stack stackSize fp 16 \<and> fp AND (16 - 1) = 0 then
        let nextip = mem (fp + 8); nextfp = mem fp
        in if nextip = 0 \<or> nextfp \<le> fp then []
           else nextip # backtrace_walk mem stack stackSize nextfp
      else [])"
  by pat_completeness auto
termination
proof (relation "measure (\<lambda>(mem, stack, n, fp). 2 ^ 64 - unat fp)")
  fix mem :: "size \<Rightarrow> size" and stack n fp nextip nextfp :: size
  assume "nextfp = mem fp" "\<not> (nextip = 0 \<or> nextfp \<le> fp)"
  then have "unat fp < unat (mem fp)" by (simp add: not_le word_less_nat_alt)
  moreover have "unat (mem fp) < 2 ^ 64" using unsigned_less [of "mem fp"] by simp
  ultimately show "((mem, stack, n, nextfp), mem, stack, n, fp) \<in> measure (\<lambda>(mem, stack, n, fp). 2 ^ 64 - unat fp)"
    using \<open>nextfp = mem fp\<close> by simp
qed simp

declare backtrace_walk.simps [simp del]

definition backtraceDump :: "(size \<Rightarrow> size) \<Rightarrow> size \<Rightarrow> size \<Rightarrow> size \<Rightarrow> size \<Rightarrow> size list" where
  "backtraceDump mem stack stackSize ip fp = ip # backtrace_walk mem stack stackSize fp"

end
