(* ===== verification/MemoryCorrect.thy ===== *)
theory MemoryCorrect
  imports Memory
begin

text \<open>
  Bounds of the runtime's address arithmetic: page rounding, stack regions, block layout, and the
  frames a backtrace reads.
\<close>

section \<open>Page rounding\<close>

lemma and_not_sub: "(x::'a::len word) AND NOT m = x - (x AND m)"
proof -
  have "(x AND m) + (x AND NOT m) = (x AND m) OR (x AND NOT m)"
    by (rule disjunctive_add) (auto simp: bit_simps)
  also have "\<dots> = x" by (rule bit_word_eqI) (auto simp: bit_simps)
  finally show ?thesis by (simp add: algebra_simps)
qed

lemma unat_and_mask: "unat (x AND mask n) = unat x mod 2 ^ n"
  by (metis take_bit_eq_mask take_bit_eq_mod unsigned_take_bit_eq)

lemma unat_and_not: "unat ((x::'a::len word) AND NOT (mask n)) = unat x - unat x mod 2 ^ n"
  unfolding and_not_sub by (subst unat_sub) (simp_all add: word_and_le2 unat_and_mask)

lemma unat_less: "unat (x :: size) < 2 ^ 64"
  using unsigned_less [of x] by simp

lemma unat_add: "unat (x :: size) + unat y < 2 ^ 64 \<Longrightarrow> unat (x + y) = unat x + unat y"
  by (simp add: unat_word_ariths)

lemma unat_add_of_nat: "unat (x :: size) + k < 2 ^ 64 \<Longrightarrow> unat (x + of_nat k) = unat x + k"
  using unat_add [of x "of_nat k"] by (simp add: unsigned_of_nat take_bit_nat_eq_self)

lemma unat_mult: "unat (x :: size) * unat y < 2 ^ 64 \<Longrightarrow> unat (x * y) = unat x * unat y"
  by (simp add: unat_word_ariths)

lemma unat_round_up:
  assumes "unat n \<le> 2 ^ 64 - 8192"
  shows "unat (round_up n) = (unat n + 4095) div 4096 * 4096"
proof -
  have m: "kPageSize - 1 = mask 12" by (simp add: kPageSize_def mask_eq_exp_minus_1)
  have "unat (n + kPageSize - 1) = unat n + 4095"
    using unat_add_of_nat [of n 4095] assms by (simp add: kPageSize_def add.commute)
  then have "unat (round_up n) = unat n + 4095 - (unat n + 4095) mod 4096"
    unfolding round_up_def m by (simp only: unat_and_not) simp
  then show ?thesis by (simp add: minus_mod_eq_div_mult)
qed

text \<open>
  C30: The page arithmetic of stacks: for a size that leaves two pages of the address space, and
  any answer of \<open>mmap\<close> that lies in the address space, the stack starts one protected page into
  the mapping, its size is the least multiple of the page size that is enough, and it ends where
  the mapping ends; and \<open>stackDestroy\<close>, given the same pointer and size, unmaps exactly what
  was mapped.
\<close>

theorem stack_regions:
  assumes "unat n \<le> 2 ^ 64 - 8192" "\<And>m. unat m < unat n + 8192 \<Longrightarrow> mmap m \<noteq> 0 \<and> unat (mmap m) + unat m < 2 ^ 64"
  shows "let s = stackCreate mmap n; len = unat (snd (sm_mapped s)) in
    sm_guard s = Some (fst (sm_mapped s), kPageSize) \<and>
    unat (sm_result s) = unat (fst (sm_mapped s)) + 4096 \<and>
    4096 dvd len - 4096 \<and> unat n \<le> len - 4096 \<and> len - 4096 < unat n + 4096 \<and>
    unat (sm_result s) + (len - 4096) = unat (fst (sm_mapped s)) + len \<and>
    stackDestroy (sm_result s) n = Inr (sm_mapped s)"
proof -
  let ?r = "round_up n" and ?base = "mmap (round_up n + kPageSize)"
  have r: "unat ?r = (unat n + 4095) div 4096 * 4096" by (rule unat_round_up [OF assms(1)])
  have le: "unat n \<le> unat ?r" "unat ?r < unat n + 4096" unfolding r by linarith+
  have d: "4096 dvd unat ?r" unfolding r by simp
  have "unat ?r \<le> 2 ^ 64 - 8192"
  proof -
    have "unat ?r div 4096 \<le> (2 ^ 64 - 8192 + 4095) div (4096 :: nat)"
      using assms(1) unfolding r by (simp add: div_le_mono)
    moreover have "unat ?r = unat ?r div 4096 * 4096" using d by simp
    ultimately show ?thesis by simp
  qed
  then have len: "unat (?r + kPageSize) = unat ?r + 4096"
    using unat_add_of_nat [of ?r 4096] by (simp add: kPageSize_def)
  have m: "?base \<noteq> 0" "unat ?base + unat (?r + kPageSize) < 2 ^ 64"
    using assms(2) [of "?r + kPageSize"] len le by simp_all
  then have base: "unat (?base + kPageSize) = unat ?base + 4096"
    using unat_add_of_nat [of ?base 4096] len by (simp add: kPageSize_def)
  then have "?base + kPageSize \<noteq> 0" by auto
  then show ?thesis
    using m len base le d
    by (simp add: Let_def stackCreate_def stackDestroy_def)
qed

text \<open>The stack of a coroutine, when the mapping is at \<open>0x10000\<close>.\<close>

lemma stack_regions_witness:
  "stackDestroy (sm_result (stackCreate (\<lambda>m. 0x10000) 65536)) 65536 =
   Inr (sm_mapped (stackCreate (\<lambda>m. 0x10000) 65536))"
  using stack_regions [of 65536 "\<lambda>m. 0x10000"] by (simp add: Let_def)

section \<open>Blocks\<close>

text \<open>
  A block for an array whose size does not overflow holds it: what is asked for is the header
  and the elements, and element \<open>i\<close> lies inside what is cleared, which ends where the block ends.
\<close>

theorem gcNewArray_fits:
  assumes "gcNewArray GC_malloc ti count elementSize = Inr b"
    "unat count * unat elementSize + 16 < 2 ^ 64"
    "\<And>n. unat (GC_malloc n) + unat n < 2 ^ 64" "i < unat count"
  shows "unat (gb_asked b) = 16 + unat count * unat elementSize \<and> gb_count b = Some count \<and>
    unat (fst (gb_data b)) = unat (gb_at b) + 16 \<and>
    i * unat elementSize + unat elementSize \<le> unat (snd (gb_data b)) \<and>
    unat (fst (gb_data b)) + unat (snd (gb_data b)) = unat (gb_at b) + unat (gb_asked b)"
proof -
  let ?n = "count * elementSize" and ?p = "GC_malloc (16 + count * elementSize)"
  have n: "unat ?n = unat count * unat elementSize" using assms(2) by (intro unat_mult) simp
  have asked: "unat (16 + ?n) = 16 + unat ?n" using unat_add [of 16 ?n] assms(2) n by simp
  have at: "unat (?p + 16) = unat ?p + 16"
    using unat_add [of ?p 16] assms(3) [of "16 + ?n"] asked by simp
  have "i * unat elementSize + unat elementSize = Suc i * unat elementSize" by simp
  also have "\<dots> \<le> unat ?n" unfolding n using assms(4) by (intro mult_le_mono1) simp
  finally show ?thesis
    using assms(1) n asked at by (auto simp: gcNewArray_def gcAlloc_def Let_def split: if_splits)
qed

lemma gcNewArray_fits_witness:
  "\<exists>b. gcNewArray (\<lambda>n. if n = 40 then 0x1000 else 0) 5 3 8 = Inr b \<and> unat (gb_asked b) = 16 + 3 * 8 \<and>
     2 * 8 + 8 \<le> unat (snd (gb_data b))"
proof -
  let ?m = "\<lambda>n :: size. if n = 40 then 0x1000 else (0 :: size)"
  have "isRight (gcNewArray ?m 5 3 8)" by code_simp
  then obtain b where b: "gcNewArray ?m 5 3 8 = Inr b" by (rule isRightE)
  have "unat (?m n) + unat n < 2 ^ 64" for n using unat_less [of n] by simp
  from gcNewArray_fits [OF b _ this, of 2] b show ?thesis by auto
qed

text \<open>
  The size of an array can overflow: for \<open>2 ^ 61\<close> elements of 8 bytes, the block that is asked
  for has room for its header alone, while the header promises \<open>2 ^ 61\<close> elements.
\<close>

theorem gcNewArray_overflows:
  "gcNewArray GC_malloc ti (2 ^ 61) 8 =
     bindR (gcAlloc GC_malloc 16) (\<lambda>block.
       Inr \<lparr>gb_asked = 16, gb_at = block, gb_count = Some (2 ^ 61), gb_type = ti, gb_data = (block + 16, 0)\<rparr>)"
proof -
  have "(2 :: size) ^ 61 * 8 = 0" by code_simp
  then show ?thesis unfolding gcNewArray_def Let_def by (simp only:) simp
qed

section \<open>Backtraces\<close>

text \<open>An address that passes the check is that of two words inside the stack.\<close>

lemma isReadable_iff:
  assumes "16 \<le> unat stack" "unat stack + unat n \<le> 2 ^ 64"
  shows "isReadable stack n fp 16 \<longleftrightarrow> unat stack \<le> unat fp \<and> unat fp + 16 \<le> unat stack + unat n"
proof (cases "stack \<le> fp")
  case True
  then have d: "unat (fp - stack) = unat fp - unat stack" by (rule unat_sub)
  then have "unat (fp - stack + 16) = unat fp - unat stack + 16"
    using unat_add [of "fp - stack" 16] unat_less [of fp] assms(1) by simp
  then show ?thesis using True by (auto simp: isReadable_def word_le_nat_alt)
next
  case False
  then show ?thesis by (simp add: isReadable_def word_le_nat_alt)
qed

text \<open>
  C31: The walk over the frames reads only the stack: on two memories that agree on the words of the
  stack, it finds the same frames.
\<close>

theorem backtrace_reads_stack:
  assumes "16 \<le> unat stack" "unat stack + unat n \<le> 2 ^ 64"
    "\<And>a. unat stack \<le> unat a \<Longrightarrow> unat a + 8 \<le> unat stack + unat n \<Longrightarrow> mem a = mem' a"
  shows "backtraceDump mem stack n ip fp = backtraceDump mem' stack n ip fp"
proof -
  have "backtrace_walk mem stack n fp = backtrace_walk mem' stack n fp"
    using assms
  proof (induction mem stack n fp rule: backtrace_walk.induct)
    case (1 mem stack n fp)
    show ?case
    proof (cases "isReadable stack n fp 16 \<and> fp AND (16 - 1) = 0")
      case True
      then have in_stack: "unat stack \<le> unat fp" "unat fp + 16 \<le> unat stack + unat n"
        using isReadable_iff [OF 1(2,3), of fp] by simp_all
      then have "unat (fp + 8) = unat fp + 8"
        using unat_add_of_nat [of fp 8] 1(3) by simp
      then have "mem fp = mem' fp" "mem (fp + 8) = mem' (fp + 8)"
        using 1(4) [of fp] 1(4) [of "fp + 8"] in_stack by simp_all
      then show ?thesis
        using 1(1) [OF True refl refl] 1(2-4) True
        by (subst (1 2) backtrace_walk.simps) (simp add: Let_def)
    next
      case False
      then show ?thesis by (subst (1 2) backtrace_walk.simps) auto
    qed
  qed
  then show ?thesis by (simp add: backtraceDump_def)
qed

lemma backtrace_reads_stack_witness:
  "backtraceDump (\<lambda>a. if a = 0x1000 then 0x1010 else if a = 0x1008 then 7 else 0) 0x1000 0x20 1 0x1000 =
   backtraceDump (\<lambda>a. if a = 0x1000 then 0x1010 else if a = 0x1008 then 7 else if a < 0x1000 then 3 else 0)
     0x1000 0x20 1 0x1000"
  by (rule backtrace_reads_stack) (auto simp: word_less_nat_alt)

text \<open>
  A backtrace is short: after the frame it starts from, it has at most one frame for each 16
  bytes of the stack, whatever the memory holds.
\<close>

theorem backtrace_bounded:
  assumes "16 \<le> unat stack" "unat stack + unat n \<le> 2 ^ 64"
  shows "length (backtraceDump mem stack n ip fp) \<le> unat n div 16 + 1"
proof -
  have "unat stack \<le> unat fp \<Longrightarrow>
      16 * length (backtrace_walk mem stack n fp) \<le> (unat stack + unat n) - unat fp"
    using assms
  proof (induction mem stack n fp rule: backtrace_walk.induct)
    case (1 mem stack n fp)
    let ?next = "mem fp"
    show ?case
    proof (cases "isReadable stack n fp 16 \<and> fp AND (16 - 1) = 0 \<and> mem (fp + 8) \<noteq> 0 \<and> fp < ?next")
      case True
      then have r: "isReadable stack n fp 16 \<and> fp AND (16 - 1) = 0" "\<not> (mem (fp + 8) = 0 \<or> ?next \<le> fp)"
        by auto
      have fp: "unat fp + 16 \<le> unat stack + unat n" "unat fp < unat ?next"
        using isReadable_iff [OF 1(3,4), of fp] True by (simp_all add: word_less_nat_alt)
      have ih: "16 * length (backtrace_walk mem stack n ?next) \<le> unat stack + unat n - unat ?next"
        using 1(1) [OF r(1) refl refl r(2)] 1(2-4) fp by simp
      have walk: "backtrace_walk mem stack n fp = mem (fp + 8) # backtrace_walk mem stack n ?next"
        using r by (subst backtrace_walk.simps) (simp add: Let_def)
      show ?thesis
      proof (cases "backtrace_walk mem stack n ?next")
        case Nil
        with walk fp show ?thesis by simp
      next
        case (Cons a as)
        then have "?next AND mask 4 = 0"
          by (subst (asm) backtrace_walk.simps) (simp add: mask_eq_exp_minus_1 split: if_splits)
        then have "16 dvd unat ?next" using and_mask_dvd_nat [of 4 ?next] by simp
        moreover have "16 dvd unat fp"
          using r(1) and_mask_dvd_nat [of 4 fp] by (simp add: mask_eq_exp_minus_1)
        ultimately have "unat fp + 16 \<le> unat ?next" using fp(2) by (auto elim!: dvdE)
        with ih walk fp show ?thesis by simp
      qed
    next
      case False
      then have "backtrace_walk mem stack n fp = []"
        by (subst backtrace_walk.simps) (auto simp: Let_def not_less)
      then show ?thesis by simp
    qed
  qed
  moreover have "backtrace_walk mem stack n fp = []" if "unat fp < unat stack"
    using that by (subst backtrace_walk.simps) (simp add: isReadable_def word_le_nat_alt)
  ultimately show ?thesis by (cases "unat stack \<le> unat fp") (auto simp: backtraceDump_def)
qed

lemma backtrace_bounded_witness:
  "length (backtraceDump (\<lambda>a. a + 16) 0x1000 0x10000 1 0x1000) \<le> 0x10000 div 16 + 1"
  using backtrace_bounded [of "0x1000" "0x10000" "\<lambda>a. a + 16" 1 "0x1000"] by simp

end
