(* ===== verification/Resolve.thy ===== *)
theory Resolve
  imports Ast Output
begin

text \<open>
  Name resolution, \<open>compiler/resolve.cpp\<close>. The visitor changes the tree and the types it goes
  through: identifiers get their targets, function declarations their parent and module. The
  visitor here returns the new tree. A type node is shared by the variables and the nodes it is
  the type of, so what is written into an instance node is kept in the state, by the address of
  the node, and in the end written through all copies.
\<close>

section \<open>Scopes\<close>

text \<open>A binding and the one it shadows.\<close>

datatype 'v binding = Binding (b_name: str) (b_value: 'v) (b_shadow: "'v binding option")

text \<open>The map from names to their innermost binding; the stack, with its top first.\<close>

record 'v name_map =
  nm_data :: "str \<Rightarrow> 'v binding option"
  nm_stack :: "'v binding list"

definition nm_empty :: "'v name_map" where
  "nm_empty = \<lparr>nm_data = (\<lambda>_. None), nm_stack = []\<rparr>"

definition nm_find :: "'v name_map \<Rightarrow> str \<Rightarrow> 'v option" where
  "nm_find m nm = map_option b_value (nm_data m nm)"

fun shadow_values :: "'v binding option \<Rightarrow> 'v list" where
  "shadow_values None = []"
| "shadow_values (Some (Binding nm v sh)) = v # shadow_values sh"

definition nm_findAll :: "'v name_map \<Rightarrow> str \<Rightarrow> 'v list" where
  "nm_findAll m nm = shadow_values (nm_data m nm)"

definition nm_push :: "str \<Rightarrow> 'v \<Rightarrow> 'v name_map \<Rightarrow> 'v name_map" where
  "nm_push nm v m =
     (let b = Binding nm v (nm_data m nm)
      in m\<lparr>nm_data := (nm_data m)(nm := Some b), nm_stack := b # nm_stack m\<rparr>)"

fun pop_bindings :: "nat \<Rightarrow> 'v binding list \<Rightarrow> (str \<Rightarrow> 'v binding option) \<Rightarrow> 'v name_map" where
  "pop_bindings offset [] d = \<lparr>nm_data = d, nm_stack = []\<rparr>"
| "pop_bindings offset (b # bs) d =
     (if length (b # bs) > offset then pop_bindings offset bs (d(b_name b := b_shadow b))
      else \<lparr>nm_data = d, nm_stack = b # bs\<rparr>)"

definition nm_pop :: "nat \<Rightarrow> 'v name_map \<Rightarrow> 'v name_map result" where
  "nm_pop offset m =
     bindR (assertR (offset \<le> length (nm_stack m))) (\<lambda>_.
       Inr (pop_bindings offset (nm_stack m) (nm_data m)))"

definition nm_top :: "'v name_map \<Rightarrow> nat" where
  "nm_top m = length (nm_stack m)"

section \<open>The state\<close>

text \<open>
  \<open>rs_written\<close> is what has been written into instance nodes, by their address: the definition and
  the generic. A function is named by the address of its variable, a module by its name.
\<close>

record rs =
  rs_output :: outp
  rs_variables :: "addr name_map"
  rs_typedefs :: "addr name_map"
  rs_generics :: "addr name_map"
  rs_functions :: "addr list"
  rs_module :: "str option"
  rs_written :: "addr \<Rightarrow> (addr option \<times> addr option) option"

definition rs_top :: "rs \<Rightarrow> nat \<times> nat \<times> nat" where
  "rs_top s = (nm_top (rs_variables s), nm_top (rs_typedefs s), nm_top (rs_generics s))"

definition rs_pop :: "nat \<times> nat \<times> nat \<Rightarrow> rs \<Rightarrow> rs result" where
  "rs_pop offset s =
     bindR (nm_pop (fst offset) (rs_variables s)) (\<lambda>v.
     bindR (nm_pop (fst (snd offset)) (rs_typedefs s)) (\<lambda>t.
     bindR (nm_pop (snd (snd offset)) (rs_generics s)) (\<lambda>g.
       Inr (s\<lparr>rs_variables := v, rs_typedefs := t, rs_generics := g\<rparr>))))"

type_synonym var_store = "(addr \<times> variable) list"

definition get_var :: "var_store \<Rightarrow> addr \<Rightarrow> variable result" where
  "get_var vs a = (case map_of vs a of Some v \<Rightarrow> Inr v | None \<Rightarrow> Inl NullDeref)"

definition push_variable :: "var_store \<Rightarrow> addr \<Rightarrow> rs \<Rightarrow> rs result" where
  "push_variable vs a s =
     bindR (get_var vs a) (\<lambda>v. Inr (s\<lparr>rs_variables := nm_push (v_name v) a (rs_variables s)\<rparr>))"

definition rs_error :: "location \<Rightarrow> str \<Rightarrow> rs \<Rightarrow> rs result" where
  "rs_error loc msg s = bindR (error_at (rs_output s) loc msg) (\<lambda>out. Inr (s\<lparr>rs_output := out\<rparr>))"

section \<open>Names of declarations and types\<close>

definition resolveDecl :: "var_store \<Rightarrow> ast \<Rightarrow> rs \<Rightarrow> rs result" where
  "resolveDecl vs root s =
     (case ast_node root of
        FnDecl v tas as att b p m \<Rightarrow> push_variable vs v s
      | TyDecl nm a d \<Rightarrow> Inr (s\<lparr>rs_typedefs := nm_push nm a (rs_typedefs s)\<rparr>)
      | _ \<Rightarrow> Inr s)"

text \<open>The fields \<open>def\<close> and \<open>generic\<close> of an instance node now.\<close>

definition instance_now :: "rs \<Rightarrow> addr \<Rightarrow> addr option \<times> addr option \<Rightarrow> addr option \<times> addr option" where
  "instance_now s i p = (case rs_written s i of Some q \<Rightarrow> q | None \<Rightarrow> p)"

definition write_instance :: "addr \<Rightarrow> addr option \<times> addr option \<Rightarrow> rs \<Rightarrow> rs" where
  "write_instance i p s = s\<lparr>rs_written := (rs_written s)(i := Some p)\<rparr>"

definition resolveTypeInstance :: "ty \<Rightarrow> rs \<Rightarrow> rs result" where
  "resolveTypeInstance t s =
     (case t of
        TyInstance i nm loc as df gen \<Rightarrow>
          if instance_now s i (df, gen) = (None, None) then
            (case nm_find (rs_typedefs s) nm of
               Some def \<Rightarrow> Inr (write_instance i (Some def, None) s)
             | None \<Rightarrow>
                 (case nm_find (rs_generics s) nm of
                    Some g \<Rightarrow> Inr (write_instance i (None, Some g) s)
                  | None \<Rightarrow> rs_error loc (''Unresolved type '' @ nm) s))
          else Inr s
      | _ \<Rightarrow> Inr s)"

definition resolveType :: "ty \<Rightarrow> rs \<Rightarrow> rs result" where
  "resolveType t s = visitType resolveTypeInstance t s"

text \<open>\<open>moduleResolver->lookup\<close> is a parameter: the module of a name, null if there is none.\<close>

definition resolveImport_module :: "var_store \<Rightarrow> ast \<Rightarrow> rs \<Rightarrow> rs result" where
  "resolveImport_module vs root s =
     (case ast_node root of
        Module nm b ai \<Rightarrow>
          (case ast_node b of
             Block body \<Rightarrow> foldS (resolveDecl vs) body s
           | _ \<Rightarrow> Inl AssertFail)
      | _ \<Rightarrow> Inl AssertFail)"

definition resolveImport :: "var_store \<Rightarrow> (str \<Rightarrow> ast option) option \<Rightarrow> str \<Rightarrow> rs \<Rightarrow> rs result" where
  "resolveImport vs moduleResolver nm s =
     (case moduleResolver of
        None \<Rightarrow> Inl AssertFail
      | Some lookup \<Rightarrow>
          (case lookup nm of None \<Rightarrow> Inl AssertFail | Some import \<Rightarrow> resolveImport_module vs import s))"

definition resolveBindings :: "var_store \<Rightarrow> addr list \<Rightarrow> addr list result" where
  "resolveBindings vs targets =
     (case targets of
        [] \<Rightarrow> Inr []
      | t # _ \<Rightarrow>
          bindR (get_var vs t) (\<lambda>v.
            if v_kind v \<noteq> KindFunction then Inr [t]
            else bindR (mapR (get_var vs) targets) (\<lambda>kinds.
              Inr (map fst (filter (\<lambda>p. v_kind (snd p) = KindFunction) (zip targets kinds))))))"

definition push_generic :: "ty \<Rightarrow> rs \<Rightarrow> rs result" where
  "push_generic t s =
     (case t of
        TyGeneric g nm loc \<Rightarrow> Inr (s\<lparr>rs_generics := nm_push nm g (rs_generics s)\<rparr>)
      | _ \<Rightarrow> Inl AssertFail)"

section \<open>Rebuilding a node\<close>

text \<open>A node with new children, in the order of the visitor.\<close>

fun rebuild_fields :: "'a struct_field list \<Rightarrow> 'a list \<Rightarrow> 'a struct_field list" where
  "rebuild_fields [] cs = []"
| "rebuild_fields (StructField nm loc t None # fs) cs = StructField nm loc t None # rebuild_fields fs cs"
| "rebuild_fields (StructField nm loc t (Some e) # fs) cs =
     StructField nm loc t (Some (hd cs)) # rebuild_fields fs (tl cs)"

fun rebuild :: "'a node \<Rightarrow> 'a list \<Rightarrow> 'a node" where
  "rebuild (LiteralTuple fs) cs = LiteralTuple cs"
| "rebuild (LiteralArray es) cs = LiteralArray cs"
| "rebuild (LiteralStruct nm fs) cs = LiteralStruct nm (zip (map fst fs) cs)"
| "rebuild (Member e f) cs = Member (hd cs) f"
| "rebuild (Block b) cs = Block cs"
| "rebuild (Module nm b ai) cs = Module nm (hd cs) ai"
| "rebuild (Call e as) cs = Call (hd cs) (tl cs)"
| "rebuild (Unary op e) cs = Unary op (hd cs)"
| "rebuild (Binary op l r) cs = Binary op (hd cs) (hd (tl cs))"
| "rebuild (Index e i) cs = Index (hd cs) (hd (tl cs))"
| "rebuild (Assign l r) cs = Assign (hd cs) (hd (tl cs))"
| "rebuild (If c t e) cs = If (hd cs) (hd (tl cs)) (case e of Some b \<Rightarrow> Some (hd (tl (tl cs))) | None \<Rightarrow> None)"
| "rebuild (For v i e b) cs = For v i (hd cs) (hd (tl cs))"
| "rebuild (While e b) cs = While (hd cs) (hd (tl cs))"
| "rebuild (FnDecl v tas as att b p m) cs = FnDecl v tas as att (case b of Some e \<Rightarrow> Some (hd cs) | None \<Rightarrow> None) p m"
| "rebuild (Fn i d) cs = Fn i (hd cs)"
| "rebuild (VarDecl v e) cs = VarDecl v (hd cs)"
| "rebuild (TyDecl nm a d) cs = TyDecl nm a (TyDef_Struct (sd_tyargs d) (rebuild_fields (sd_fields d) cs))"
| "rebuild n cs = n"

text \<open>The inner visitor for a callback that returns the new node.\<close>

definition visitInner :: "(ast \<Rightarrow> 's \<Rightarrow> (ast \<times> 's) result) \<Rightarrow> ast \<Rightarrow> 's \<Rightarrow> (ast \<times> 's) result" where
  "visitInner f root s =
     bindR (mapS f (children (ast_node root)) s) (\<lambda>(cs, s').
       Inr (Node (astType root) (astLocation root) (rebuild (ast_node root) cs), s'))"

lemma visitInner_cong [fundef_cong]:
  "root = root' \<Longrightarrow> s = s' \<Longrightarrow> (\<And>c t. c \<in> set (children (ast_node root')) \<Longrightarrow> f c t = g c t) \<Longrightarrow>
   visitInner f root s = visitInner g root' s'"
  unfolding visitInner_def by (simp cong: mapS_cong)

lemma children_rebuild_fields:
  "length cs = length (List.map_filter sf_expr fs) \<Longrightarrow> List.map_filter sf_expr (rebuild_fields fs cs) = cs"
proof (induction fs cs rule: rebuild_fields.induct)
  case (3 nm loc t e fs cs)
  then show ?case by (cases cs) (auto simp: map_filter_simps)
qed (auto simp: map_filter_simps)

lemma children_rebuild: "length cs = length (children n) \<Longrightarrow> children (rebuild n cs) = cs"
  by (cases n)
    (auto simp: children_rebuild_fields length_Suc_conv map_snd_zip split: option.splits)

section \<open>The visitor\<close>

text \<open>The part of the function case before the body, and of the type case before the fields.\<close>

definition enter_types :: "var_store \<Rightarrow> ty list \<Rightarrow> ast \<Rightarrow> rs \<Rightarrow> rs result" where
  "enter_types vs tyargs root s = bindR (foldS push_generic tyargs s) (visitAstTypes vs resolveType root)"

text \<open>The cases of \<open>resolveNamesNode\<close>, over its recursive calls \<open>rec\<close>.\<close>

type_synonym visit = "ast \<Rightarrow> rs \<Rightarrow> (ast \<times> rs) result"

definition resolve_body :: "var_store \<Rightarrow> visit \<Rightarrow> addr \<Rightarrow> addr list \<Rightarrow> ast \<Rightarrow> visit" where
  "resolve_body vs rec v as body root s =
     bindR (foldS (push_variable vs) as s) (\<lambda>s1.
     bindR (visitInner rec root (s1\<lparr>rs_functions := v # rs_functions s1\<rparr>)) (\<lambda>(root', s2).
       Inr (root', s2\<lparr>rs_functions := tl (rs_functions s2)\<rparr>)))"

definition set_parent :: "addr option \<Rightarrow> str option \<Rightarrow> ast \<Rightarrow> ast" where
  "set_parent parent md root =
     (case root of
        Node t loc (FnDecl v tas as att b p m) \<Rightarrow> Node t loc (FnDecl v tas as att b parent md)
      | _ \<Rightarrow> root)"

definition resolve_FnDecl ::
    "var_store \<Rightarrow> visit \<Rightarrow> addr \<Rightarrow> ty list \<Rightarrow> addr list \<Rightarrow> ast option \<Rightarrow> visit" where
  "resolve_FnDecl vs rec v tas as b root s =
     bindR (enter_types vs tas root s) (\<lambda>s1.
     bindR (case b of None \<Rightarrow> Inr (root, s1) | Some body \<Rightarrow> resolve_body vs rec v as body root s1)
       (\<lambda>(root', s2).
     bindR (rs_pop (rs_top s) s2) (\<lambda>s3.
       Inr (set_parent (case rs_functions s of [] \<Rightarrow> None | f # _ \<Rightarrow> Some f) (rs_module s) root', s3))))"

definition resolve_TyDecl :: "var_store \<Rightarrow> visit \<Rightarrow> ast tydef \<Rightarrow> visit" where
  "resolve_TyDecl vs rec d root s =
     bindR (enter_types vs (sd_tyargs d) root s) (\<lambda>s1.
     bindR (visitInner rec root s1) (\<lambda>(root', s2).
     bindR (rs_pop (rs_top s) s2) (\<lambda>s3. Inr (root', s3))))"

definition resolve_Ident :: "var_store \<Rightarrow> str \<Rightarrow> ty list \<Rightarrow> bool \<Rightarrow> visit" where
  "resolve_Ident vs nm tas res root s =
     bindR (resolveBindings vs (nm_findAll (rs_variables s) nm)) (\<lambda>targets.
     bindR (if length targets = 0
            then rs_error (astLocation root) (''Unresolved identifier '' @ nm) s
            else Inr s) (\<lambda>s'.
       Inr (Node (astType root) (astLocation root) (Ident nm tas targets res), s')))"

definition resolve_Block :: "var_store \<Rightarrow> visit \<Rightarrow> ast list \<Rightarrow> visit" where
  "resolve_Block vs rec body root s =
     bindR (foldS (resolveDecl vs) body s) (\<lambda>s1.
     bindR (visitInner rec root s1) (\<lambda>(root', s2).
     bindR (rs_pop (rs_top s) s2) (\<lambda>s3. Inr (root', s3))))"

definition resolve_Module ::
    "var_store \<Rightarrow> (str \<Rightarrow> ast option) option \<Rightarrow> visit \<Rightarrow> str \<Rightarrow> str list \<Rightarrow> visit" where
  "resolve_Module vs ml rec nm autoimports root s =
     bindR (assertR (rs_module s = None)) (\<lambda>_.
     bindR (foldS (resolveImport vs ml) autoimports (s\<lparr>rs_module := Some nm\<rparr>)) (\<lambda>s1.
       visitInner rec root s1))"

definition resolve_For :: "var_store \<Rightarrow> visit \<Rightarrow> addr \<Rightarrow> addr option \<Rightarrow> ast \<Rightarrow> ast \<Rightarrow> visit" where
  "resolve_For vs rec v i e b root s =
     bindR (rec e s) (\<lambda>(e', s1).
     bindR (push_variable vs v s1) (\<lambda>s2.
     bindR (case i of Some j \<Rightarrow> push_variable vs j s2 | None \<Rightarrow> Inr s2) (\<lambda>s3.
     bindR (rec b s3) (\<lambda>(b', s4).
     bindR (rs_pop (rs_top s) s4) (\<lambda>s5.
       Inr (Node (astType root) (astLocation root) (For v i e' b'), s5))))))"

definition resolve_VarDecl :: "var_store \<Rightarrow> visit \<Rightarrow> addr \<Rightarrow> visit" where
  "resolve_VarDecl vs rec v root s =
     bindR (visitInner rec root s) (\<lambda>(root', s1).
     bindR (push_variable vs v s1) (\<lambda>s2. Inr (root', s2)))"

text \<open>The other cases, after the types of the node.\<close>

definition resolve_other :: "var_store \<Rightarrow> (str \<Rightarrow> ast option) option \<Rightarrow> visit \<Rightarrow> visit" where
  "resolve_other vs ml rec root s =
     (case ast_node root of
        Ident nm tas tgs res \<Rightarrow> resolve_Ident vs nm tas res root s
      | Block body \<Rightarrow> resolve_Block vs rec body root s
      | Module nm b autoimports \<Rightarrow> resolve_Module vs ml rec nm autoimports root s
      | For v i e b \<Rightarrow> resolve_For vs rec v i e b root s
      | VarDecl v e \<Rightarrow> resolve_VarDecl vs rec v root s
      | Import nm \<Rightarrow> bindR (resolveImport vs ml nm s) (\<lambda>s1. Inr (root, s1))
      | _ \<Rightarrow> visitInner rec root s)"

definition resolve_node :: "var_store \<Rightarrow> (str \<Rightarrow> ast option) option \<Rightarrow> visit \<Rightarrow> visit" where
  "resolve_node vs ml rec root s =
     (case ast_node root of
        FnDecl v tas as att b p m \<Rightarrow> resolve_FnDecl vs rec v tas as b root s
      | TyDecl nm a d \<Rightarrow> resolve_TyDecl vs rec d root s
      | _ \<Rightarrow> bindR (visitAstTypes vs resolveType root s) (resolve_other vs ml rec root))"

lemma resolve_node_cong [fundef_cong]:
  assumes "root = root'" "s = s'" "\<And>c t. c \<in> set (children (ast_node root')) \<Longrightarrow> f c t = g c t"
  shows "resolve_node vs ml f root s = resolve_node vs ml g root' s'"
proof -
  have "visitInner f root' t = visitInner g root' t" for t
    by (rule visitInner_cong) (use assms in auto)
  moreover have "f e t = g e t \<and> f b t = g b t" if "ast_node root' = For v i e b" for v i e b t
    using assms(3) that by simp
  ultimately show ?thesis
    unfolding assms(1,2) resolve_node_def
    by (cases "ast_node root'")
      (simp_all add: resolve_FnDecl_def resolve_TyDecl_def resolve_other_def [abs_def] resolve_Block_def
        resolve_Module_def resolve_VarDecl_def resolve_For_def resolve_body_def cong: option.case_cong bindR_cong)
qed

fun resolveNamesNode :: "var_store \<Rightarrow> (str \<Rightarrow> ast option) option \<Rightarrow> ast \<Rightarrow> rs \<Rightarrow> (ast \<times> rs) result" where
  "resolveNamesNode vs ml root s = resolve_node vs ml (resolveNamesNode vs ml) root s"

declare resolveNamesNode.simps [simp del]

section \<open>The pass\<close>

text \<open>What was written into instance nodes, in every copy of a type.\<close>

fun write_type :: "(addr \<Rightarrow> (addr option \<times> addr option) option) \<Rightarrow> ty \<Rightarrow> ty" where
  "write_type w (TyTuple fs) = TyTuple (map (write_type w) fs)"
| "write_type w (TyArray e) = TyArray (write_type w e)"
| "write_type w (TyPointer e) = TyPointer (write_type w e)"
| "write_type w (TyFunction as r v) = TyFunction (map (write_type w) as) (write_type w r) v"
| "write_type w (TyInstance i nm loc as df gen) =
     (case w i of
        Some (df', gen') \<Rightarrow> TyInstance i nm loc (map (write_type w) as) df' gen'
      | None \<Rightarrow> TyInstance i nm loc (map (write_type w) as) df gen)"
| "write_type w t = t"

fun map_node_types :: "(ty \<Rightarrow> ty) \<Rightarrow> 'a node \<Rightarrow> 'a node" where
  "map_node_types f (Ident nm tas tgs res) = Ident nm (map f tas) tgs res"
| "map_node_types f (FnDecl v tas as att b p m) = FnDecl v (map f tas) as att b p m"
| "map_node_types f (TyDecl nm a d) =
     TyDecl nm a (TyDef_Struct (map f (sd_tyargs d))
       (map (\<lambda>c. StructField (sf_name c) (sf_location c) (f (sf_type c)) (sf_expr c)) (sd_fields d)))"
| "map_node_types f n = n"

primrec map_ast_types :: "(ty \<Rightarrow> ty) \<Rightarrow> ast \<Rightarrow> ast" where
  "map_ast_types f (Node t loc n) =
     Node (map_option f t) loc (map_node_types f (map_node (map_ast_types f) n))"

definition map_var_types :: "(ty \<Rightarrow> ty) \<Rightarrow> var_store \<Rightarrow> var_store" where
  "map_var_types f vs = map (\<lambda>(a, v). (a, v\<lparr>v_type := f (v_type v)\<rparr>)) vs"

definition rs0 :: "outp \<Rightarrow> rs" where
  "rs0 out =
     \<lparr>rs_output = out, rs_variables = nm_empty, rs_typedefs = nm_empty, rs_generics = nm_empty,
      rs_functions = [], rs_module = None, rs_written = (\<lambda>_. None)\<rparr>"

definition resolveNames ::
    "outp \<Rightarrow> var_store \<Rightarrow> ast \<Rightarrow> (str \<Rightarrow> ast option) option \<Rightarrow> (ast \<times> var_store \<times> outp) result" where
  "resolveNames out vs root moduleResolver =
     bindR (resolveNamesNode vs moduleResolver root (rs0 out)) (\<lambda>(root', s).
       Inr (map_ast_types (write_type (rs_written s)) root',
            map_var_types (write_type (rs_written s)) vs, rs_output s))"

section \<open>Members\<close>

text \<open>
  \<open>strtoll\<close> in base 10 on any text: white space, a sign, digits. It answers the value, whether it
  is out of range, and the rest of the text, which is all of it when there is no digit.
\<close>

definition is_c_space :: "char \<Rightarrow> bool" where
  "is_c_space c = (c = CHR '' '' \<or> (CHR 0x09 \<le> c \<and> c \<le> CHR 0x0D))"

definition strtoll_any :: "str \<Rightarrow> int \<times> bool \<times> str" where
  "strtoll_any s =
     (let r = dropWhile is_c_space s;
          neg = (case r of c # _ \<Rightarrow> c = CHR ''-'' | [] \<Rightarrow> False);
          r' = (case r of c # q \<Rightarrow> if c = CHR ''-'' \<or> c = CHR ''+'' then q else r | [] \<Rightarrow> r);
          ds = takeWhile is_digit_char r';
          n = int (read_nat ds)
      in if ds = [] then (0, False, s)
         else if neg then (max (- n) (- (2 ^ 63)), n > 2 ^ 63, dropWhile is_digit_char r')
         else (min n (2 ^ 63 - 1), n > 2 ^ 63 - 1, dropWhile is_digit_char r'))"

text \<open>The first field of the name, from index \<open>i\<close> on; -1 when there is none.\<close>

fun find_field :: "'e struct_field list \<Rightarrow> str \<Rightarrow> int \<Rightarrow> int" where
  "find_field [] nm i = -1"
| "find_field (f # fs) nm i = (if sf_name f = nm then i else find_field fs nm (i + 1))"

definition findMember_tuple :: "ty list \<Rightarrow> str \<Rightarrow> int result" where
  "findMember_tuple fs nm =
     bindR (assertR (nm \<noteq> [])) (\<lambda>_.
       if hd nm = CHR ''_'' then
         (let (n, out_of_range, rest) = strtoll_any (tl nm)
          in Inr (if rest = [] \<and> \<not> out_of_range \<and> n \<ge> 0 \<and> n < int (length fs) then n else -1))
       else Inr (-1))"

definition findMember :: "(addr \<Rightarrow> 'e tydef option) \<Rightarrow> ty \<Rightarrow> str \<Rightarrow> int result" where
  "findMember defs t nm =
     (case t of
        TyInstance _ _ _ _ df _ \<Rightarrow>
          (case Option.bind df defs of
             None \<Rightarrow> Inl NullDeref
           | Some d \<Rightarrow> Inr (find_field (sd_fields d) nm 0))
      | TyTuple fs \<Rightarrow> findMember_tuple fs nm
      | _ \<Rightarrow> Inr (-1))"

definition msg_no_member :: "str \<Rightarrow> ty \<Rightarrow> str" where
  "msg_no_member nm t = ''No member named '' @ CHR 0x27 # nm @ CHR 0x27 # '' in '' @ typeName t"

text \<open>The new reference, whether it was found just now, and the output.\<close>

definition resolveFieldRef ::
    "(addr \<Rightarrow> 'e tydef option) \<Rightarrow> field_ref \<Rightarrow> ty \<Rightarrow> outp \<Rightarrow> (field_ref \<times> bool \<times> outp) result" where
  "resolveFieldRef defs f t out =
     (if fr_index f < 0 \<and> \<not> is_Unknown t then
        bindR (findMember defs t (fr_name f)) (\<lambda>i.
          if i \<ge> 0 then Inr (f\<lparr>fr_index := i\<rparr>, True, out)
          else bindR (error_at out (fr_location f) (msg_no_member (fr_name f) t)) (\<lambda>out'.
            Inr (f\<lparr>fr_index := i\<rparr>, False, out')))
      else Inr (f, False, out))"

text \<open>The state is the count of references found and the output.\<close>

type_synonym members = "int \<times> outp"

definition resolve_ref ::
    "(addr \<Rightarrow> 'e tydef option) \<Rightarrow> ty \<Rightarrow> field_ref \<Rightarrow> members \<Rightarrow> (field_ref \<times> members) result" where
  "resolve_ref defs t f s =
     bindR (resolveFieldRef defs f t (snd s)) (\<lambda>(f', found, out).
       Inr (f', fst s + (if found then 1 else 0), out))"

text \<open>A literal without a type is a null type here; \<open>typeck\<close> gives it one first.\<close>

definition resolveMembersNode ::
    "(addr \<Rightarrow> 'e tydef option) \<Rightarrow> ast \<Rightarrow> members \<Rightarrow> (ast node \<times> members) result" where
  "resolveMembersNode defs root s =
     (case ast_node root of
        Member e f \<Rightarrow>
          (case astType e of
             None \<Rightarrow> Inr (Member e f, s)
           | Some t \<Rightarrow> bindR (resolve_ref defs t f s) (\<lambda>(f', s'). Inr (Member e f', s')))
      | LiteralStruct nm fs \<Rightarrow>
          (case astType root of
               None \<Rightarrow>
                 if list_all (\<lambda>p. fr_index (fst p) \<ge> 0) fs then Inr (LiteralStruct nm fs, s)
                 else Inl NullDeref
             | Some t \<Rightarrow>
                 bindR (mapS (resolve_ref defs t) (map fst fs) s) (\<lambda>(refs, s').
                   Inr (LiteralStruct nm (zip refs (map snd fs)), s')))
      | n \<Rightarrow> Inr (n, s))"

fun resolveMembersRec :: "(addr \<Rightarrow> 'e tydef option) \<Rightarrow> ast \<Rightarrow> members \<Rightarrow> (ast \<times> members) result" where
  "resolveMembersRec defs root s =
     bindR (resolveMembersNode defs root s) (\<lambda>(n, s1).
     bindR (mapS (resolveMembersRec defs) (children (ast_node root)) s1) (\<lambda>(cs, s2).
       Inr (Node (astType root) (astLocation root) (rebuild n cs), s2)))"

declare resolveMembersRec.simps [simp del]

definition resolveMembers :: "(addr \<Rightarrow> 'e tydef option) \<Rightarrow> outp \<Rightarrow> ast \<Rightarrow> (int \<times> ast \<times> outp) result" where
  "resolveMembers defs out root =
     bindR (resolveMembersRec defs root (0, out)) (\<lambda>(root', n, out'). Inr (n, root', out'))"

end
