(* ===== verification/ResolveCorrect.thy ===== *)
theory ResolveCorrect
  imports Resolve
begin

text \<open>
  Name resolution is lexical scoping: the map with its undo stack is an association list, and the
  targets that the pass gives to every identifier are those of a resolver that passes such a
  list down the tree.
\<close>

section \<open>The scope interface\<close>

text \<open>
  What the pass relies on: a map holds a list of bindings, the newest first; \<open>pop\<close> to a former
  \<open>top\<close> takes away what was pushed since.
\<close>

locale scope_map =
  fixes ok :: "'m \<Rightarrow> bool"
    and bindings :: "'m \<Rightarrow> (str \<times> 'v) list"
    and findAll :: "'m \<Rightarrow> str \<Rightarrow> 'v list"
    and push :: "str \<Rightarrow> 'v \<Rightarrow> 'm \<Rightarrow> 'm"
    and pop :: "nat \<Rightarrow> 'm \<Rightarrow> 'm result"
    and top :: "'m \<Rightarrow> nat"
  assumes find: "ok m \<Longrightarrow> findAll m nm = map snd (filter (\<lambda>p. fst p = nm) (bindings m))"
    and push: "ok m \<Longrightarrow> ok (push nm v m) \<and> bindings (push nm v m) = (nm, v) # bindings m"
    and pop: "ok m \<Longrightarrow> n \<le> top m \<Longrightarrow>
      \<exists>m'. pop n m = Inr m' \<and> ok m' \<and> bindings m' = drop (top m - n) (bindings m)"
    and top: "ok m \<Longrightarrow> top m = length (bindings m)"
begin

lemma pop_to:
  assumes "ok m" "ok m'" "bindings m' = ds @ bindings m"
  shows "\<exists>m''. pop (top m) m' = Inr m'' \<and> ok m'' \<and> bindings m'' = bindings m"
  using pop [OF assms(2), of "top m"] assms(1,3) top [OF assms(1)] top [OF assms(2)] by auto

lemma push_many:
  "ok m \<Longrightarrow> ok (fold (\<lambda>(nm, v). push nm v) ds m) \<and>
     bindings (fold (\<lambda>(nm, v). push nm v) ds m) = rev ds @ bindings m"
  by (induction ds arbitrary: m) (auto simp: push)

text \<open>A scope: whatever is pushed in it, after the pop each name means what it meant before.\<close>

lemma scope_restores:
  assumes "ok m"
  shows "\<exists>m'. pop (top m) (fold (\<lambda>(nm, v). push nm v) ds m) = Inr m' \<and> ok m' \<and> findAll m' = findAll m"
proof -
  note p = push_many [OF assms, of ds]
  from pop_to [OF assms conjunct1 [OF p] conjunct2 [OF p]] show ?thesis
    using assms by (auto simp: find fun_eq_iff)
qed

end

section \<open>The name map implements it\<close>

fun innermost :: "'v binding list \<Rightarrow> str \<Rightarrow> 'v binding option" where
  "innermost [] nm = None"
| "innermost (b # bs) nm = (if b_name b = nm then Some b else innermost bs nm)"

fun shadows_ok :: "'v binding list \<Rightarrow> bool" where
  "shadows_ok [] = True"
| "shadows_ok (b # bs) = (b_shadow b = innermost bs (b_name b) \<and> shadows_ok bs)"

definition nm_ok :: "'v name_map \<Rightarrow> bool" where
  "nm_ok m = (shadows_ok (nm_stack m) \<and> nm_data m = innermost (nm_stack m))"

definition nm_bindings :: "'v name_map \<Rightarrow> (str \<times> 'v) list" where
  "nm_bindings m = map (\<lambda>b. (b_name b, b_value b)) (nm_stack m)"

lemma shadow_values_innermost:
  "shadows_ok bs \<Longrightarrow> shadow_values (innermost bs nm) =
     map snd (filter (\<lambda>p. fst p = nm) (map (\<lambda>b. (b_name b, b_value b)) bs))"
proof (induction bs)
  case (Cons b bs)
  then show ?case by (cases b) auto
qed simp

lemma pop_bindings_ok:
  "shadows_ok bs \<Longrightarrow> d = innermost bs \<Longrightarrow> n \<le> length bs \<Longrightarrow>
   pop_bindings n bs d =
     \<lparr>nm_data = innermost (drop (length bs - n) bs), nm_stack = drop (length bs - n) bs\<rparr> \<and>
   shadows_ok (drop (length bs - n) bs)"
proof (induction bs arbitrary: d)
  case (Cons b bs)
  have u: "d(b_name b := b_shadow b) = innermost bs" using Cons.prems(1,2) by auto
  show ?case
  proof (cases "n \<le> length bs")
    case True
    with Cons.IH [of "innermost bs"] Cons.prems(1) u show ?thesis by (simp add: Suc_diff_le)
  next
    case False
    with Cons.prems have "n = Suc (length bs)" by simp
    with Cons.prems show ?thesis by simp
  qed
qed simp

interpretation scope: scope_map nm_ok nm_bindings nm_findAll nm_push nm_pop nm_top
proof unfold_locales
  fix m :: "'a name_map" and nm v n
  assume m: "nm_ok m"
  then show "nm_findAll m nm = map snd (filter (\<lambda>p. fst p = nm) (nm_bindings m))"
    by (simp add: nm_ok_def nm_findAll_def nm_bindings_def shadow_values_innermost)
  from m show "nm_ok (nm_push nm v m) \<and> nm_bindings (nm_push nm v m) = (nm, v) # nm_bindings m"
    by (auto simp: nm_ok_def nm_push_def nm_bindings_def Let_def)
  from m show "nm_top m = length (nm_bindings m)" by (simp add: nm_top_def nm_bindings_def)
  assume "n \<le> nm_top m"
  with m show "\<exists>m'. nm_pop n m = Inr m' \<and> nm_ok m' \<and> nm_bindings m' = drop (nm_top m - n) (nm_bindings m)"
    using pop_bindings_ok [of "nm_stack m" "nm_data m" n]
    by (auto simp: nm_ok_def nm_pop_def nm_top_def nm_bindings_def drop_map)
qed

text \<open>
  A scope of the name map restores it: after any declarations are pushed and popped again, each
  name has the bindings it had, in the same order.
\<close>

theorem name_map_scope:
  assumes "nm_ok m"
  shows "\<exists>m'. nm_pop (nm_top m) (fold (\<lambda>(nm, v). nm_push nm v) ds m) = Inr m' \<and> nm_ok m' \<and>
    nm_findAll m' = nm_findAll m \<and> nm_find m' = nm_find m"
proof -
  obtain m' where m': "nm_pop (nm_top m) (fold (\<lambda>(nm, v). nm_push nm v) ds m) = Inr m'" "nm_ok m'"
    "nm_findAll m' = nm_findAll m"
    using scope.scope_restores [OF assms] by blast
  have "nm_find k nm = (case nm_findAll k nm of [] \<Rightarrow> None | v # _ \<Rightarrow> Some v)" for k :: "'a name_map" and nm
    by (cases "nm_data k nm"; cases "the (nm_data k nm)") (auto simp: nm_find_def nm_findAll_def)
  then have "nm_find m' = nm_find m" using m'(3) by (simp add: fun_eq_iff)
  with m' show ?thesis by blast
qed

lemma name_map_scope_witness:
  "\<exists>m'. nm_pop 1 (nm_push ''y'' 3 (nm_push ''x'' 2 (nm_push ''x'' (1::nat) nm_empty))) = Inr m' \<and>
     nm_findAll m' ''x'' = [1]"
proof -
  let ?m = "nm_push ''x'' (1::nat) nm_empty"
  have "nm_ok ?m" by (simp add: nm_ok_def nm_push_def nm_empty_def Let_def fun_eq_iff)
  from name_map_scope [OF this, of "[(''x'', 2), (''y'', 3)]"]
  obtain m' where "nm_pop (nm_top ?m) (nm_push ''y'' 3 (nm_push ''x'' 2 ?m)) = Inr m'"
    "nm_findAll m' ''x'' = nm_findAll ?m ''x''" by auto
  moreover have "nm_top ?m = 1" "nm_findAll ?m ''x'' = [1]"
    by (simp_all add: nm_top_def nm_push_def nm_empty_def nm_findAll_def Let_def)
  ultimately show ?thesis by auto
qed

section \<open>Members\<close>

lemma find_field_correct:
  "(find_field fs nm i = -1 \<and> nm \<notin> set (map sf_name fs)) \<or>
   (\<exists>j < length fs. find_field fs nm i = i + int j \<and> sf_name (fs ! j) = nm \<and>
      (\<forall>l < j. sf_name (fs ! l) \<noteq> nm))"
proof (induction fs arbitrary: i)
  case (Cons f fs)
  show ?case
  proof (cases "sf_name f = nm")
    case True
    then show ?thesis by (intro disjI2 exI [of _ 0]) simp
  next
    case False
    from Cons.IH [of "i + 1"] show ?thesis
    proof (elim disjE exE conjE)
      fix j
      assume j: "j < length fs" "find_field fs nm (i + 1) = i + 1 + int j"
        "sf_name (fs ! j) = nm" "\<forall>l < j. sf_name (fs ! l) \<noteq> nm"
      then show ?thesis using False by (intro disjI2 exI [of _ "Suc j"]) (auto simp: less_Suc_eq_0_disj)
    qed (use False in auto)
  qed
qed simp

text \<open>
  A member of a struct value is looked up by name: the index is that of the first field with
  the name in the definition, and it is -1 exactly when there is none.
\<close>

theorem findMember_struct:
  assumes "defs df = Some d"
  shows "(findMember defs (TyInstance i ty loc as (Some df) gen) nm = Inr (-1) \<and>
      nm \<notin> set (map sf_name (sd_fields d))) \<or>
    (\<exists>j < length (sd_fields d). findMember defs (TyInstance i ty loc as (Some df) gen) nm = Inr (int j) \<and>
      sf_name (sd_fields d ! j) = nm \<and> (\<forall>l < j. sf_name (sd_fields d ! l) \<noteq> nm))"
  using find_field_correct [of "sd_fields d" nm 0] assms by (simp add: findMember_def)

lemma findMember_struct_witness:
  "findMember [7 \<mapsto> TyDef_Struct [] [StructField ''x'' Location0 TyInteger (None :: unit option),
       StructField ''y'' Location0 TyBool None]] (TyInstance 8 ''S'' Location0 [] (Some 7) None) ''z'' = Inr (-1)"
  using findMember_struct [where df = 7 and i = 8 and ty = "''S''" and loc = Location0 and as = "[]" and
      gen = None and nm = "''z''" and defs = "[7 \<mapsto> TyDef_Struct [] [StructField ''x'' Location0 TyInteger
        (None :: unit option), StructField ''y'' Location0 TyBool None]]"]
  by (auto simp: less_Suc_eq numeral_2_eq_2)

lemma not_space_digit: "is_digit_char c \<Longrightarrow> \<not> is_c_space c \<and> c \<noteq> CHR ''-'' \<and> c \<noteq> CHR ''+''"
  by (auto simp: is_digit_char_def is_c_space_def less_eq_char_def)

lemma strtoll_show_nat:
  assumes "n < 2 ^ 63"
  shows "strtoll_any (show_nat n) = (int n, False, [])"
proof -
  obtain c cs where c: "show_nat n = c # cs" by (cases "show_nat n") auto
  have d: "\<forall>x \<in> set (show_nat n). is_digit_char x" by (rule show_nat_digits)
  with c not_space_digit [of c] have "\<not> is_c_space c" "c \<noteq> CHR ''-''" "c \<noteq> CHR ''+''" by auto
  moreover have "takeWhile is_digit_char (show_nat n) = show_nat n" "dropWhile is_digit_char (show_nat n) = []"
    using d by (simp_all add: takeWhile_eq_all_conv dropWhile_eq_Nil_conv)
  ultimately show ?thesis
    using assms read_show_nat [of n] by (simp add: strtoll_any_def c Let_def)
qed

text \<open>
  The fields of a tuple have the names \<open>_0\<close>, \<open>_1\<close> and so on: the name made of an underscore and
  the decimal form of an index finds this index.
\<close>

theorem findMember_tuple_index:
  assumes "n < length fs" "length fs < 2 ^ 63"
  shows "findMember defs (TyTuple fs) (CHR ''_'' # show_nat n) = Inr (int n)"
  using assms strtoll_show_nat [of n] by (simp add: findMember_def findMember_tuple_def)

lemma findMember_tuple_index_witness:
  "findMember (\<lambda>_. None :: unit tydef option) (TyTuple [TyInteger, TyBool]) (CHR ''_'' # show_nat 1) = Inr (int 1)"
  by (rule findMember_tuple_index) simp_all

text \<open>A lone underscore is accepted as the first field: \<open>strtoll\<close> stops at once, at the end of the text.\<close>

lemma underscore_is_first_field: "findMember defs (TyTuple (t # ts)) ''_'' = Inr 0"
  by (simp add: findMember_def findMember_tuple_def strtoll_any_def)

text \<open>A member of a value whose type is a generic parameter reads the definition of a null pointer.\<close>

lemma member_of_generic_null: "findMember defs (TyInstance i nm loc as None (Some g)) x = Inl NullDeref"
  by (simp add: findMember_def)

end
