(* ===== verification/Scoping.thy ===== *)
theory Scoping
  imports ResolveCorrect
begin

text \<open>
  The reference resolver: a list of bindings goes down the tree, each node sees those of the scopes
  around it, and nothing is undone. \<open>resolveNames\<close> gives the same tree.
\<close>

section \<open>Lexical scoping\<close>

definition vname :: "var_store \<Rightarrow> addr \<Rightarrow> str" where
  "vname vs a = (case map_of vs a of Some v \<Rightarrow> v_name v | None \<Rightarrow> [])"

definition bound :: "var_store \<Rightarrow> addr \<Rightarrow> str \<times> addr" where
  "bound vs a = (vname vs a, a)"

definition decl_of :: "var_store \<Rightarrow> ast \<Rightarrow> (str \<times> addr) list" where
  "decl_of vs c = (case ast_node c of FnDecl v tas as att b p m \<Rightarrow> [bound vs v] | _ \<Rightarrow> [])"

definition exports :: "var_store \<Rightarrow> (str \<Rightarrow> ast option) option \<Rightarrow> str \<Rightarrow> (str \<times> addr) list" where
  "exports vs ml nm =
     (case Option.bind ml (\<lambda>lookup. lookup nm) of
        None \<Rightarrow> []
      | Some root \<Rightarrow>
          (case ast_node root of
             Module _ b _ \<Rightarrow>
               (case ast_node b of Block body \<Rightarrow> concat (map (decl_of vs) body) | _ \<Rightarrow> [])
           | _ \<Rightarrow> []))"

text \<open>The declarations a node leaves in the scope it is in, in order.\<close>

fun leaks :: "var_store \<Rightarrow> (str \<Rightarrow> ast option) option \<Rightarrow> ast \<Rightarrow> (str \<times> addr) list" where
  "leaks vs ml root =
     (let inner = concat (map (leaks vs ml) (children (ast_node root)))
      in case ast_node root of
           FnDecl _ _ _ _ _ _ _ \<Rightarrow> []
         | TyDecl _ _ _ \<Rightarrow> []
         | Block _ \<Rightarrow> []
         | For _ _ _ _ \<Rightarrow> []
         | VarDecl v e \<Rightarrow> inner @ [bound vs v]
         | Import nm \<Rightarrow> exports vs ml nm
         | Module nm b ai \<Rightarrow> concat (map (exports vs ml) ai) @ inner
         | _ \<Rightarrow> inner)"

declare leaks.simps [simp del]

text \<open>Nodes in sequence: each sees what those before it leave.\<close>

fun in_sequence :: "('e \<Rightarrow> 'a \<Rightarrow> 'a) \<Rightarrow> ('a \<Rightarrow> 'd list) \<Rightarrow> ('d list \<Rightarrow> 'e) \<Rightarrow> 'd list \<Rightarrow> 'a list \<Rightarrow> 'a list" where
  "in_sequence f lk mk env [] = []"
| "in_sequence f lk mk env (c # cs) = f (mk env) c # in_sequence f lk mk (rev (lk c) @ env) cs"

lemma in_sequence_eq:
  "(\<And>e c. c \<in> set cs \<Longrightarrow> f e c = g e c) \<Longrightarrow> in_sequence f lk mk env cs = in_sequence g lk mk env cs"
  by (induction cs arbitrary: env) auto

lemma in_sequence_cong [fundef_cong]:
  "env = env' \<Longrightarrow> cs = cs' \<Longrightarrow> lk = lk' \<Longrightarrow> mk = mk' \<Longrightarrow> (\<And>e c. c \<in> set cs' \<Longrightarrow> f e c = g e c) \<Longrightarrow>
   in_sequence f lk mk env cs = in_sequence g lk' mk' env' cs'"
  using in_sequence_eq [of cs' f g lk' mk' env'] by simp

text \<open>The targets of a name: the innermost binding, or all functions if it is one.\<close>

definition is_function :: "var_store \<Rightarrow> addr \<Rightarrow> bool" where
  "is_function vs a = (case map_of vs a of Some v \<Rightarrow> v_kind v = KindFunction | None \<Rightarrow> False)"

definition targets_in :: "var_store \<Rightarrow> (str \<times> addr) list \<Rightarrow> str \<Rightarrow> addr list" where
  "targets_in vs env nm =
     (case map snd (filter (\<lambda>p. fst p = nm) env) of
        [] \<Rightarrow> []
      | t # ts \<Rightarrow> if is_function vs t then filter (is_function vs) (t # ts) else [t])"

text \<open>The environment: the bindings, the enclosing function and the module.\<close>

type_synonym env = "(str \<times> addr) list \<times> addr option \<times> str option"

fun lexical :: "var_store \<Rightarrow> (str \<Rightarrow> ast option) option \<Rightarrow> env \<Rightarrow> ast \<Rightarrow> ast" where
  "lexical vs ml (env, par, md) root =
     (let under = (\<lambda>env' par' md'. rebuild (ast_node root)
            (in_sequence (lexical vs ml) (leaks vs ml) (\<lambda>e. (e, par', md')) env' (children (ast_node root))));
          out = Node (astType root) (astLocation root)
      in case ast_node root of
           Ident nm tas _ res \<Rightarrow> out (Ident nm tas (targets_in vs env nm) res)
         | FnDecl v tas as att b p m \<Rightarrow>
             set_parent par md (out (under (rev (map (bound vs) as) @ env) (Some v) md))
         | Block body \<Rightarrow> out (under (rev (concat (map (decl_of vs) body)) @ env) par md)
         | Module nm b ai \<Rightarrow> out (under (rev (concat (map (exports vs ml) ai)) @ env) par (Some nm))
         | For v i e b \<Rightarrow>
             out (For v i (lexical vs ml (env, par, md) e)
               (lexical vs ml ((case i of Some j \<Rightarrow> [bound vs j] | None \<Rightarrow> []) @ bound vs v #
                  rev (leaks vs ml e) @ env, par, md) b))
         | n \<Rightarrow> out (under env par md))"

declare lexical.simps [simp del]

section \<open>What an operation does to the names\<close>

definition in_scope :: "rs \<Rightarrow> (str \<times> addr) list" where
  "in_scope s = nm_bindings (rs_variables s)"

definition parent_of :: "rs \<Rightarrow> addr option" where
  "parent_of s = (case rs_functions s of [] \<Rightarrow> None | f # _ \<Rightarrow> Some f)"

definition env_of :: "rs \<Rightarrow> env" where
  "env_of s = (in_scope s, parent_of s, rs_module s)"

definition same_names :: "rs \<Rightarrow> rs \<Rightarrow> bool" where
  "same_names s s' =
     (rs_variables s' = rs_variables s \<and> rs_functions s' = rs_functions s \<and> rs_module s' = rs_module s)"

text \<open>\<open>adds ds s s'\<close>: the declarations \<open>ds\<close> have come into scope.\<close>

definition adds :: "(str \<times> addr) list \<Rightarrow> rs \<Rightarrow> rs \<Rightarrow> bool" where
  "adds ds s s' =
     (nm_ok (rs_variables s) \<longrightarrow>
        nm_ok (rs_variables s') \<and> in_scope s' = rev ds @ in_scope s \<and>
        rs_functions s' = rs_functions s \<and> rs_module s' = rs_module s)"

lemma same_names_adds: "same_names s s' \<Longrightarrow> adds [] s s'"
  by (simp add: same_names_def adds_def in_scope_def)

lemma adds_trans: "adds ds s s' \<Longrightarrow> adds es s' s'' \<Longrightarrow> adds (ds @ es) s s''"
  by (simp add: adds_def)

lemma adds_refl: "adds [] s s"
  by (simp add: adds_def)

lemma adds_env: "adds ds s s' \<Longrightarrow> nm_ok (rs_variables s) \<Longrightarrow>
  env_of s' = (rev ds @ in_scope s, parent_of s, rs_module s)"
  by (simp add: adds_def env_of_def parent_of_def)

lemma foldS_adds:
  "(\<And>x s s'. x \<in> set xs \<Longrightarrow> f x s = Inr s' \<Longrightarrow> adds (g x) s s') \<Longrightarrow> foldS f xs s = Inr s' \<Longrightarrow>
   adds (concat (map g xs)) s s'"
proof (induction xs arbitrary: s)
  case Nil
  then show ?case by (simp add: adds_refl)
next
  case (Cons x xs)
  then obtain s1 where s1: "f x s = Inr s1" "foldS f xs s1 = Inr s'" by (auto simp: bindR_eq_Inr)
  have "adds (g x) s s1" by (rule Cons.prems(1)) (use s1 in auto)
  moreover have "adds (concat (map g xs)) s1 s'" by (rule Cons.IH [OF Cons.prems(1) s1(2)]) auto
  ultimately show ?case by (simp add: adds_trans)
qed

lemma same_names_rel: "reflp same_names" "transp same_names"
  by (auto simp: same_names_def intro!: reflpI transpI)

lemma resolveType_same: "resolveType t s = Inr s' \<Longrightarrow> same_names s s'"
  unfolding resolveType_def
proof (erule visitType_rel [OF same_names_rel, rotated])
  fix t and s s' :: rs
  show "resolveTypeInstance t s = Inr s' \<Longrightarrow> same_names s s'"
    by (auto simp: resolveTypeInstance_def same_names_def write_instance_def rs_error_def bindR_eq_Inr
        split: ty.splits if_splits option.splits)
qed

lemma types_same: "visitAstTypes vs resolveType root s = Inr s' \<Longrightarrow> same_names s s'"
  by (rule visitAstTypes_rel [OF same_names_rel resolveType_same])

lemma enter_types_same:
  assumes "enter_types vs tas root s = Inr s'"
  shows "same_names s s'"
proof -
  obtain s1 where s1: "foldS push_generic tas s = Inr s1" "visitAstTypes vs resolveType root s1 = Inr s'"
    using assms by (auto simp: enter_types_def bindR_eq_Inr)
  have "same_names s s1"
    by (rule foldS_rel [OF same_names_rel _ s1(1)])
      (auto simp: push_generic_def same_names_def split: ty.splits)
  with types_same [OF s1(2)] show ?thesis using same_names_rel(2) by (blast dest: transpD)
qed

lemma push_variable_adds:
  assumes "push_variable vs a s = Inr s'"
  shows "adds [bound vs a] s s'"
proof -
  obtain v where "map_of vs a = Some v" "s' = s\<lparr>rs_variables := nm_push (v_name v) a (rs_variables s)\<rparr>"
    using assms by (auto simp: push_variable_def get_var_def bindR_eq_Inr split: option.splits)
  then show ?thesis
    using scope.push [of "rs_variables s"] by (simp add: adds_def in_scope_def bound_def vname_def)
qed

lemma push_variables_adds: "foldS (push_variable vs) as s = Inr s' \<Longrightarrow> adds (map (bound vs) as) s s'"
  using foldS_adds [of as "push_variable vs" "\<lambda>a. [bound vs a]" s s'] push_variable_adds by simp

lemma resolveDecl_adds: "resolveDecl vs c s = Inr s' \<Longrightarrow> adds (decl_of vs c) s s'"
  by (auto simp: resolveDecl_def decl_of_def adds_refl dest!: push_variable_adds split: node.splits)
    (simp add: adds_def in_scope_def)

lemma resolveDecls_adds:
  "foldS (resolveDecl vs) body s = Inr s' \<Longrightarrow> adds (concat (map (decl_of vs) body)) s s'"
  by (rule foldS_adds) (rule resolveDecl_adds)

lemma resolveImport_adds: "resolveImport vs ml nm s = Inr s' \<Longrightarrow> adds (exports vs ml nm) s s'"
  by (auto simp: resolveImport_def resolveImport_module_def exports_def
      dest!: resolveDecls_adds split: option.splits node.splits)

lemma resolveImports_adds:
  "foldS (resolveImport vs ml) nms s = Inr s' \<Longrightarrow> adds (concat (map (exports vs ml) nms)) s s'"
  by (rule foldS_adds) (rule resolveImport_adds)

text \<open>Leaving a scope.\<close>

lemma rs_pop_restores:
  assumes "rs_pop (rs_top s) s1 = Inr s'" "adds ds s s1" "nm_ok (rs_variables s)"
  shows "adds [] s s'"
proof -
  obtain m where m: "nm_pop (nm_top (rs_variables s)) (rs_variables s1) = Inr m" "rs_variables s' = m"
    "rs_functions s' = rs_functions s1" "rs_module s' = rs_module s1"
    using assms(1) by (auto simp: rs_pop_def rs_top_def bindR_eq_Inr)
  have "nm_ok (rs_variables s1)" "nm_bindings (rs_variables s1) = rev ds @ nm_bindings (rs_variables s)"
    using assms(2,3) by (auto simp: adds_def in_scope_def)
  from scope.pop_to [OF assms(3) this] m assms(2,3) show ?thesis by (auto simp: adds_def in_scope_def)
qed

lemma findAll_targets:
  assumes "nm_ok (rs_variables s)" "resolveBindings vs (nm_findAll (rs_variables s) nm) = Inr targets"
  shows "targets = targets_in vs (in_scope s) nm"
proof -
  have f: "map fst (filter (\<lambda>p. v_kind (snd p) = KindFunction) (zip as ks)) = filter (is_function vs) as"
    if "mapR (get_var vs) as = Inr ks" for as ks
    using that
    by (induction as arbitrary: ks)
      (auto simp: bindR_eq_Inr get_var_def is_function_def split: option.splits)
  define ts where "ts = map snd (filter (\<lambda>p. fst p = nm) (in_scope s))"
  have r: "resolveBindings vs ts = Inr targets"
    using assms(2) unfolding scope.find [OF assms(1)] ts_def in_scope_def .
  show ?thesis
  proof (cases ts)
    case Nil
    with r show ?thesis by (simp add: resolveBindings_def targets_in_def ts_def [symmetric])
  next
    case (Cons x xs)
    with r obtain v where v: "get_var vs x = Inr v" and d: "(if v_kind v \<noteq> KindFunction then Inr [x]
        else bindR (mapR (get_var vs) ts) (\<lambda>kinds.
          Inr (map fst (filter (\<lambda>p. v_kind (snd p) = KindFunction) (zip ts kinds))))) = Inr targets"
      by (auto simp: resolveBindings_def bindR_eq_Inr)
    have "is_function vs x \<longleftrightarrow> v_kind v = KindFunction"
      using v by (auto simp: get_var_def is_function_def split: option.splits)
    moreover from d have "targets = (if v_kind v \<noteq> KindFunction then [x] else filter (is_function vs) ts)"
      using f [of ts] by (auto simp: bindR_eq_Inr split: if_splits)
    ultimately show ?thesis using Cons by (simp add: targets_in_def ts_def [symmetric])
  qed
qed

section \<open>The pass\<close>

definition module_free :: "ast \<Rightarrow> bool" where
  "module_free root = (\<forall>n \<in> set (nodes_of root). \<forall>nm b ai. ast_node n \<noteq> Module nm b ai)"

lemma module_free_children:
  assumes "module_free root" "c \<in> set (children (ast_node root))"
  shows "module_free c"
proof -
  have "set (nodes_of c) \<subseteq> set (nodes_of root)"
    using assms(2) by (subst (2) nodes_of.simps) auto
  with assms(1) show ?thesis by (auto simp: module_free_def)
qed

lemma module_free_root: "module_free root \<Longrightarrow> ast_node root \<noteq> Module nm b ai"
  unfolding module_free_def by (subst (asm) nodes_of.simps) auto

definition lexically :: "var_store \<Rightarrow> (str \<Rightarrow> ast option) option \<Rightarrow> visit \<Rightarrow> ast \<Rightarrow> bool" where
  "lexically vs ml f root =
     (\<forall>s root' s'. f root s = Inr (root', s') \<longrightarrow> nm_ok (rs_variables s) \<longrightarrow>
        root' = lexical vs ml (env_of s) root \<and> adds (leaks vs ml root) s s')"

lemma lexicallyD:
  assumes "lexically vs ml f root" "f root s = Inr (root', s')" "nm_ok (rs_variables s)"
  shows "root' = lexical vs ml (env_of s) root" "adds (leaks vs ml root) s s'"
  using assms unfolding lexically_def by blast+

definition inner :: "var_store \<Rightarrow> (str \<Rightarrow> ast option) option \<Rightarrow> env \<Rightarrow> ast \<Rightarrow> ast list" where
  "inner vs ml env root =
     in_sequence (lexical vs ml) (leaks vs ml) (\<lambda>e. (e, snd env)) (fst env) (children (ast_node root))"

definition inner_leaks :: "var_store \<Rightarrow> (str \<Rightarrow> ast option) option \<Rightarrow> ast \<Rightarrow> (str \<times> addr) list" where
  "inner_leaks vs ml root = concat (map (leaks vs ml) (children (ast_node root)))"

lemma sequence_lexical:
  assumes "\<forall>c \<in> set cs. lexically vs ml f c" "mapS f cs s = Inr (cs', s')" "nm_ok (rs_variables s)"
  shows "cs' = in_sequence (lexical vs ml) (leaks vs ml) (\<lambda>e. (e, snd (env_of s))) (in_scope s) cs \<and>
    adds (concat (map (leaks vs ml) cs)) s s'"
  using assms
proof (induction cs arbitrary: s cs')
  case Nil
  then show ?case by (simp add: adds_refl)
next
  case (Cons c cs)
  from Cons.prems(2) obtain c' s1 cs1 where
    c: "f c s = Inr (c', s1)" "mapS f cs s1 = Inr (cs1, s')" "cs' = c' # cs1"
    by (auto simp: bindR_eq_Inr)
  have lc: "lexically vs ml f c" using Cons.prems(1) by simp
  note c1 = lexicallyD [OF lc c(1) Cons.prems(3)]
  have ok: "nm_ok (rs_variables s1)" using c1(2) Cons.prems(3) by (simp add: adds_def)
  have e: "snd (env_of s1) = snd (env_of s)" "in_scope s1 = rev (leaks vs ml c) @ in_scope s"
    using c1(2) Cons.prems(3) by (auto simp: adds_def env_of_def parent_of_def)
  have "cs1 = in_sequence (lexical vs ml) (leaks vs ml) (\<lambda>e. (e, snd (env_of s1))) (in_scope s1) cs \<and>
      adds (concat (map (leaks vs ml) cs)) s1 s'"
    using Cons.IH [OF _ c(2) ok] Cons.prems(1) by simp
  then show ?case using c(3) c1 e by (auto simp: env_of_def intro: adds_trans)
qed

lemma visitInner_lexical:
  assumes "\<forall>c \<in> set (children (ast_node root)). lexically vs ml f c"
    "visitInner f root s = Inr (root', s')" "nm_ok (rs_variables s)"
  shows "root' = Node (astType root) (astLocation root) (rebuild (ast_node root) (inner vs ml (env_of s) root))"
    "adds (inner_leaks vs ml root) s s'"
proof -
  obtain cs where "mapS f (children (ast_node root)) s = Inr (cs, s')"
    "root' = Node (astType root) (astLocation root) (rebuild (ast_node root) cs)"
    using assms(2) by (auto simp: visitInner_def bindR_eq_Inr)
  with sequence_lexical [OF assms(1) _ assms(3)]
  show "root' = Node (astType root) (astLocation root) (rebuild (ast_node root) (inner vs ml (env_of s) root))"
    "adds (inner_leaks vs ml root) s s'"
    by (auto simp: inner_def inner_leaks_def env_of_def)
qed

lemma lexical_eq:
  "lexical vs ml (env, par, md) root =
     (let under = (\<lambda>env'. rebuild (ast_node root) (inner vs ml env' root));
          out = Node (astType root) (astLocation root)
      in case ast_node root of
           Ident nm tas _ res \<Rightarrow> out (Ident nm tas (targets_in vs env nm) res)
         | FnDecl v tas as att b p m \<Rightarrow>
             set_parent par md (out (under (rev (map (bound vs) as) @ env, Some v, md)))
         | Block body \<Rightarrow> out (under (rev (concat (map (decl_of vs) body)) @ env, par, md))
         | Module nm b ai \<Rightarrow> out (under (rev (concat (map (exports vs ml) ai)) @ env, par, Some nm))
         | For v i e b \<Rightarrow>
             out (For v i (lexical vs ml (env, par, md) e)
               (lexical vs ml ((case i of Some j \<Rightarrow> [bound vs j] | None \<Rightarrow> []) @ bound vs v #
                  rev (leaks vs ml e) @ env, par, md) b))
         | n \<Rightarrow> out (under (env, par, md)))"
  by (subst lexical.simps) (simp add: inner_def cong: node.case_cong)

lemma leaks_eq:
  "leaks vs ml root =
     (case ast_node root of
        FnDecl _ _ _ _ _ _ _ \<Rightarrow> [] | TyDecl _ _ _ \<Rightarrow> [] | Block _ \<Rightarrow> [] | For _ _ _ _ \<Rightarrow> []
      | VarDecl v e \<Rightarrow> inner_leaks vs ml root @ [bound vs v]
      | Import nm \<Rightarrow> exports vs ml nm
      | Module nm b ai \<Rightarrow> concat (map (exports vs ml) ai) @ inner_leaks vs ml root
      | _ \<Rightarrow> inner_leaks vs ml root)"
  by (subst leaks.simps) (simp add: inner_leaks_def Let_def cong: node.case_cong)

lemma env_of_eq: "env_of s = (in_scope s, parent_of s, rs_module s)"
  by (simp add: env_of_def)

lemma adds_ok: "adds ds s s' \<Longrightarrow> nm_ok (rs_variables s) \<Longrightarrow> nm_ok (rs_variables s')"
  by (simp add: adds_def)

text \<open>The cases: \<open>rec\<close> resolves the children lexically, so the node is resolved lexically.\<close>

lemma body_lexical:
  assumes "\<forall>c \<in> set (children (ast_node root)). lexically vs ml rec c"
    "resolve_body vs rec v as body root s = Inr (root', s')" "nm_ok (rs_variables s)"
  shows "root' = Node (astType root) (astLocation root) (rebuild (ast_node root)
      (inner vs ml (rev (map (bound vs) as) @ in_scope s, Some v, rs_module s) root))"
    "adds (map (bound vs) as @ inner_leaks vs ml root) s s'"
proof -
  obtain s1 s2 where s1: "foldS (push_variable vs) as s = Inr s1"
    and s2: "visitInner rec root (s1\<lparr>rs_functions := v # rs_functions s1\<rparr>) = Inr (root', s2)"
    and s': "s' = s2\<lparr>rs_functions := tl (rs_functions s2)\<rparr>"
    using assms(2) by (auto simp: resolve_body_def bindR_eq_Inr)
  let ?s = "s1\<lparr>rs_functions := v # rs_functions s1\<rparr>"
  note a1 = push_variables_adds [OF s1]
  have ok: "nm_ok (rs_variables ?s)" using adds_ok [OF a1 assms(3)] by simp
  have e: "env_of ?s = (rev (map (bound vs) as) @ in_scope s, Some v, rs_module s)"
    using a1 assms(3) by (simp add: env_of_def in_scope_def parent_of_def adds_def)
  note i = visitInner_lexical [OF assms(1) s2 ok]
  from i(1) show "root' = Node (astType root) (astLocation root) (rebuild (ast_node root)
      (inner vs ml (rev (map (bound vs) as) @ in_scope s, Some v, rs_module s) root))"
    unfolding e .
  have "adds (inner_leaks vs ml root) s1 s'"
    using i(2) ok unfolding s' by (simp add: adds_def in_scope_def)
  with a1 show "adds (map (bound vs) as @ inner_leaks vs ml root) s s'" by (rule adds_trans)
qed

lemma FnDecl_lexical:
  assumes "\<forall>c \<in> set (children (ast_node root)). lexically vs ml rec c"
    "ast_node root = FnDecl v tas as att b p m"
    "resolve_FnDecl vs rec v tas as b root s = Inr (root', s')" "nm_ok (rs_variables s)"
  shows "root' = lexical vs ml (env_of s) root" "adds [] s s'"
proof -
  obtain s1 root2 s2 where s1: "enter_types vs tas root s = Inr s1"
    and s2: "(case b of None \<Rightarrow> Inr (root, s1) | Some body \<Rightarrow> resolve_body vs rec v as body root s1) = Inr (root2, s2)"
    and s': "rs_pop (rs_top s) s2 = Inr s'" and root': "root' = set_parent (parent_of s) (rs_module s) root2"
    using assms(3) by (auto simp: resolve_FnDecl_def bindR_eq_Inr parent_of_def)
  note same = enter_types_same [OF s1]
  then have a1: "adds [] s s1" by (rule same_names_adds)
  have e: "in_scope s1 = in_scope s" "rs_module s1 = rs_module s"
    using same by (simp_all add: same_names_def in_scope_def)
  obtain ds where a2: "adds ds s1 s2" and r2: "root2 = Node (astType root) (astLocation root)
      (rebuild (ast_node root) (inner vs ml (rev (map (bound vs) as) @ in_scope s, Some v, rs_module s) root))"
  proof (cases b)
    case None
    with s2 assms(2) that [of "[]"] show ?thesis by (cases root) (auto simp: adds_refl)
  next
    case (Some body)
    with s2 body_lexical [OF assms(1), of v as body s1 root2 s2] adds_ok [OF a1 assms(4)] e that
    show ?thesis by auto
  qed
  from r2 root' show "root' = lexical vs ml (env_of s) root"
    using assms(2) by (simp add: env_of_eq lexical_eq)
  show "adds [] s s'" by (rule rs_pop_restores [OF s' adds_trans [OF a1 a2] assms(4)])
qed

lemma TyDecl_lexical:
  assumes "\<forall>c \<in> set (children (ast_node root)). lexically vs ml rec c"
    "ast_node root = TyDecl nm a d"
    "resolve_TyDecl vs rec d root s = Inr (root', s')" "nm_ok (rs_variables s)"
  shows "root' = lexical vs ml (env_of s) root" "adds [] s s'"
proof -
  obtain s1 s2 where s1: "enter_types vs (sd_tyargs d) root s = Inr s1"
    and s2: "visitInner rec root s1 = Inr (root', s2)" and s': "rs_pop (rs_top s) s2 = Inr s'"
    using assms(3) by (auto simp: resolve_TyDecl_def bindR_eq_Inr)
  note same = enter_types_same [OF s1]
  then have a1: "adds [] s s1" by (rule same_names_adds)
  have e: "env_of s1 = env_of s" using same by (simp add: same_names_def env_of_def in_scope_def parent_of_def)
  note i = visitInner_lexical [OF assms(1) s2 adds_ok [OF a1 assms(4)]]
  from i(1) show "root' = lexical vs ml (env_of s) root"
    unfolding e using assms(2) by (simp add: env_of_eq lexical_eq)
  show "adds [] s s'" by (rule rs_pop_restores [OF s' adds_trans [OF a1 i(2)] assms(4)])
qed

lemma Block_lexical:
  assumes "\<forall>c \<in> set (children (ast_node root)). lexically vs ml rec c"
    "ast_node root = Block body" "resolve_Block vs rec body root s = Inr (root', s')" "nm_ok (rs_variables s)"
  shows "root' = lexical vs ml (env_of s) root" "adds [] s s'"
proof -
  obtain s1 s2 where s1: "foldS (resolveDecl vs) body s = Inr s1"
    and s2: "visitInner rec root s1 = Inr (root', s2)" and s': "rs_pop (rs_top s) s2 = Inr s'"
    using assms(3) by (auto simp: resolve_Block_def bindR_eq_Inr)
  note a1 = resolveDecls_adds [OF s1]
  note i = visitInner_lexical [OF assms(1) s2 adds_ok [OF a1 assms(4)]]
  from i(1) show "root' = lexical vs ml (env_of s) root"
    unfolding adds_env [OF a1 assms(4)] using assms(2) by (simp add: env_of_eq lexical_eq)
  show "adds [] s s'" by (rule rs_pop_restores [OF s' adds_trans [OF a1 i(2)] assms(4)])
qed

lemma For_lexical:
  assumes "\<forall>c \<in> set (children (ast_node root)). lexically vs ml rec c"
    "ast_node root = For v i e b" "resolve_For vs rec v i e b root s = Inr (root', s')" "nm_ok (rs_variables s)"
  shows "root' = lexical vs ml (env_of s) root" "adds [] s s'"
proof -
  obtain e' b' s1 s2 s3 s4 where s1: "rec e s = Inr (e', s1)" and s2: "push_variable vs v s1 = Inr s2"
    and s3: "(case i of Some j \<Rightarrow> push_variable vs j s2 | None \<Rightarrow> Inr s2) = Inr s3"
    and s4: "rec b s3 = Inr (b', s4)" and s': "rs_pop (rs_top s) s4 = Inr s'"
    and root': "root' = Node (astType root) (astLocation root) (For v i e' b')"
    using assms(3) by (auto simp: resolve_For_def bindR_eq_Inr)
  have "lexically vs ml rec e" "lexically vs ml rec b" using assms(1,2) by simp_all
  note e = lexicallyD [OF this(1) s1 assms(4)] and lb = this(2)
  have a3: "adds (case i of Some j \<Rightarrow> [bound vs j] | None \<Rightarrow> []) s2 s3"
    using s3 by (cases i) (auto simp: adds_refl dest: push_variable_adds)
  note a = adds_trans [OF e(2) adds_trans [OF push_variable_adds [OF s2] a3]]
  note b = lexicallyD [OF lb s4 adds_ok [OF a assms(4)]]
  have "env_of s3 = ((case i of Some j \<Rightarrow> [bound vs j] | None \<Rightarrow> []) @ bound vs v #
      rev (leaks vs ml e) @ in_scope s, parent_of s, rs_module s)"
    using adds_env [OF a assms(4)] by (cases i) simp_all
  then show "root' = lexical vs ml (env_of s) root"
    using root' e(1) b(1) assms(2) by (simp add: env_of_eq lexical_eq)
  show "adds [] s s'" by (rule rs_pop_restores [OF s' adds_trans [OF a b(2)] assms(4)])
qed

lemma same_env: "same_names s s' \<Longrightarrow> env_of s' = env_of s"
  by (simp add: same_names_def env_of_def in_scope_def parent_of_def)

lemma VarDecl_lexical:
  assumes "\<forall>c \<in> set (children (ast_node root)). lexically vs ml rec c"
    "ast_node root = VarDecl v e" "resolve_VarDecl vs rec v root s = Inr (root', s')" "nm_ok (rs_variables s)"
  shows "root' = lexical vs ml (env_of s) root" "adds (inner_leaks vs ml root @ [bound vs v]) s s'"
proof -
  obtain s1 where s1: "visitInner rec root s = Inr (root', s1)" and s': "push_variable vs v s1 = Inr s'"
    using assms(3) by (auto simp: resolve_VarDecl_def bindR_eq_Inr)
  note i = visitInner_lexical [OF assms(1) s1 assms(4)]
  from i(1) show "root' = lexical vs ml (env_of s) root" using assms(2) by (simp add: env_of_eq lexical_eq)
  show "adds (inner_leaks vs ml root @ [bound vs v]) s s'"
    by (rule adds_trans [OF i(2) push_variable_adds [OF s']])
qed

lemma Module_lexical:
  assumes "\<forall>c \<in> set (children (ast_node root)). lexically vs ml rec c"
    "ast_node root = Module nm b ai" "resolve_Module vs ml rec nm ai root s = Inr (root', s')"
    "nm_ok (rs_variables s)"
  shows "root' = lexical vs ml (env_of s) root"
proof -
  let ?s = "s\<lparr>rs_module := Some nm\<rparr>"
  obtain s1 where s1: "foldS (resolveImport vs ml) ai ?s = Inr s1" "visitInner rec root s1 = Inr (root', s')"
    using assms(3) by (auto simp: resolve_Module_def bindR_eq_Inr)
  note a = resolveImports_adds [OF s1(1)]
  have ok: "nm_ok (rs_variables ?s)" using assms(4) by simp
  have "env_of s1 = (rev (concat (map (exports vs ml) ai)) @ in_scope s, parent_of s, Some nm)"
    using adds_env [OF a ok] by (simp add: in_scope_def parent_of_def)
  with visitInner_lexical(1) [OF assms(1) s1(2) adds_ok [OF a ok]] show ?thesis
    using assms(2) by (simp add: env_of_eq lexical_eq)
qed

lemma Ident_lexical:
  assumes "ast_node root = Ident nm tas tgs res" "resolve_Ident vs nm tas res root s = Inr (root', s')"
    "nm_ok (rs_variables s)"
  shows "root' = lexical vs ml (env_of s) root" "adds [] s s'"
proof -
  obtain targets where t: "resolveBindings vs (nm_findAll (rs_variables s) nm) = Inr targets"
    "root' = Node (astType root) (astLocation root) (Ident nm tas targets res)" and a: "same_names s s'"
    using assms(2)
    by (auto simp: resolve_Ident_def bindR_eq_Inr rs_error_def same_names_def split: if_splits)
  from t findAll_targets [OF assms(3) t(1)] show "root' = lexical vs ml (env_of s) root"
    using assms(1) by (simp add: env_of_eq lexical_eq)
  show "adds [] s s'" by (rule same_names_adds [OF a])
qed

lemma other_lexical:
  assumes "\<forall>c \<in> set (children (ast_node root)). lexically vs ml rec c"
    "\<And>nm b ai. ast_node root \<noteq> Module nm b ai"
    "\<And>v tas as att b p m. ast_node root \<noteq> FnDecl v tas as att b p m"
    "\<And>nm a d. ast_node root \<noteq> TyDecl nm a d"
    "resolve_other vs ml rec root s = Inr (root', s')" "nm_ok (rs_variables s)"
  shows "root' = lexical vs ml (env_of s) root \<and> adds (leaks vs ml root) s s'"
proof -
  note inner = visitInner_lexical [OF assms(1) _ assms(6), of root' s']
  note r = assms(5) [unfolded resolve_other_def]
  show ?thesis
  proof (cases "ast_node root")
    case (Ident nm tas tgs res)
    with r have i: "resolve_Ident vs nm tas res root s = Inr (root', s')" by simp
    show ?thesis using Ident_lexical [OF Ident i assms(6)] Ident
      by (simp add: leaks_eq inner_leaks_def)
  next
    case (Block body)
    with r have i: "resolve_Block vs rec body root s = Inr (root', s')" by simp
    show ?thesis using Block_lexical [OF assms(1) Block i assms(6)] Block by (simp add: leaks_eq)
  next
    case (For v i e b)
    with r have f: "resolve_For vs rec v i e b root s = Inr (root', s')" by simp
    show ?thesis using For_lexical [OF assms(1) For f assms(6)] For by (simp add: leaks_eq)
  next
    case (VarDecl v e)
    with r have f: "resolve_VarDecl vs rec v root s = Inr (root', s')" by simp
    show ?thesis using VarDecl_lexical [OF assms(1) VarDecl f assms(6)] VarDecl by (simp add: leaks_eq)
  next
    case (Import nm)
    with r have "resolveImport vs ml nm s = Inr s'" "root' = root" by (auto simp: bindR_eq_Inr)
    with resolveImport_adds [of vs ml nm s s'] Import show ?thesis
      by (cases root) (simp add: leaks_eq env_of_eq lexical_eq)
  qed (use r inner assms(2-4) in \<open>auto simp: env_of_eq lexical_eq leaks_eq\<close>)
qed

lemma node_lexical:
  assumes "\<forall>c \<in> set (children (ast_node root)). lexically vs ml rec c"
    "\<And>nm b ai. ast_node root \<noteq> Module nm b ai"
  shows "lexically vs ml (resolve_node vs ml rec) root"
  unfolding lexically_def
proof (intro allI impI)
  fix s root' s'
  assume r: "resolve_node vs ml rec root s = Inr (root', s')" and ok: "nm_ok (rs_variables s)"
  show "root' = lexical vs ml (env_of s) root \<and> adds (leaks vs ml root) s s'"
  proof (cases "(\<exists>v tas as att b p m. ast_node root = FnDecl v tas as att b p m) \<or>
      (\<exists>nm a d. ast_node root = TyDecl nm a d)")
    case True
    with r FnDecl_lexical [OF assms(1) _ _ ok] TyDecl_lexical [OF assms(1) _ _ ok] show ?thesis
      by (auto simp: resolve_node_def leaks_eq)
  next
    case False
    then have "bindR (visitAstTypes vs resolveType root s) (resolve_other vs ml rec root) = Inr (root', s')"
      using r by (cases "ast_node root") (auto simp: resolve_node_def)
    then obtain s1 where s1: "visitAstTypes vs resolveType root s = Inr s1"
      "resolve_other vs ml rec root s1 = Inr (root', s')" by (auto simp: bindR_eq_Inr)
    note same = types_same [OF s1(1)]
    have ok1: "nm_ok (rs_variables s1)" using same ok by (simp add: same_names_def)
    have "root' = lexical vs ml (env_of s1) root \<and> adds (leaks vs ml root) s1 s'"
      by (rule other_lexical [OF assms _ _ s1(2) ok1]) (use False in blast)+
    then show ?thesis
      using same_env [OF same] adds_trans [OF same_names_adds [OF same], of "leaks vs ml root" s'] by simp
  qed
qed

lemma resolveNamesNode_lexical: "module_free root \<Longrightarrow> lexically vs ml (resolveNamesNode vs ml) root"
proof (induction root rule: measure_induct_rule [of size])
  case (less root)
  have "\<forall>c \<in> set (children (ast_node root)). lexically vs ml (resolveNamesNode vs ml) c"
    using less size_children module_free_children by blast
  from node_lexical [OF this] module_free_root [OF less.prems]
  show ?case by (simp add: lexically_def resolveNamesNode.simps [of vs ml root])
qed

text \<open>
  C25: Name resolution is lexical scoping. Whenever it returns for a module, the tree is that of the
  reference resolver on the empty environment: each identifier has the targets its name has in the
  scopes around it, each function declaration its enclosing function and module. Beyond that only
  instance nodes of types have changed.
\<close>

theorem resolveNames_lexical:
  assumes "resolveNames out vs root ml = Inr (root', vs', out')"
    "ast_node root = Module nm b ai" "module_free b"
  shows "\<exists>w. root' = map_ast_types (write_type w) (lexical vs ml ([], None, None) root) \<and>
    vs' = map_var_types (write_type w) vs"
proof -
  obtain r s where r: "resolveNamesNode vs ml root (rs0 out) = Inr (r, s)"
    "root' = map_ast_types (write_type (rs_written s)) r" "vs' = map_var_types (write_type (rs_written s)) vs"
    using assms(1) by (auto simp: resolveNames_def bindR_eq_Inr)
  obtain s1 where s1: "visitAstTypes vs resolveType root (rs0 out) = Inr s1"
    "resolve_Module vs ml (resolveNamesNode vs ml) nm ai root s1 = Inr (r, s)"
    using r(1) assms(2)
    by (auto simp: resolveNamesNode.simps [of vs ml root] resolve_node_def resolve_other_def bindR_eq_Inr)
  note same = types_same [OF s1(1)]
  have "nm_ok (rs_variables (rs0 out))" by (simp add: rs0_def nm_ok_def nm_empty_def fun_eq_iff)
  then have ok: "nm_ok (rs_variables s1)" using same by (simp add: same_names_def)
  have c: "\<forall>c \<in> set (children (ast_node root)). lexically vs ml (resolveNamesNode vs ml) c"
    using assms(2,3) resolveNamesNode_lexical by simp
  have "env_of s1 = ([], None, None)"
    unfolding same_env [OF same]
    by (simp add: env_of_def in_scope_def parent_of_def rs0_def nm_bindings_def nm_empty_def)
  with Module_lexical [OF c assms(2) s1(2) ok] r show ?thesis by metis
qed

text \<open>A module that declares \<open>x\<close> and uses it.\<close>

definition demo_vars :: var_store where
  "demo_vars = [(5, \<lparr>v_kind = KindVariable, v_name = ''x'', v_type = TyInteger, v_location = Location0, v_fn = None\<rparr>)]"

definition demo_body :: ast where
  "demo_body = Node None Location0 (Block
     [Node None Location0 (VarDecl 5 (Node None Location0 (LiteralInteger 1))),
      Node None Location0 (Ident ''x'' [] [] False)])"

lemma resolveNames_lexical_witness:
  "\<exists>root' vs' out' w. resolveNames Output0 demo_vars (Node None Location0 (Module ''m'' demo_body [])) None =
       Inr (root', vs', out') \<and>
     root' = map_ast_types (write_type w)
       (lexical demo_vars None ([], None, None) (Node None Location0 (Module ''m'' demo_body [])))"
proof -
  let ?r = "resolveNames Output0 demo_vars (Node None Location0 (Module ''m'' demo_body [])) None"
  have "isRight ?r" by code_simp
  then obtain root' vs' out' where r: "?r = Inr (root', vs', out')" by (auto elim!: isRightE)
  have "module_free demo_body" by (simp add: module_free_def nodes_of.simps demo_body_def)
  from resolveNames_lexical [OF r _ this] r show ?thesis by fastforce
qed

end
