(* ===== verification/TypeCheck.thy ===== *)
theory TypeCheck
  imports Resolve
begin

text \<open>
  The type checker, \<open>compiler/typecheck.cpp\<close>. A pass over the tree gives every node a type. With
  constraints it infers: what must be equal is unified. Without, it verifies: what must be equal
  is compared, and reported. The state holds the output, the variables, the next fresh address,
  the constraints if there are any, and the type arguments that have been pushed to instance nodes
  in place, by the address of the node. The table \<open>program\<close> holds what nodes refer to by address:
  the struct definitions, and the type parameters of the function declarations.
\<close>

record tc =
  tc_output :: outp
  tc_vars :: var_store
  tc_next :: addr
  tc_con :: "constraints option"
  tc_written :: "addr \<Rightarrow> ty list option"

record program =
  pr_defs :: "addr \<Rightarrow> ast tydef option"
  pr_fns :: "addr \<Rightarrow> ty list option"

type_synonym 'a tcm = "tc \<Rightarrow> ('a \<times> tc) result"

definition unitT :: "'a \<Rightarrow> 'a tcm" where
  "unitT x = (\<lambda>s. Inr (x, s))"

definition bindT :: "'a tcm \<Rightarrow> ('a \<Rightarrow> 'b tcm) \<Rightarrow> 'b tcm" where
  "bindT m f = (\<lambda>s. bindR (m s) (\<lambda>(x, s'). f x s'))"

definition failT :: "failure \<Rightarrow> 'a tcm" where
  "failT e = (\<lambda>s. Inl e)"

definition liftT :: "(tc \<Rightarrow> 'a result) \<Rightarrow> 'a tcm" where
  "liftT f = (\<lambda>s. bindR (f s) (\<lambda>x. Inr (x, s)))"

definition verifying :: "bool tcm" where
  "verifying = (\<lambda>s. Inr (tc_con s = None, s))"

definition whenT :: "bool \<Rightarrow> unit tcm \<Rightarrow> unit tcm" where
  "whenT b m = (if b then m else unitT ())"

definition tc_error :: "location \<Rightarrow> str \<Rightarrow> unit tcm" where
  "tc_error loc msg =
     (\<lambda>s. bindR (error_at (tc_output s) loc msg) (\<lambda>out. Inr ((), s\<lparr>tc_output := out\<rparr>)))"

definition fresh_Unknown :: "ty tcm" where
  "fresh_Unknown = (\<lambda>s. Inr (TyUnknown (tc_next s), s\<lparr>tc_next := tc_next s + 1\<rparr>))"

text \<open>\<open>astType(node)\<close> where it is used as a type.\<close>

definition node_type :: "ast \<Rightarrow> ty tcm" where
  "node_type a = (case astType a of Some t \<Rightarrow> unitT t | None \<Rightarrow> failT NullDeref)"

definition var_at :: "addr \<Rightarrow> variable tcm" where
  "var_at a = liftT (\<lambda>s. get_var (tc_vars s) a)"

definition with_type :: "ty option \<Rightarrow> ast \<Rightarrow> ast node \<Rightarrow> ast" where
  "with_type t root n = Node t (astLocation root) n"

section \<open>What must hold\<close>

definition msg_known :: "ty \<Rightarrow> str" where
  "msg_known t = ''Expected a known type but given '' @ typeName t"

definition typeMustKnow :: "ty \<Rightarrow> location \<Rightarrow> unit tcm" where
  "typeMustKnow t loc s =
     (if \<not> typeKnown t \<and> errors (tc_output s) = 0 then tc_error loc (msg_known t) s else Inr ((), s))"

definition msg_mismatch :: "ty \<Rightarrow> ty \<Rightarrow> str" where
  "msg_mismatch expected t =
     ''Type mismatch: expected '' @ typeName expected @ '' but given '' @ typeName t"

definition typeMustEqual_ty :: "ty \<Rightarrow> ty \<Rightarrow> location \<Rightarrow> unit tcm" where
  "typeMustEqual_ty t expected loc s =
     (case tc_con s of
        Some c \<Rightarrow> bindR (typeUnify t expected c) (\<lambda>(b, c'). Inr ((), s\<lparr>tc_con := Some c'\<rparr>))
      | None \<Rightarrow>
          bindR (typeEquals t expected) (\<lambda>b.
            bindT (whenT (\<not> b) (tc_error loc (msg_mismatch expected t))) (\<lambda>_. typeMustKnow t loc) s))"

definition typeMustEqual :: "ast \<Rightarrow> ty \<Rightarrow> unit tcm" where
  "typeMustEqual node expected =
     bindT (node_type node) (\<lambda>t. typeMustEqual_ty t expected (astLocation node))"

section \<open>Struct literals\<close>

text \<open>
  The first loop marks the fields that have an initializer. An index past the fields would write
  outside of the vector; it is a failed assertion here.
\<close>

fun mark_fields :: "(field_ref \<times> 'a) list \<Rightarrow> bool list \<Rightarrow> bool list tcm" where
  "mark_fields [] marks = unitT marks"
| "mark_fields ((f, e) # fs) marks =
     (if fr_index f < 0 \<or> int (length marks) \<le> fr_index f then failT AssertFail
      else if marks ! nat (fr_index f) then
        bindT (tc_error (fr_location f) (''Field '' @ fr_name f @ '' already has an initializer'')) (\<lambda>_.
          mark_fields fs marks)
      else mark_fields fs (marks[nat (fr_index f) := True]))"

fun report_missing :: "location \<Rightarrow> 'e struct_field list \<Rightarrow> bool list \<Rightarrow> unit tcm" where
  "report_missing loc (f # fs) (m # ms) =
     bindT (whenT (\<not> m \<and> sf_expr f = None)
        (tc_error loc (''Field '' @ sf_name f @ '' does not have an initializer''))) (\<lambda>_.
       report_missing loc fs ms)"
| "report_missing loc _ _ = unitT ()"

definition validateLiteralStruct ::
    "(addr \<Rightarrow> 'e tydef option) \<Rightarrow> ty \<Rightarrow> location \<Rightarrow> (field_ref \<times> 'a) list \<Rightarrow> unit tcm" where
  "validateLiteralStruct defs t loc inits =
     (case t of
        TyInstance _ _ _ _ df _ \<Rightarrow>
          (case Option.bind df defs of
             None \<Rightarrow> failT NullDeref
           | Some d \<Rightarrow>
               bindT (mark_fields inits (replicate (length (sd_fields d)) False)) (\<lambda>marks.
                 report_missing loc (sd_fields d) marks))
      | _ \<Rightarrow> tc_error loc (''Type mismatch: expected a struct type but given '' @ typeName t))"

section \<open>Overloads\<close>

definition candidate_line :: "variable \<Rightarrow> str" where
  "candidate_line v =
     CHR 0x09 # ''Candidate: '' @ typeName (v_type v) @ ''; declared at '' @ l_source (v_location v) @
     ''('' @ show_int (l_line (v_location v) + 1) @ '','' @ show_int (l_column (v_location v) + 1) @ '')'' @
     [CHR 0x0A]"

definition getCandidates :: "var_store \<Rightarrow> addr list \<Rightarrow> str result" where
  "getCandidates vs targets =
     bindR (mapR (get_var vs) targets) (\<lambda>vars. Inr (butlast (concat (map candidate_line vars))))"

definition isArgumentCountValid :: "ty list \<Rightarrow> bool \<Rightarrow> nat \<Rightarrow> bool" where
  "isArgumentCountValid params varargs n =
     (if varargs then length params \<le> n else length params = n)"

fun unify_all :: "ty list \<Rightarrow> ty list \<Rightarrow> constraints \<Rightarrow> bool result" where
  "unify_all (p # ps) (a # as) c =
     bindR (typeUnify p a c) (\<lambda>(b, c'). if b then unify_all ps as c' else Inr False)"
| "unify_all _ _ c = Inr True"

definition isCandidateValid :: "var_store \<Rightarrow> ty list \<Rightarrow> addr \<Rightarrow> bool result" where
  "isCandidateValid vs args target =
     bindR (get_var vs target) (\<lambda>v.
     bindR (assertR (v_kind v = KindFunction)) (\<lambda>_.
       case v_type v of
         TyFunction params r varargs \<Rightarrow>
           if \<not> isArgumentCountValid params varargs (length args) then Inr False
           else unify_all params args constraints0
       | _ \<Rightarrow> Inl AssertFail))"

definition reduceCandidates :: "var_store \<Rightarrow> addr list \<Rightarrow> ty list \<Rightarrow> (addr list \<times> nat) result" where
  "reduceCandidates vs targets args =
     bindR (mapR (isCandidateValid vs args) targets) (\<lambda>valid.
       let kept = map fst (filter snd (zip targets valid))
       in Inr (kept, length targets - length kept))"

fun isAssignable :: "var_store \<Rightarrow> ast \<Rightarrow> bool result" where
  "isAssignable vs node =
     (case ast_node node of
        Ident nm tas tgs res \<Rightarrow>
          if length tgs = 1 then bindR (get_var vs (hd tgs)) (\<lambda>v. Inr (v_kind v = KindVariable))
          else Inr False
      | Member e f \<Rightarrow> isAssignable vs e
      | Index e i \<Rightarrow> Inr True
      | Unary op e \<Rightarrow> Inr (op = UnaryOpDeref)
      | _ \<Rightarrow> Inr False)"

declare isAssignable.simps [simp del]

section \<open>Typing a node\<close>

text \<open>
  The functions of the source, one per kind of node, over the recursive call \<open>rec\<close>. Each returns
  the node with its new children and its new type.
\<close>

type_synonym typing = "ast \<Rightarrow> ast tcm"

definition default_type :: "ty \<Rightarrow> ast \<Rightarrow> ty" where
  "default_type t root = (case astType root of Some u \<Rightarrow> u | None \<Rightarrow> t)"

definition typeLiteral :: "ty \<Rightarrow> typing" where
  "typeLiteral t root = unitT (with_type (Some (default_type t root)) root (ast_node root))"

definition type_or_Unknown :: "ast \<Rightarrow> ty tcm" where
  "type_or_Unknown root = (case astType root of Some t \<Rightarrow> unitT t | None \<Rightarrow> fresh_Unknown)"

text \<open>The fields of a tuple against the types of its type.\<close>

fun type_fields :: "typing \<Rightarrow> ast list \<Rightarrow> ty list \<Rightarrow> ast list tcm" where
  "type_fields rec [] ts = unitT []"
| "type_fields rec (f # fs) ts =
     bindT (rec f) (\<lambda>f'.
     bindT (case ts of [] \<Rightarrow> failT AssertFail | t # _ \<Rightarrow> typeMustEqual f' t) (\<lambda>_.
     bindT (type_fields rec fs (tl ts)) (\<lambda>fs'. unitT (f' # fs'))))"

definition typeLiteralTuple :: "typing \<Rightarrow> ast list \<Rightarrow> typing" where
  "typeLiteralTuple rec fs root =
     bindT (case astType root of
              Some t \<Rightarrow> unitT t
            | None \<Rightarrow> bindT (mapS (\<lambda>_. fresh_Unknown) fs) (\<lambda>ts. unitT (TyTuple ts))) (\<lambda>t.
       case t of
         TyTuple ts \<Rightarrow>
           bindT (type_fields rec fs ts) (\<lambda>fs'. unitT (with_type (Some t) root (LiteralTuple fs')))
       | _ \<Rightarrow> failT AssertFail)"

definition type_and_equal :: "typing \<Rightarrow> ty \<Rightarrow> typing" where
  "type_and_equal rec t e = bindT (rec e) (\<lambda>e'. bindT (typeMustEqual e' t) (\<lambda>_. unitT e'))"

definition typeLiteralArray :: "typing \<Rightarrow> ast list \<Rightarrow> typing" where
  "typeLiteralArray rec es root =
     bindT (case astType root of
              Some t \<Rightarrow> unitT t
            | None \<Rightarrow> bindT fresh_Unknown (\<lambda>u. unitT (TyArray u))) (\<lambda>t.
       case t of
         TyArray elt \<Rightarrow>
           bindT (mapS (type_and_equal rec elt) es) (\<lambda>es'. unitT (with_type (Some t) root (LiteralArray es')))
       | _ \<Rightarrow> failT AssertFail)"

definition member_type :: "(addr \<Rightarrow> 'e tydef option) \<Rightarrow> ty \<Rightarrow> int \<Rightarrow> ty tcm" where
  "member_type defs t index s =
     bindR (typeMember defs t index (tc_next s)) (\<lambda>(u, nxt). Inr (u, s\<lparr>tc_next := nxt\<rparr>))"

definition type_init :: "program \<Rightarrow> typing \<Rightarrow> ty \<Rightarrow> field_ref \<times> ast \<Rightarrow> (field_ref \<times> ast) tcm" where
  "type_init pr rec t fe =
     bindT (rec (snd fe)) (\<lambda>e'.
     bindT (if fr_index (fst fe) \<ge> 0
            then bindT (member_type (pr_defs pr) t (fr_index (fst fe))) (typeMustEqual e')
            else unitT ()) (\<lambda>_. unitT (fst fe, e')))"

definition typeLiteralStruct :: "program \<Rightarrow> typing \<Rightarrow> str \<Rightarrow> (field_ref \<times> ast) list \<Rightarrow> typing" where
  "typeLiteralStruct pr rec nm fs root =
     bindT (type_or_Unknown root) (\<lambda>t.
     bindT (mapS (type_init pr rec t) fs) (\<lambda>fs'.
     bindT verifying (\<lambda>v.
     bindT (whenT v (validateLiteralStruct (pr_defs pr) t (astLocation root) fs')) (\<lambda>_.
       unitT (with_type (Some t) root (LiteralStruct nm fs'))))))"

definition join_names :: "ty list \<Rightarrow> str" where
  "join_names ts = fold (\<lambda>a inst. (if inst \<noteq> [] then inst @ '', '' else []) @ typeName a) ts []"

definition msg_instantiate :: "str \<Rightarrow> ty list \<Rightarrow> str" where
  "msg_instantiate nm tas =
     ''Unable to instantiate '' @ nm @ ''<'' @ join_names tas @ ''>: all argument types must be known''"

definition msg_ambiguous :: "str \<Rightarrow> str \<Rightarrow> str" where
  "msg_ambiguous nm cs = ''Ambiguous identifier '' @ nm @ CHR 0x0A # cs"

definition typeIdent :: "str \<Rightarrow> ty list \<Rightarrow> addr list \<Rightarrow> typing" where
  "typeIdent nm tas tgs root =
     bindT (type_or_Unknown root) (\<lambda>t.
     bindT verifying (\<lambda>v.
     bindT (whenT (length tgs = 0 \<and> v)
        (tc_error (astLocation root) (''Unable to deduce the type of '' @ nm))) (\<lambda>_.
     bindT (whenT (length tgs > 1 \<and> v)
        (bindT (liftT (\<lambda>s. getCandidates (tc_vars s) tgs)) (\<lambda>cs.
           tc_error (astLocation root) (msg_ambiguous nm cs)))) (\<lambda>_.
     bindT (whenT v (\<lambda>s. bindR (foldS (\<lambda>a s.
          bindR (whenT (\<not> typeKnown a) (tc_error (astLocation root) (msg_instantiate nm tas)) s) (\<lambda>(_, s'). Inr s'))
          tas s) (\<lambda>s'. Inr ((), s')))) (\<lambda>_.
       unitT (with_type (Some t) root (ast_node root)))))))"

definition msg_no_field :: "ty \<Rightarrow> str \<Rightarrow> str" where
  "msg_no_field t nm = typeName t @ '' does not have a field '' @ nm"

definition typeMember_node :: "program \<Rightarrow> typing \<Rightarrow> ast \<Rightarrow> field_ref \<Rightarrow> typing" where
  "typeMember_node pr rec e f root =
     bindT (rec e) (\<lambda>e'.
     bindT (type_or_Unknown root) (\<lambda>t.
     bindT verifying (\<lambda>v.
     bindT (if fr_index f \<ge> 0 then
              bindT (node_type e') (\<lambda>et. member_type (pr_defs pr) et (fr_index f))
            else
              bindT (whenT v (bindT (node_type e') (\<lambda>et.
                tc_error (astLocation e') (msg_no_field et (fr_name f))))) (\<lambda>_. unitT t)) (\<lambda>u.
       unitT (with_type (Some u) root (Member e' f))))))"

definition typeBlock :: "typing \<Rightarrow> ast list \<Rightarrow> typing" where
  "typeBlock rec body root =
     bindT (mapS rec body) (\<lambda>body'.
       unitT (with_type (if body' = [] then Some TyVoid else astType (last body')) root (Block body')))"

definition typeModule :: "typing \<Rightarrow> str \<Rightarrow> ast \<Rightarrow> str list \<Rightarrow> typing" where
  "typeModule rec nm b ai root =
     bindT (rec b) (\<lambda>b'. unitT (with_type (astType b') root (Module nm b' ai)))"

text \<open>The overloads of a call that its arguments leave.\<close>

definition reduce_targets :: "ast \<Rightarrow> ast list \<Rightarrow> ast tcm" where
  "reduce_targets e args s =
     (case (ast_node e, tc_con s) of
        (Ident nm tas tgs res, Some c) \<Rightarrow>
          if length tgs > 1 then
            bindR (mapS node_type args s) (\<lambda>(ts, s).
            bindR (reduceCandidates (tc_vars s) tgs ts) (\<lambda>(tgs', n).
              Inr (with_type (astType e) e (Ident nm tas tgs' res),
                   s\<lparr>tc_con := Some (c\<lparr>c_rewrites := c_rewrites c + int n\<rparr>)\<rparr>)))
          else Inr (e, s)
      | _ \<Rightarrow> Inr (e, s))"

definition msg_arguments :: "nat \<Rightarrow> nat \<Rightarrow> str" where
  "msg_arguments expected given =
     ''Expected '' @ show_nat expected @ '' arguments but given '' @ show_nat given"

fun args_equal :: "ast list \<Rightarrow> ty list \<Rightarrow> unit tcm" where
  "args_equal (a # as) (p # ps) = bindT (typeMustEqual a p) (\<lambda>_. args_equal as ps)"
| "args_equal _ _ = unitT ()"

text \<open>The type of a call of \<open>e\<close>, all of whose parts have been typed.\<close>

definition call_type :: "ast \<Rightarrow> ast list \<Rightarrow> location \<Rightarrow> ty tcm" where
  "call_type e args loc =
     bindT (node_type e) (\<lambda>et.
       case et of
         TyFunction params ret varargs \<Rightarrow>
           bindT verifying (\<lambda>v.
           bindT (if isArgumentCountValid params varargs (length args) then args_equal args params
                  else whenT v (tc_error loc (msg_arguments (length params) (length args)))) (\<lambda>_.
             unitT ret))
       | _ \<Rightarrow>
           bindT (mapS node_type args) (\<lambda>ts.
           bindT fresh_Unknown (\<lambda>ret.
           bindT (typeMustEqual e (TyFunction ts ret False)) (\<lambda>_. unitT ret))))"

definition typeCall :: "typing \<Rightarrow> ast \<Rightarrow> ast list \<Rightarrow> typing" where
  "typeCall rec e args root =
     bindT (rec e) (\<lambda>e1.
     bindT (mapS rec args) (\<lambda>args'.
     bindT (reduce_targets e1 args') (\<lambda>e'.
     bindT (call_type e' args' (astLocation root)) (\<lambda>t.
       unitT (with_type (Some t) root (Call e' args'))))))"

definition typeUnary :: "typing \<Rightarrow> unary_op \<Rightarrow> ast \<Rightarrow> typing" where
  "typeUnary rec op e root =
     bindT (rec e) (\<lambda>e'.
     bindT (case op of
         UnaryOpNot \<Rightarrow> bindT (typeMustEqual e' TyBool) (\<lambda>_. unitT TyBool)
       | UnaryOpDeref \<Rightarrow>
           bindT (node_type e') (\<lambda>et.
             case et of
               TyPointer elt \<Rightarrow> unitT elt
             | _ \<Rightarrow> bindT fresh_Unknown (\<lambda>u. bindT (typeMustEqual e' (TyPointer u)) (\<lambda>_. unitT u)))
       | UnaryOpNew \<Rightarrow> bindT (node_type e') (\<lambda>et. unitT (TyPointer et))
       | _ \<Rightarrow> failT (ICE ''Unknown UnaryOp'')) (\<lambda>t.
       unitT (with_type (Some t) root (Unary op e'))))"

definition typeBinary :: "typing \<Rightarrow> binary_op \<Rightarrow> ast \<Rightarrow> ast \<Rightarrow> typing" where
  "typeBinary rec op l r root =
     bindT (rec l) (\<lambda>l'.
     bindT (rec r) (\<lambda>r'.
       if op = BinaryOpAnd \<or> op = BinaryOpOr then
         bindT (typeMustEqual l' TyBool) (\<lambda>_.
         bindT (typeMustEqual r' TyBool) (\<lambda>_.
           unitT (with_type (Some TyBool) root (Binary op l' r'))))
       else failT (ICE ''Unknown BinaryOp'')))"

definition typeIndex :: "typing \<Rightarrow> ast \<Rightarrow> ast \<Rightarrow> typing" where
  "typeIndex rec e i root =
     bindT (rec e) (\<lambda>e'.
     bindT (rec i) (\<lambda>i'.
     bindT (typeMustEqual i' TyInteger) (\<lambda>_.
     bindT (node_type e') (\<lambda>et.
     bindT (case et of
         TyArray elt \<Rightarrow> unitT elt
       | _ \<Rightarrow> bindT fresh_Unknown (\<lambda>u. bindT (typeMustEqual e' (TyArray u)) (\<lambda>_. unitT u))) (\<lambda>t.
       unitT (with_type (Some t) root (Index e' i')))))))"

definition typeAssign :: "typing \<Rightarrow> ast \<Rightarrow> ast \<Rightarrow> typing" where
  "typeAssign rec l r root =
     bindT (rec l) (\<lambda>l'.
     bindT (rec r) (\<lambda>r'.
     bindT (node_type l') (\<lambda>lt.
     bindT (typeMustEqual r' lt) (\<lambda>_.
     bindT (liftT (\<lambda>s. isAssignable (tc_vars s) l')) (\<lambda>ok.
     bindT verifying (\<lambda>v.
     bindT (whenT (\<not> ok \<and> v) (tc_error (astLocation root) ''Expression is not assignable'')) (\<lambda>_.
       unitT (with_type (Some (default_type TyVoid root)) root (Assign l' r')))))))))"

definition typeIf :: "typing \<Rightarrow> ast \<Rightarrow> ast \<Rightarrow> ast option \<Rightarrow> typing" where
  "typeIf rec c t e root =
     bindT (rec c) (\<lambda>c'.
     bindT (typeMustEqual c' TyBool) (\<lambda>_.
     bindT (rec t) (\<lambda>t'.
     bindT (case e of
         Some b \<Rightarrow>
           bindT (rec b) (\<lambda>b'.
           bindT (node_type t') (\<lambda>tt.
           bindT (typeMustEqual b' tt) (\<lambda>_. unitT (Some b'))))
       | None \<Rightarrow> bindT (typeMustEqual t' TyVoid) (\<lambda>_. unitT None)) (\<lambda>e'.
       unitT (with_type (astType t') root (If c' t' e'))))))"

definition typeFor :: "typing \<Rightarrow> addr \<Rightarrow> addr option \<Rightarrow> ast \<Rightarrow> ast \<Rightarrow> typing" where
  "typeFor rec v i e b root =
     bindT (rec e) (\<lambda>e'.
     bindT (rec b) (\<lambda>b'.
     bindT (var_at v) (\<lambda>var.
     bindT (typeMustEqual e' (TyArray (v_type var))) (\<lambda>_.
     bindT (typeMustEqual b' TyVoid) (\<lambda>_.
     bindT (case i of
         Some j \<Rightarrow> bindT (var_at j) (\<lambda>ivar. typeMustEqual_ty (v_type ivar) TyInteger (v_location ivar))
       | None \<Rightarrow> unitT ()) (\<lambda>_.
       unitT (with_type (Some (default_type TyVoid root)) root (For v i e' b'))))))))"

definition typeWhile :: "typing \<Rightarrow> ast \<Rightarrow> ast \<Rightarrow> typing" where
  "typeWhile rec e b root =
     bindT (rec e) (\<lambda>e'.
     bindT (rec b) (\<lambda>b'.
     bindT (typeMustEqual e' TyBool) (\<lambda>_.
     bindT (typeMustEqual b' TyVoid) (\<lambda>_.
       unitT (with_type (Some (default_type TyVoid root)) root (While e' b'))))))"

definition typeFn :: "typing \<Rightarrow> int \<Rightarrow> ast \<Rightarrow> typing" where
  "typeFn rec i d root =
     bindT (rec d) (\<lambda>d'.
       case ast_node d' of
         FnDecl v tas as att b p m \<Rightarrow>
           bindT (var_at v) (\<lambda>var. unitT (with_type (Some (v_type var)) root (Fn i d')))
       | _ \<Rightarrow> failT AssertFail)"

definition typeFnDecl ::
    "typing \<Rightarrow> addr \<Rightarrow> ty list \<Rightarrow> addr list \<Rightarrow> nat \<Rightarrow> ast option \<Rightarrow> addr option \<Rightarrow> str option \<Rightarrow> typing" where
  "typeFnDecl rec v tas as att b p m root =
     bindT (case b of
         Some e \<Rightarrow>
           bindT (rec e) (\<lambda>e'.
           bindT (var_at v) (\<lambda>var.
             case v_type var of
               TyFunction params ret varargs \<Rightarrow>
                 bindT (if ret = TyVoid then unitT () else typeMustEqual e' ret) (\<lambda>_. unitT (Some e'))
             | _ \<Rightarrow> failT (ICE ''FnDecl type is not Function'')))
       | None \<Rightarrow>
           bindT verifying (\<lambda>ver.
           bindT (var_at v) (\<lambda>var.
           bindT (whenT ver (typeMustKnow (v_type var) (v_location var))) (\<lambda>_. unitT None)))) (\<lambda>b'.
       unitT (with_type (Some (default_type TyVoid root)) root (FnDecl v tas as att b' p m)))"

definition typeVarDecl :: "typing \<Rightarrow> addr \<Rightarrow> ast \<Rightarrow> typing" where
  "typeVarDecl rec v e root =
     bindT (rec e) (\<lambda>e'.
     bindT (var_at v) (\<lambda>var.
     bindT (typeMustEqual e' (v_type var)) (\<lambda>_.
       unitT (with_type (Some (default_type TyVoid root)) root (VarDecl v e')))))"

definition type_field :: "typing \<Rightarrow> ast struct_field \<Rightarrow> ast struct_field tcm" where
  "type_field rec c =
     (case sf_expr c of
        None \<Rightarrow> unitT c
      | Some e \<Rightarrow> bindT (type_and_equal rec (sf_type c) e) (\<lambda>e'.
          unitT (StructField (sf_name c) (sf_location c) (sf_type c) (Some e'))))"

definition typeTyDecl :: "typing \<Rightarrow> str \<Rightarrow> addr \<Rightarrow> ast tydef \<Rightarrow> typing" where
  "typeTyDecl rec nm a d root =
     bindT (mapS (type_field rec) (sd_fields d)) (\<lambda>fs.
       unitT (with_type (Some (default_type TyVoid root)) root
         (TyDecl nm a (TyDef_Struct (sd_tyargs d) fs))))"

definition type_node :: "program \<Rightarrow> typing \<Rightarrow> typing" where
  "type_node pr rec root =
     (case ast_node root of
        Common \<Rightarrow> unitT root
      | LiteralVoid \<Rightarrow> typeLiteral TyVoid root
      | LiteralBool b \<Rightarrow> typeLiteral TyBool root
      | LiteralInteger i \<Rightarrow> typeLiteral TyInteger root
      | LiteralFloat x \<Rightarrow> typeLiteral TyFloat root
      | LiteralString x \<Rightarrow> typeLiteral TyString root
      | LiteralTuple fs \<Rightarrow> typeLiteralTuple rec fs root
      | LiteralArray es \<Rightarrow> typeLiteralArray rec es root
      | LiteralStruct nm fs \<Rightarrow> typeLiteralStruct pr rec nm fs root
      | Ident nm tas tgs res \<Rightarrow> typeIdent nm tas tgs root
      | Member e f \<Rightarrow> typeMember_node pr rec e f root
      | Block body \<Rightarrow> typeBlock rec body root
      | Module nm b ai \<Rightarrow> typeModule rec nm b ai root
      | Call e args \<Rightarrow> typeCall rec e args root
      | Unary op e \<Rightarrow> typeUnary rec op e root
      | Binary op l r \<Rightarrow> typeBinary rec op l r root
      | Index e i \<Rightarrow> typeIndex rec e i root
      | Assign l r \<Rightarrow> typeAssign rec l r root
      | If c t e \<Rightarrow> typeIf rec c t e root
      | For v i e b \<Rightarrow> typeFor rec v i e b root
      | While e b \<Rightarrow> typeWhile rec e b root
      | Fn i d \<Rightarrow> typeFn rec i d root
      | LLVM code \<Rightarrow> bindT (type_or_Unknown root) (\<lambda>t. unitT (with_type (Some t) root (LLVM code)))
      | FnDecl v tas as att b p m \<Rightarrow> typeFnDecl rec v tas as att b p m root
      | VarDecl v e \<Rightarrow> typeVarDecl rec v e root
      | TyDecl nm a d \<Rightarrow> typeTyDecl rec nm a d root
      | Import nm \<Rightarrow> typeLiteral TyVoid root)"

lemma mapS_ext: "(\<And>x. x \<in> set xs \<Longrightarrow> f x = g x) \<Longrightarrow> mapS f xs = mapS g xs"
  by (rule ext) (simp cong: mapS_cong)

lemma type_fields_ext: "(\<And>x. x \<in> set fs \<Longrightarrow> f x = g x) \<Longrightarrow> type_fields f fs ts = type_fields g fs ts"
  by (induction fs arbitrary: ts) auto

lemma type_field_ext:
  assumes "\<And>x. x \<in> set (List.map_filter sf_expr fs) \<Longrightarrow> f x = g x"
  shows "mapS (type_field f) fs = mapS (type_field g) fs"
proof (rule mapS_ext)
  fix c
  assume "c \<in> set fs"
  then have "f e = g e" if "sf_expr c = Some e" for e
    using that assms [of e] by (force simp: List.map_filter_def)
  then show "type_field f c = type_field g c"
    by (simp add: type_field_def type_and_equal_def split: option.splits)
qed

lemma type_node_cong [fundef_cong]:
  assumes "root = root'" "s = s'" "\<And>c t. c \<in> set (children (ast_node root')) \<Longrightarrow> f c t = g c t"
  shows "type_node pr f root s = type_node pr g root' s'"
proof -
  have fg: "f c = g c" if "c \<in> set (children (ast_node root'))" for c
    by (rule ext) (rule assms(3) [OF that])
  have "type_node pr f root' = type_node pr g root'"
  proof (cases "ast_node root'")
    case (LiteralTuple fs)
    with fg type_fields_ext [of fs f g] show ?thesis
      by (simp add: type_node_def typeLiteralTuple_def cong: ty.case_cong)
  next
    case (LiteralArray es)
    with fg have "mapS (type_and_equal f t) es = mapS (type_and_equal g t) es" for t
      by (intro mapS_ext) (simp add: type_and_equal_def)
    with LiteralArray show ?thesis by (simp add: type_node_def typeLiteralArray_def cong: ty.case_cong)
  next
    case (LiteralStruct nm fs)
    with fg have "mapS (type_init pr f t) fs = mapS (type_init pr g t) fs" for t
      by (intro mapS_ext) (simp add: type_init_def)
    with LiteralStruct show ?thesis by (simp add: type_node_def typeLiteralStruct_def)
  next
    case (Block body)
    with fg mapS_ext [of body f g] show ?thesis by (simp add: type_node_def typeBlock_def)
  next
    case (Call e args)
    with fg mapS_ext [of args f g] show ?thesis by (simp add: type_node_def typeCall_def)
  next
    case (TyDecl nm a d)
    with fg type_field_ext [of "sd_fields d" f g] show ?thesis by (simp add: type_node_def typeTyDecl_def)
  next
    case (If c t e)
    with fg show ?thesis by (cases e) (simp_all add: type_node_def typeIf_def)
  next
    case (FnDecl v tas as att b p m)
    with fg show ?thesis by (cases b) (simp_all add: type_node_def typeFnDecl_def)
  qed (use fg in \<open>simp_all add: type_node_def typeMember_node_def typeModule_def typeUnary_def
      typeBinary_def typeIndex_def typeAssign_def typeFor_def typeWhile_def typeFn_def typeVarDecl_def\<close>)
  then show ?thesis using assms(1,2) by simp
qed

fun type_ast :: "program \<Rightarrow> ast \<Rightarrow> tc \<Rightarrow> (ast \<times> tc) result" where
  "type_ast pr root s = type_node pr (type_ast pr) root s"

declare type_ast.simps [simp del]

section \<open>Propagation and instantiation\<close>

text \<open>A visitor that changes nodes in place: the callback returns the node with the same children.\<close>

fun updateAst :: "(ast \<Rightarrow> 's \<Rightarrow> (ast \<times> 's) result) \<Rightarrow> ast \<Rightarrow> 's \<Rightarrow> (ast \<times> 's) result" where
  "updateAst f root s =
     bindR (f root s) (\<lambda>(root', s1).
     bindR (mapS (updateAst f) (children (ast_node root)) s1) (\<lambda>(cs, s2).
       Inr (Node (astType root') (astLocation root') (rebuild (ast_node root') cs), s2)))"

declare updateAst.simps [simp del]

text \<open>\<open>constraints.rewrite\<close>, with \<open>k\<close> for the depth of its recursion.\<close>

definition rewrite_type :: "nat \<Rightarrow> ty \<Rightarrow> ty tcm" where
  "rewrite_type k t s =
     (case tc_con s of
        None \<Rightarrow> Inl NullDeref
      | Some c \<Rightarrow>
          bindR (rewrite k (c_data c) t (c_rewrites c, tc_next s)) (\<lambda>(t', n, nxt).
            Inr (t', s\<lparr>tc_con := Some (c\<lparr>c_rewrites := n\<rparr>), tc_next := nxt\<rparr>)))"

definition rewrite_node_type :: "nat \<Rightarrow> ast \<Rightarrow> ast tcm" where
  "rewrite_node_type k root =
     bindT (node_type root) (\<lambda>t.
     bindT (rewrite_type k t) (\<lambda>t'. unitT (with_type (Some t') root (ast_node root))))"

definition set_var :: "addr \<Rightarrow> variable \<Rightarrow> unit tcm" where
  "set_var a v = (\<lambda>s. Inr ((), s\<lparr>tc_vars := map (\<lambda>(b, w). if b = a then (b, v) else (b, w)) (tc_vars s)\<rparr>))"

definition rewrite_var :: "nat \<Rightarrow> addr \<Rightarrow> unit tcm" where
  "rewrite_var k a =
     bindT (var_at a) (\<lambda>v.
     bindT (rewrite_type k (v_type v)) (\<lambda>t. set_var a (v\<lparr>v_type := t\<rparr>)))"

definition propagate :: "nat \<Rightarrow> ast \<Rightarrow> ast tcm" where
  "propagate k root =
     (case ast_node root of
        LiteralTuple fs \<Rightarrow> rewrite_node_type k root
      | LiteralArray es \<Rightarrow> rewrite_node_type k root
      | LiteralStruct nm fs \<Rightarrow> rewrite_node_type k root
      | Ident nm tas tgs res \<Rightarrow>
          bindT (case astType root of
              None \<Rightarrow> unitT None
            | Some t \<Rightarrow> bindT (rewrite_type k t) (\<lambda>t'. unitT (Some t'))) (\<lambda>t'.
          bindT (mapS (rewrite_type k) tas) (\<lambda>tas'.
            unitT (with_type t' root (Ident nm tas' tgs res))))
      | For v i e b \<Rightarrow>
          bindT (rewrite_var k v) (\<lambda>_.
          bindT (case i of Some j \<Rightarrow> rewrite_var k j | None \<Rightarrow> unitT ()) (\<lambda>_. unitT root))
      | LLVM code \<Rightarrow> rewrite_node_type k root
      | FnDecl v tas as att b p m \<Rightarrow>
          bindT (rewrite_var k v) (\<lambda>_.
          bindT (mapS (rewrite_var k) as) (\<lambda>_. unitT root))
      | VarDecl v e \<Rightarrow> bindT (rewrite_var k v) (\<lambda>_. unitT root)
      | _ \<Rightarrow> unitT root)"

definition msg_type_arguments :: "nat \<Rightarrow> nat \<Rightarrow> str" where
  "msg_type_arguments expected given =
     ''Expected '' @ show_nat expected @ '' type arguments but given '' @ show_nat given"

text \<open>The type arguments of an instance node now, and a type with those of all its nodes.\<close>

definition tyargs_now :: "tc \<Rightarrow> addr \<Rightarrow> ty list \<Rightarrow> ty list" where
  "tyargs_now s i as = (case tc_written s i of Some bs \<Rightarrow> bs | None \<Rightarrow> as)"

fun write_tyargs :: "(addr \<Rightarrow> ty list option) \<Rightarrow> ty \<Rightarrow> ty" where
  "write_tyargs w (TyTuple fs) = TyTuple (map (write_tyargs w) fs)"
| "write_tyargs w (TyArray e) = TyArray (write_tyargs w e)"
| "write_tyargs w (TyPointer e) = TyPointer (write_tyargs w e)"
| "write_tyargs w (TyFunction as r v) = TyFunction (map (write_tyargs w) as) (write_tyargs w r) v"
| "write_tyargs w (TyInstance i nm loc as df gen) =
     TyInstance i nm loc (case w i of Some bs \<Rightarrow> bs | None \<Rightarrow> map (write_tyargs w) as) df gen"
| "write_tyargs w t = t"

text \<open>
  \<open>instantiateType\<close>: a bare struct name gets one unknown for each parameter; only the node itself is
  looked at, not the types inside it.
\<close>

definition instantiateType :: "program \<Rightarrow> ty \<Rightarrow> tc \<Rightarrow> tc result" where
  "instantiateType pr t s =
     (case t of
        TyInstance i nm loc as df gen \<Rightarrow>
          let as = tyargs_now s i as in
          bindR (assertR (df \<noteq> None \<or> gen \<noteq> None)) (\<lambda>_.
            case df of
              Some a \<Rightarrow>
                (case pr_defs pr a of
                   None \<Rightarrow> Inl NullDeref
                 | Some d \<Rightarrow>
                     if as = [] then
                       bindR (mapS (\<lambda>_. fresh_Unknown) (sd_tyargs d) s) (\<lambda>(us, s').
                         Inr (s'\<lparr>tc_written := (tc_written s')(i := Some us)\<rparr>))
                     else if length as \<noteq> length (sd_tyargs d) then
                       bindR (tc_error loc (msg_type_arguments (length (sd_tyargs d)) (length as)) s) (\<lambda>(_, s'). Inr s')
                     else Inr s)
            | None \<Rightarrow>
                if as \<noteq> [] then
                  bindR (tc_error loc (msg_type_arguments 0 (length as)) s) (\<lambda>(_, s'). Inr s')
                else Inr s)
      | _ \<Rightarrow> Inr s)"

text \<open>The callback for the type arguments of an identifier, of which there may be too few.\<close>

fun ident_inst :: "ty list \<Rightarrow> ty list \<Rightarrow> addr \<Rightarrow> ty option result" where
  "ident_inst [] as g = Inr None"
| "ident_inst (p # ps) as g =
     (if generic_addr p = Some g then (case as of a # _ \<Rightarrow> Inr (Some a) | [] \<Rightarrow> Inl AssertFail)
      else ident_inst ps (tl as) g)"

definition instantiate_args :: "program \<Rightarrow> variable \<Rightarrow> ty list \<Rightarrow> location \<Rightarrow> (ty list \<times> ty list) tcm" where
  "instantiate_args pr v tas loc =
     (case Option.bind (v_fn v) (pr_fns pr) of
        None \<Rightarrow> failT NullDeref
      | Some params \<Rightarrow>
          if tas = [] then bindT (mapS (\<lambda>_. fresh_Unknown) params) (\<lambda>us. unitT (params, us))
          else
            bindT (whenT (length tas \<noteq> length params)
              (tc_error loc (msg_type_arguments (length params) (length tas)))) (\<lambda>_.
              unitT (params, tas)))"

definition count_rewrite :: "unit tcm" where
  "count_rewrite s =
     (case tc_con s of
        None \<Rightarrow> Inl NullDeref
      | Some c \<Rightarrow> Inr ((), s\<lparr>tc_con := Some (c\<lparr>c_rewrites := c_rewrites c + 1\<rparr>)\<rparr>))"

definition instantiateIdent :: "program \<Rightarrow> str \<Rightarrow> ty list \<Rightarrow> addr list \<Rightarrow> ast \<Rightarrow> ast tcm" where
  "instantiateIdent pr nm tas tgs root =
     bindT (var_at (hd tgs)) (\<lambda>v.
     bindT (liftT (\<lambda>s. Inr (write_tyargs (tc_written s) (v_type v)))) (\<lambda>vt.
     bindT (if v_kind v = KindFunction then instantiate_args pr v tas (astLocation root)
            else unitT ([], tas)) (\<lambda>(params, tas').
       if v_kind v = KindFunction \<and> tas' \<noteq> [] then
         if \<not> typeKnown vt then unitT (with_type (astType root) root (Ident nm tas' tgs False))
         else
           bindT (\<lambda>s. bindR (typeInstantiate (ident_inst params tas') vt (tc_next s)) (\<lambda>(t, nxt).
             Inr (t, s\<lparr>tc_next := nxt\<rparr>))) (\<lambda>t.
           bindT count_rewrite (\<lambda>_. unitT (with_type (Some t) root (Ident nm tas' tgs True))))
       else bindT count_rewrite (\<lambda>_. unitT (with_type (Some vt) root (Ident nm tas' tgs True))))))"

definition instantiateNode :: "program \<Rightarrow> ast \<Rightarrow> ast tcm" where
  "instantiateNode pr root s =
     bindR (visitAstTypes (tc_vars s) (instantiateType pr) root s) (\<lambda>s'.
       case ast_node root of
         Ident nm tas tgs res \<Rightarrow>
           if res \<or> length tgs \<noteq> 1 then Inr (root, s') else instantiateIdent pr nm tas tgs root s'
       | _ \<Rightarrow> Inr (root, s'))"

section \<open>The passes\<close>

text \<open>What was pushed to instance nodes, in every copy.\<close>

definition write_through :: "ast \<Rightarrow> ast tcm" where
  "write_through root =
     (\<lambda>s. Inr (map_ast_types (write_tyargs (tc_written s)) root,
        s\<lparr>tc_vars := map_var_types (write_tyargs (tc_written s)) (tc_vars s), tc_written := (\<lambda>_. None)\<rparr>))"

definition typeckPropagate :: "nat \<Rightarrow> program \<Rightarrow> outp \<Rightarrow> var_store \<Rightarrow> addr \<Rightarrow> ast \<Rightarrow> (int \<times> ast \<times> tc) result" where
  "typeckPropagate k pr out vs nxt root =
     bindR (bindT (type_ast pr root) (\<lambda>root1.
            bindT (updateAst (instantiateNode pr) root1) (\<lambda>root2.
            bindT (write_through root2) (\<lambda>root3.
            bindT (liftT (\<lambda>s. Inr (case tc_con s of Some c \<Rightarrow> c_data c \<noteq> [] | None \<Rightarrow> False))) (\<lambda>more.
              if more then updateAst (propagate k) root3 else unitT root3))))
          \<lparr>tc_output = out, tc_vars = vs, tc_next = nxt, tc_con = Some constraints0, tc_written = (\<lambda>_. None)\<rparr>)
       (\<lambda>(root', s). Inr (case tc_con s of Some c \<Rightarrow> c_rewrites c | None \<Rightarrow> 0, root', s))"

definition verifyNode :: "ast \<Rightarrow> tc \<Rightarrow> (bool \<times> tc) result" where
  "verifyNode node s =
     bindR (visitAstTypes (tc_vars s) (\<lambda>t s. bindR (typeMustKnow t (astLocation node) s) (\<lambda>(_, s'). Inr s')) node s)
       (\<lambda>s'. Inr (False, s'))"

definition typeckVerify :: "program \<Rightarrow> outp \<Rightarrow> var_store \<Rightarrow> addr \<Rightarrow> ast \<Rightarrow> (ast \<times> tc) result" where
  "typeckVerify pr out vs nxt root =
     bindR (type_ast pr root
       \<lparr>tc_output = out, tc_vars = vs, tc_next = nxt, tc_con = None, tc_written = (\<lambda>_. None)\<rparr>) (\<lambda>(root', s).
     bindR (visitAst verifyNode root' s) (\<lambda>s'. Inr (root', s')))"

end
