(* ===== verification/TypeFrame.thy ===== *)
theory TypeFrame
  imports TypeCheck
begin

text \<open>
  What holds along a pass of the type checker. A frame is an invariant of the states, a relation from
  the first state of a pass to its last, and the end states for which the result is known to be
  right. The rules for sequences, loops and the visitor of types hold in every frame; \<open>TypeSound\<close>
  gives the frame of verification and \<open>TypeInfer\<close> that of inference.
\<close>

section \<open>Frames\<close>

definition checks :: "(tc \<Rightarrow> bool) \<Rightarrow> (tc \<Rightarrow> tc \<Rightarrow> bool) \<Rightarrow> (tc \<Rightarrow> bool) \<Rightarrow> 'a tcm \<Rightarrow> ('a \<Rightarrow> bool) \<Rightarrow> bool" where
  "checks I R ok m Q =
     (\<forall>s x s'. I s \<longrightarrow> m s = Inr (x, s') \<longrightarrow> I s' \<and> R s s' \<and> (ok s' \<longrightarrow> Q x))"

lemma checksI:
  "(\<And>s x s'. I s \<Longrightarrow> m s = Inr (x, s') \<Longrightarrow> I s' \<and> R s s' \<and> (ok s' \<longrightarrow> Q x)) \<Longrightarrow> checks I R ok m Q"
  by (simp add: checks_def)

lemma checks_weaken: "checks I R ok m P \<Longrightarrow> (\<And>x. P x \<Longrightarrow> Q x) \<Longrightarrow> checks I R ok m Q"
  by (auto simp: checks_def)

lemma checks_fail [simp]: "checks I R ok (failT e) Q"
  by (simp add: checks_def failT_def)

text \<open>A step that returns nothing but the state.\<close>

abbreviation seqT :: "(tc \<Rightarrow> tc result) \<Rightarrow> unit tcm" where
  "seqT f \<equiv> (\<lambda>s. bindR (f s) (\<lambda>s'. Inr ((), s')))"

text \<open>The types that \<open>visitAstTypes\<close> goes through at a node.\<close>

fun node_types :: "var_store \<Rightarrow> ast \<Rightarrow> ty set" where
  "node_types vs a = set_option (astType a) \<union>
     (case ast_node a of
        Ident nm tas tgs res \<Rightarrow> set tas
      | For v i e b \<Rightarrow> {t. \<exists>x \<in> insert v (set_option i). var_type vs x = Inr t}
      | FnDecl v tas as att b p m \<Rightarrow> {t. var_type vs v = Inr t}
      | VarDecl v e \<Rightarrow> {t. var_type vs v = Inr t}
      | TyDecl nm ad d \<Rightarrow> sf_type ` set (sd_fields d)
      | _ \<Rightarrow> {})"

locale tc_frame =
  fixes I :: "tc \<Rightarrow> bool" and R :: "tc \<Rightarrow> tc \<Rightarrow> bool" and ok :: "tc \<Rightarrow> bool"
  assumes refl: "R s s"
    and trans: "R s t \<Longrightarrow> R t u \<Longrightarrow> R s u"
    and ok_before: "R s s' \<Longrightarrow> ok s' \<Longrightarrow> ok s"
begin

lemma unit: "Q x \<Longrightarrow> checks I R ok (unitT x) Q"
  by (simp add: checks_def unitT_def refl)

lemma bind:
  assumes "checks I R ok m P" "\<And>x. checks I R ok (f x) (\<lambda>y. P x \<longrightarrow> Q y)"
  shows "checks I R ok (bindT m f) Q"
proof (rule checksI)
  fix s y s'
  assume "I s" "bindT m f s = Inr (y, s')"
  then obtain x t where *: "m s = Inr (x, t)" "f x t = Inr (y, s')"
    by (auto simp: bindT_def bindR_eq_Inr)
  from assms(1) \<open>I s\<close> *(1) have 1: "I t" "R s t" "ok t \<longrightarrow> P x" by (auto simp: checks_def)
  from assms(2) [of x] 1(1) *(2) have 2: "I s'" "R t s'" "ok s' \<longrightarrow> P x \<longrightarrow> Q y" by (auto simp: checks_def)
  from 1 2 show "I s' \<and> R s s' \<and> (ok s' \<longrightarrow> Q y)" using trans ok_before by blast
qed

lemma liftT: "checks I R ok (liftT f) (\<lambda>x. \<exists>s. I s \<and> f s = Inr x)"
  by (auto simp: checks_def liftT_def bindR_eq_Inr refl)

lemma mapS:
  "(\<And>x. x \<in> set xs \<Longrightarrow> checks I R ok (f x) (P x)) \<Longrightarrow> checks I R ok (mapS f xs) (list_all2 P xs)"
proof (induction xs)
  case Nil
  then show ?case by (simp add: checks_def refl)
next
  case (Cons x xs)
  have eq: "mapS f (x # xs) = bindT (f x) (\<lambda>y. bindT (mapS f xs) (\<lambda>ys. unitT (y # ys)))"
    by (rule ext) (auto simp: bindT_def unitT_def bindR_def split: sum.splits)
  show ?case unfolding eq
    by (intro bind [OF Cons.prems] bind [OF Cons.IH] unit) (use Cons.prems in auto)
qed

lemma seq_skip: "Q \<Longrightarrow> checks I R ok (seqT Inr) (\<lambda>_. Q)"
  by (simp add: checks_def refl)

lemma seq_bind:
  assumes "checks I R ok (seqT f) (\<lambda>_. P)" "checks I R ok (seqT g) (\<lambda>_. P \<longrightarrow> Q)"
  shows "checks I R ok (seqT (\<lambda>s. bindR (f s) g)) (\<lambda>_. Q)"
proof -
  have eq: "seqT (\<lambda>s. bindR (f s) g) = bindT (seqT f) (\<lambda>_. seqT g)"
    by (rule ext) (simp add: bindT_def bindR_assoc)
  show ?thesis unfolding eq by (rule bind) (use assms in auto)
qed

lemma foldS:
  "(\<And>x. x \<in> set xs \<Longrightarrow> checks I R ok (seqT (f x)) (\<lambda>_. P x)) \<Longrightarrow>
   checks I R ok (seqT (foldS f xs)) (\<lambda>_. \<forall>x \<in> set xs. P x)"
proof (induction xs)
  case Nil
  then show ?case by (simp add: checks_def refl)
next
  case (Cons x xs)
  have "checks I R ok (seqT (foldS f xs)) (\<lambda>_. P x \<longrightarrow> (\<forall>x \<in> set (x # xs). P x))"
    by (rule checks_weaken [OF Cons.IH]) (use Cons.prems in auto)
  then show ?case by (simp add: seq_bind [OF Cons.prems])
qed

lemma seq_var:
  assumes "\<And>t. checks I R ok (seqT (f t)) (\<lambda>_. P t)"
  shows "checks I R ok (seqT (\<lambda>s. bindR (var_type ws v) (\<lambda>t. f t s))) (\<lambda>_. \<forall>t. var_type ws v = Inr t \<longrightarrow> P t)"
  using assms by (cases "var_type ws v") (auto simp: checks_def)

lemma visitAstTypes:
  assumes "\<And>t. checks I R ok (seqT (f t)) (\<lambda>_. P t)"
  shows "checks I R ok (seqT (visitAstTypes ws f a)) (\<lambda>_. \<forall>t \<in> node_types ws a. P t)"
proof -
  note one = seq_var [where f = f and P = P, OF assms]
  have index: "checks I R ok (seqT (\<lambda>s. case i of Some j \<Rightarrow> bindR (var_type ws j) (\<lambda>t. f t s) | None \<Rightarrow> Inr s))
      (\<lambda>_. \<forall>x \<in> set_option i. \<forall>t. var_type ws x = Inr t \<longrightarrow> P t)" for i
    using one by (cases i) (simp_all add: checks_def refl)
  have fields: "checks I R ok (seqT (foldS (\<lambda>c. f (sf_type c)) fs)) (\<lambda>_. \<forall>c \<in> set fs. P (sf_type c))"
    for fs :: "ast struct_field list"
    by (rule foldS) (rule assms)
  have own: "checks I R ok (seqT (\<lambda>s. case astType a of Some t \<Rightarrow> f t s | None \<Rightarrow> Inr s))
      (\<lambda>_. \<forall>t. astType a = Some t \<longrightarrow> P t)"
    using assms by (cases "astType a") (simp_all add: checks_def refl)
  show ?thesis
  proof (cases "ast_node a")
    case (For v i e b)
    show ?thesis unfolding visitAstTypes_def For node.case
      by (intro seq_bind [OF own] seq_bind [OF one] checks_weaken [OF index]) (auto simp: For)
  qed (simp_all only: visitAstTypes_def node.case,
    (intro seq_bind [OF own] checks_weaken [OF foldS [OF assms]] checks_weaken [OF one]
      checks_weaken [OF fields] seq_skip; force)+)
qed

end

end
