(* ===== verification/TypeSound.thy ===== *)
theory TypeSound
  imports TypeFrame TypesCorrect
begin

text \<open>
  What verification guarantees: the typing rules of the language, one for each kind of node, and the
  theorem that a tree accepted without errors obeys them. It follows the type checker function by
  function, in the frame of verification.
\<close>

section \<open>The frame of verification\<close>

text \<open>
  Without constraints, over the variables \<open>vs\<close>: errors are only added, and the end states that
  count are those without errors.
\<close>

definition ver_inv :: "var_store \<Rightarrow> tc \<Rightarrow> bool" where
  "ver_inv vs s = (tc_con s = None \<and> tc_vars s = vs \<and> 0 \<le> errors (tc_output s))"

definition ver_le :: "tc \<Rightarrow> tc \<Rightarrow> bool" where
  "ver_le s s' = (errors (tc_output s) \<le> errors (tc_output s'))"

definition ver_ok :: "tc \<Rightarrow> bool" where
  "ver_ok s = (errors (tc_output s) \<le> 0)"

interpretation ver: tc_frame "ver_inv vs" ver_le ver_ok for vs
  by unfold_locales (auto simp: ver_le_def ver_ok_def)

abbreviation verifies :: "var_store \<Rightarrow> 'a tcm \<Rightarrow> ('a \<Rightarrow> bool) \<Rightarrow> bool" where
  "verifies vs \<equiv> checks (ver_inv vs) ver_le ver_ok"

lemmas ver_defs = ver_inv_def ver_le_def ver_ok_def

lemma verifies_error: "verifies vs (tc_error loc msg) (\<lambda>_. False)"
  by (rule checksI) (auto simp: tc_error_def ver_defs bindR_eq_Inr dest!: error_at_counts)

lemma verifies_whenT_error: "verifies vs (whenT b (tc_error loc msg)) (\<lambda>_. \<not> b)"
  using verifies_error [of vs loc msg] by (auto simp: whenT_def intro: ver.unit)

lemma verifies_whenT: "verifies vs m (\<lambda>_. P) \<Longrightarrow> verifies vs (whenT b m) (\<lambda>_. b \<longrightarrow> P)"
  by (cases b) (auto simp: whenT_def intro: ver.unit)

lemma bindT_unitT [simp]: "bindT (unitT x) f = f x"
  by (simp add: bindT_def unitT_def)

lemma verifies_verifying: "verifies vs verifying (\<lambda>v. v)"
  by (rule checksI) (auto simp: verifying_def ver_defs)

lemma verifies_fresh: "verifies vs fresh_Unknown (\<lambda>u. \<exists>a. u = TyUnknown a)"
  by (rule checksI) (auto simp: fresh_Unknown_def ver_defs)

lemma verifies_type_or_Unknown: "verifies vs (type_or_Unknown root) (\<lambda>_. True)"
  by (auto simp: type_or_Unknown_def intro!: ver.unit checks_weaken [OF verifies_fresh] split: option.split)

lemma verifies_node_type: "verifies vs (node_type a) (\<lambda>t. astType a = Some t)"
  by (auto simp: node_type_def intro: ver.unit split: option.splits)

lemma verifies_var_at: "verifies vs (var_at a) (\<lambda>v. get_var vs a = Inr v)"
  unfolding var_at_def
  by (rule checks_weaken [OF ver.liftT]) (auto simp: ver_defs)

lemma verifies_mustKnow: "verifies vs (typeMustKnow t loc) (\<lambda>_. typeKnown t)"
proof (rule checksI)
  fix s x s'
  assume s: "ver_inv vs s" and eq: "typeMustKnow t loc s = Inr (x, s')"
  show "ver_inv vs s' \<and> ver_le s s' \<and> (ver_ok s' \<longrightarrow> typeKnown t)"
  proof (cases "\<not> typeKnown t \<and> errors (tc_output s) = 0")
    case True
    with eq have "tc_error loc (msg_known t) s = Inr (x, s')" by (simp add: typeMustKnow_def)
    with s verifies_error [of vs loc "msg_known t"] show ?thesis unfolding checks_def by blast
  next
    case False
    with s eq show ?thesis by (auto simp: typeMustKnow_def ver_defs)
  qed
qed

text \<open>Equality of types that the checker accepts: known, and the same but for what is not compared.\<close>

definition same_type :: "ty \<Rightarrow> ty \<Rightarrow> bool" where
  "same_type t u = (typeKnown t \<and> strip t = strip u)"

lemma typeUnify_list_accepts:
  assumes "\<And>l r s s'. l \<in> set ls \<Longrightarrow> typeUnify_with None l r (s :: 's) = Inr (True, s') \<Longrightarrow> wild l = wild r"
    "length ls = length rs" "typeUnify_list None ls rs (s :: 's) = Inr (True, s')"
  shows "map wild ls = map wild rs"
  using assms(2,1,3)
proof (induction ls rs arbitrary: s rule: list_induct2)
  case (Cons l ls r rs)
  then obtain s1 where s1: "typeUnify_with None l r s = Inr (True, s1)" "typeUnify_list None ls rs s1 = Inr (True, s')"
    by (auto simp: bindR_eq_Inr split: if_splits)
  have "map wild ls = map wild rs" by (rule Cons.IH [OF Cons.prems(1) s1(2)]) auto
  with Cons.prems(1) [OF _ s1(1)] show ?case by simp
qed simp

lemma unify_None_accepts:
  fixes s :: 's
  shows "typeUnify_with None l r s = Inr (True, s') \<Longrightarrow> wild l = wild r"
proof (induction l arbitrary: r s s')
  case (TyTuple fs)
  show ?case
  proof (cases r)
    case r: (TyTuple gs)
    with TyTuple.prems have l: "length fs = length gs" and u: "typeUnify_list None fs gs s = Inr (True, s')"
      by (simp_all add: unify_Tuple split: if_splits)
    have "map wild fs = map wild gs" by (rule typeUnify_list_accepts [OF TyTuple.IH l u])
    with r show ?thesis by simp
  qed (use TyTuple.prems in \<open>simp_all add: unify_simps\<close>)
next
  case (TyFunction as rt v)
  show ?case
  proof (cases r)
    case r: (TyFunction bs rt' v')
    then obtain s1 where "length as = length bs" "v = v'" "typeUnify_list None as bs s = Inr (True, s1)"
      "typeUnify_with None rt rt' s1 = Inr (True, s')"
      using TyFunction.prems by (auto simp: unify_simps bindR_eq_Inr split: if_splits)
    moreover have "map wild as = map wild bs"
      by (rule typeUnify_list_accepts [OF TyFunction.IH(1)]) (assumption, assumption, fact+)
    ultimately show ?thesis using r TyFunction.IH(2) by simp
  qed (use TyFunction.prems in \<open>simp_all add: unify_simps\<close>)
next
  case (TyInstance i nm loc as df gen)
  show ?case
  proof (cases r)
    case r: (TyInstance i' nm' loc' bs df' gen')
    show ?thesis
    proof (cases "TyInstance i nm loc as df gen = r")
      case False
      with TyInstance.prems r have *: "df = df'" "gen = gen'" "length as = length bs"
        "typeUnify_list None as bs s = Inr (True, s')"
        by (auto simp: typeUnify_with.simps [of _ "TyInstance i nm loc as df gen"] bindR_eq_Inr
            simp del: typeUnify_list.simps split: if_splits)
      from typeUnify_list_accepts [OF TyInstance.IH *(3,4)] * r show ?thesis by simp
    qed simp
  qed (use TyInstance.prems in \<open>simp_all add: unify_simps\<close>)
qed (case_tac r; force simp: unify_simps)+

text \<open>A known type is the same as another up to unknowns only if that one is known too.\<close>

lemma wild_known: "wild t = wild u \<Longrightarrow> typeKnown t \<Longrightarrow> typeKnown u"
proof (induction t arbitrary: u)
  case (TyTuple fs)
  then show ?case by (cases u) (auto simp: list_all_iff map_eq_list_all2 list_all2_conv_all_nth in_set_conv_nth, metis nth_mem)
next
  case (TyFunction as r v)
  then show ?case by (cases u) (auto simp: list_all_iff map_eq_list_all2 list_all2_conv_all_nth in_set_conv_nth, metis nth_mem)
next
  case (TyInstance i nm loc as df gen)
  then show ?case by (cases u) (auto simp: list_all_iff map_eq_list_all2 list_all2_conv_all_nth in_set_conv_nth, metis nth_mem)
qed (case_tac u; simp)+

lemma verifies_mustEqual_ty:
  "verifies vs (typeMustEqual_ty t expected loc) (\<lambda>_. same_type t expected \<and> typeKnown expected)"
proof (rule checksI)
  fix s x s'
  assume s: "ver_inv vs s" and eq: "typeMustEqual_ty t expected loc s = Inr (x, s')"
  then obtain b where b: "typeEquals t expected = Inr b"
    "bindT (whenT (\<not> b) (tc_error loc (msg_mismatch expected t))) (\<lambda>_. typeMustKnow t loc) s = Inr (x, s')"
    by (auto simp: typeMustEqual_ty_def ver_inv_def bindR_eq_Inr)
  have "verifies vs (bindT (whenT (\<not> b) (tc_error loc (msg_mismatch expected t))) (\<lambda>_. typeMustKnow t loc))
      (\<lambda>_. b \<and> typeKnown t)"
    by (rule ver.bind [OF verifies_whenT_error checks_weaken [OF verifies_mustKnow]]) simp
  with s b(2) have "ver_inv vs s' \<and> ver_le s s' \<and> (ver_ok s' \<longrightarrow> b \<and> typeKnown t)"
    unfolding checks_def by blast
  moreover have "same_type t expected \<and> typeKnown expected" if b "typeKnown t"
  proof -
    have "wild t = wild expected"
      using b(1) \<open>b\<close> unify_None_accepts [of t expected "()"] by (cases "typeUnify_with None t expected ()") (auto simp: typeEquals_def)
    with that show ?thesis by (metis same_type_def wild_known wild_strip)
  qed
  ultimately show "ver_inv vs s' \<and> ver_le s s' \<and> (ver_ok s' \<longrightarrow> same_type t expected \<and> typeKnown expected)"
    by blast
qed


lemma verifies_mustEqual:
  "verifies vs (typeMustEqual e expected) (\<lambda>_. \<exists>t. astType e = Some t \<and> same_type t expected \<and> typeKnown expected)"
  unfolding typeMustEqual_def
  by (rule ver.bind [OF verifies_node_type checks_weaken [OF verifies_mustEqual_ty]]) auto

section \<open>Well-typed nodes\<close>

text \<open>The expression \<open>e\<close> has the type \<open>t\<close>, which is known.\<close>

definition has_type :: "ast \<Rightarrow> ty \<Rightarrow> bool" where
  "has_type e t = (\<exists>u. astType e = Some u \<and> same_type u t \<and> typeKnown t)"

text \<open>The type \<open>u\<close> is the one of the field \<open>index\<close> of \<open>t\<close>, up to the addresses of new nodes.\<close>

definition is_member :: "program \<Rightarrow> ty \<Rightarrow> int \<Rightarrow> ty \<Rightarrow> bool" where
  "is_member pr t index u = (\<exists>nxt nxt'. typeMember (pr_defs pr) t index nxt = Inr (u, nxt'))"

text \<open>A struct literal initializes no field twice, and every field that has no default value.\<close>

definition literal_complete :: "program \<Rightarrow> ty \<Rightarrow> (field_ref \<times> ast) list \<Rightarrow> bool" where
  "literal_complete pr t fs =
     (\<exists>i nm loc as df gen d. t = TyInstance i nm loc as df gen \<and> Option.bind df (pr_defs pr) = Some d \<and>
        (\<forall>fe \<in> set fs. 0 \<le> fr_index (fst fe) \<and> nat (fr_index (fst fe)) < length (sd_fields d)) \<and>
        distinct (map (fr_index \<circ> fst) fs) \<and>
        (\<forall>i < length (sd_fields d). sf_expr (sd_fields d ! i) = None \<longrightarrow> int i \<in> set (map (fr_index \<circ> fst) fs)))"

definition call_typed :: "ast \<Rightarrow> ast list \<Rightarrow> ty option \<Rightarrow> bool" where
  "call_typed e args t =
     (\<exists>params ret varargs. astType e = Some (TyFunction params ret varargs) \<and> t = Some ret \<and>
        isArgumentCountValid params varargs (length args) \<and>
        (\<forall>i < length params. has_type (args ! i) (params ! i)))"

text \<open>The type of the nodes whose type does not depend on their parts.\<close>

fun fixed_type :: "ast node \<Rightarrow> ty option" where
  "fixed_type LiteralVoid = Some TyVoid"
| "fixed_type (LiteralBool b) = Some TyBool"
| "fixed_type (LiteralInteger i) = Some TyInteger"
| "fixed_type (LiteralFloat x) = Some TyFloat"
| "fixed_type (LiteralString x) = Some TyString"
| "fixed_type (Assign l r) = Some TyVoid"
| "fixed_type (For v i e b) = Some TyVoid"
| "fixed_type (While e b) = Some TyVoid"
| "fixed_type (FnDecl v tas as att b p m) = Some TyVoid"
| "fixed_type (VarDecl v e) = Some TyVoid"
| "fixed_type (TyDecl nm a d) = Some TyVoid"
| "fixed_type (Import nm) = Some TyVoid"
| "fixed_type n = None"

text \<open>Before: such a node has no type yet, or that type.\<close>

definition fixed_ok :: "ast \<Rightarrow> bool" where
  "fixed_ok a = (\<forall>t u. fixed_type (ast_node a) = Some t \<longrightarrow> astType a = Some u \<longrightarrow> u = t)"

definition var_typed :: "var_store \<Rightarrow> addr \<Rightarrow> (ty \<Rightarrow> bool) \<Rightarrow> bool" where
  "var_typed vs v P = (\<exists>var. get_var vs v = Inr var \<and> P (v_type var))"

text \<open>The typing rules: what holds of a node and its children.\<close>

definition node_typed :: "program \<Rightarrow> var_store \<Rightarrow> ast \<Rightarrow> bool" where
  "node_typed pr vs a =
     ((fixed_type (ast_node a) \<noteq> None \<longrightarrow> astType a = fixed_type (ast_node a)) \<and>
      (case ast_node a of
         LiteralTuple fs \<Rightarrow>
           (\<exists>ts. astType a = Some (TyTuple ts) \<and> length fs \<le> length ts \<and>
              (\<forall>i < length fs. has_type (fs ! i) (ts ! i)))
       | LiteralArray es \<Rightarrow> (\<exists>t. astType a = Some (TyArray t) \<and> (\<forall>e \<in> set es. has_type e t))
       | LiteralStruct nm fs \<Rightarrow>
           (\<exists>t. astType a = Some t \<and> literal_complete pr t fs \<and>
              (\<forall>fe \<in> set fs. \<exists>u. is_member pr t (fr_index (fst fe)) u \<and> has_type (snd fe) u))
       | Ident nm tas tgs res \<Rightarrow> length tgs = 1 \<and> (\<forall>t \<in> set tas. typeKnown t)
       | Member e f \<Rightarrow> (\<exists>t u. astType e = Some t \<and> astType a = Some u \<and> is_member pr t (fr_index f) u)
       | Block body \<Rightarrow> astType a = (if body = [] then Some TyVoid else astType (last body))
       | Module nm b ai \<Rightarrow> astType a = astType b
       | Call e args \<Rightarrow> call_typed e args (astType a)
       | Unary op e \<Rightarrow>
           (case op of
              UnaryOpNot \<Rightarrow> has_type e TyBool \<and> astType a = Some TyBool
            | UnaryOpDeref \<Rightarrow> (\<exists>t. astType e = Some (TyPointer t) \<and> astType a = Some t)
            | UnaryOpNew \<Rightarrow> (\<exists>t. astType e = Some t \<and> astType a = Some (TyPointer t))
            | _ \<Rightarrow> False)
       | Binary op l r \<Rightarrow> op \<in> {BinaryOpAnd, BinaryOpOr} \<and> has_type l TyBool \<and> has_type r TyBool \<and>
           astType a = Some TyBool
       | Index e i \<Rightarrow> has_type i TyInteger \<and> (\<exists>t. astType e = Some (TyArray t) \<and> astType a = Some t)
       | Assign l r \<Rightarrow> (\<exists>t. astType l = Some t \<and> has_type r t) \<and> isAssignable vs l = Inr True
       | If c t e \<Rightarrow> has_type c TyBool \<and> astType a = astType t \<and>
           (case e of Some b \<Rightarrow> (\<exists>u. astType t = Some u \<and> has_type b u) | None \<Rightarrow> has_type t TyVoid)
       | For v i e b \<Rightarrow> var_typed vs v (\<lambda>t. has_type e (TyArray t)) \<and> has_type b TyVoid \<and>
           (case i of Some j \<Rightarrow> var_typed vs j (\<lambda>t. t = TyInteger) | None \<Rightarrow> True)
       | While e b \<Rightarrow> has_type e TyBool \<and> has_type b TyVoid
       | Fn i d \<Rightarrow> (\<exists>v tas as att b p m. ast_node d = FnDecl v tas as att b p m \<and>
           var_typed vs v (\<lambda>t. astType a = Some t))
       | FnDecl v tas as att b p m \<Rightarrow>
           (case b of
              Some e \<Rightarrow> var_typed vs v (\<lambda>t. \<exists>params ret varargs. t = TyFunction params ret varargs \<and>
                (ret = TyVoid \<or> has_type e ret))
            | None \<Rightarrow> var_typed vs v typeKnown)
       | VarDecl v e \<Rightarrow> var_typed vs v (has_type e)
       | TyDecl nm ad d \<Rightarrow> (\<forall>f \<in> set (sd_fields d). \<forall>e. sf_expr f = Some e \<longrightarrow> has_type e (sf_type f))
       | _ \<Rightarrow> True))"

definition well_typed :: "program \<Rightarrow> var_store \<Rightarrow> ast \<Rightarrow> bool" where
  "well_typed pr vs a = (\<forall>n \<in> set (nodes_of a). node_typed pr vs n)"

lemma well_typed_node:
  "well_typed pr vs a \<longleftrightarrow> node_typed pr vs a \<and> (\<forall>c \<in> set (children (ast_node a)). well_typed pr vs c)"
  by (auto simp: well_typed_def nodes_of.simps [of a])

section \<open>Verification of a node\<close>

lemmas ver_binds =
  ver.bind [OF verifies_mustEqual] ver.bind [OF verifies_mustEqual_ty] ver.bind [OF verifies_whenT_error]
  ver.bind [OF verifies_verifying] ver.bind [OF verifies_fresh] ver.bind [OF verifies_node_type]
  ver.bind [OF verifies_var_at]

text \<open>What the recursive calls promise for the children of a node.\<close>

definition sound_on :: "program \<Rightarrow> var_store \<Rightarrow> typing \<Rightarrow> ast list \<Rightarrow> bool" where
  "sound_on pr vs rec cs = (\<forall>c \<in> set cs. verifies vs (rec c) (well_typed pr vs))"

lemma sound_onD: "sound_on pr vs rec cs \<Longrightarrow> c \<in> set cs \<Longrightarrow> verifies vs (rec c) (well_typed pr vs)"
  by (simp add: sound_on_def)

lemma sound_bind:
  "sound_on pr vs rec cs \<Longrightarrow> c \<in> set cs \<Longrightarrow>
   (\<And>c'. verifies vs (f c') (\<lambda>y. well_typed pr vs c' \<longrightarrow> Q y)) \<Longrightarrow> verifies vs (bindT (rec c) f) Q"
  by (rule ver.bind [OF sound_onD])

lemma sound_mapS:
  "sound_on pr vs rec cs \<Longrightarrow> verifies vs (mapS rec cs) (list_all (well_typed pr vs))"
  by (rule checks_weaken [OF ver.mapS [of _ _ _ "\<lambda>_. well_typed pr vs"]])
    (auto simp: sound_on_def list_all2_conv_all_nth list_all_length)

lemma with_type_simps [simp]:
  "astType (with_type t root n) = t" "ast_node (with_type t root n) = n"
  "astLocation (with_type t root n) = astLocation root"
  by (simp_all add: with_type_def)

lemma well_typed_with:
  "well_typed pr vs (with_type t root n) \<longleftrightarrow>
     node_typed pr vs (with_type t root n) \<and> (\<forall>c \<in> set (children n). well_typed pr vs c)"
  by (subst well_typed_node) simp

lemma fixed_default:
  "fixed_ok root \<Longrightarrow> fixed_type (ast_node root) = Some t \<Longrightarrow> default_type t root = t"
  by (auto simp: fixed_ok_def default_type_def split: option.splits)

lemma has_typeI: "astType e = Some u \<Longrightarrow> same_type u t \<Longrightarrow> typeKnown t \<Longrightarrow> has_type e t"
  by (auto simp: has_type_def)

lemma typeLiteral_sound:
  assumes "fixed_ok root" "fixed_type (ast_node root) = Some t" "children (ast_node root) = []"
    "node_typed pr vs (with_type (Some t) root (ast_node root))"
  shows "verifies vs (typeLiteral t root) (well_typed pr vs)"
  unfolding typeLiteral_def
  by (rule ver.unit) (use assms in \<open>simp add: well_typed_with fixed_default\<close>)

lemma type_fields_sound:
  "sound_on pr vs rec fs \<Longrightarrow> verifies vs (type_fields rec fs ts) (\<lambda>fs'.
     length fs' \<le> length ts \<and> (\<forall>i < length fs'. well_typed pr vs (fs' ! i) \<and> has_type (fs' ! i) (ts ! i)))"
proof (induction fs arbitrary: ts)
  case Nil
  then show ?case by (simp add: ver.unit)
next
  case (Cons f fs)
  have IH: "verifies vs (type_fields rec fs (tl ts)) (\<lambda>fs'. length fs' \<le> length (tl ts) \<and>
      (\<forall>i < length fs'. well_typed pr vs (fs' ! i) \<and> has_type (fs' ! i) (tl ts ! i)))"
    by (rule Cons.IH) (use Cons.prems in \<open>simp add: sound_on_def\<close>)
  show ?case
  proof (cases ts)
    case Nil
    have *: "verifies vs (bindT (failT AssertFail) g) Q" for g :: "unit \<Rightarrow> 'b tcm" and Q
      by (simp add: bindT_def failT_def checks_def)
    show ?thesis unfolding type_fields.simps
      by (rule sound_bind [OF Cons.prems]) (simp_all add: Nil *)
  next
    case ts: (Cons t ts')
    from IH have "verifies vs (type_fields rec fs ts') (\<lambda>fs'. length fs' \<le> length ts' \<and>
        (\<forall>i < length fs'. well_typed pr vs (fs' ! i) \<and> has_type (fs' ! i) (ts' ! i)))"
      by (simp add: ts)
    note IH' = ver.bind [OF this]
    show ?thesis unfolding type_fields.simps ts list.case list.sel
      by (intro sound_bind [OF Cons.prems] ver_binds IH' ver.unit)
        (auto simp: ts nth_Cons has_type_def split: nat.splits)
  qed
qed

lemma typeLiteralTuple_sound:
  assumes "sound_on pr vs rec fs"
  shows "verifies vs (typeLiteralTuple rec fs root) (well_typed pr vs)"
proof -
  have "verifies vs (case t of
         TyTuple ts \<Rightarrow>
           bindT (type_fields rec fs ts) (\<lambda>fs'. unitT (with_type (Some t) root (LiteralTuple fs')))
       | _ \<Rightarrow> failT AssertFail) (well_typed pr vs)" for t
    by (cases t) (auto intro!: ver.bind [OF type_fields_sound [OF assms]] ver.unit
        simp: well_typed_with node_typed_def in_set_conv_nth)
  then show ?thesis unfolding typeLiteralTuple_def
    by (intro ver.bind [where P = "\<lambda>_. True"])
      (auto intro!: ver.unit ver.bind [OF ver.mapS [OF verifies_fresh]] elim: checks_weaken split: option.split)
qed

lemma type_and_equal_sound:
  "sound_on pr vs rec cs \<Longrightarrow> e \<in> set cs \<Longrightarrow>
   verifies vs (type_and_equal rec t e) (\<lambda>e'. well_typed pr vs e' \<and> has_type e' t)"
  unfolding type_and_equal_def
  by (rule sound_bind, assumption+) (intro ver_binds ver.unit, auto simp: has_type_def)

lemma typeLiteralArray_sound:
  assumes "sound_on pr vs rec es"
  shows "verifies vs (typeLiteralArray rec es root) (well_typed pr vs)"
proof -
  have "verifies vs (mapS (type_and_equal rec t) es) (\<lambda>es'. \<forall>e \<in> set es'. well_typed pr vs e \<and> has_type e t)" for t
    by (rule checks_weaken [OF ver.mapS [OF type_and_equal_sound [OF assms]]])
      (auto simp: list_all2_conv_all_nth in_set_conv_nth)
  note elements = ver.bind [OF this]
  have "verifies vs (case t of
         TyArray elt \<Rightarrow>
           bindT (mapS (type_and_equal rec elt) es) (\<lambda>es'. unitT (with_type (Some t) root (LiteralArray es')))
       | _ \<Rightarrow> failT AssertFail) (well_typed pr vs)" for t
    by (cases t) (auto intro!: elements ver.unit simp: well_typed_with node_typed_def)
  then show ?thesis unfolding typeLiteralArray_def
    by (intro ver.bind [where P = "\<lambda>_. True"])
      (auto intro!: ver.unit ver_binds elim: checks_weaken split: option.split)
qed

lemma mark_fields_sound:
  "verifies vs (mark_fields fs marks) (\<lambda>ms. length ms = length marks \<and>
     (\<forall>fe \<in> set fs. 0 \<le> fr_index (fst fe) \<and> nat (fr_index (fst fe)) < length marks \<and>
        \<not> marks ! nat (fr_index (fst fe))) \<and>
     distinct (map (fr_index \<circ> fst) fs) \<and>
     (\<forall>i < length marks. ms ! i \<longleftrightarrow> marks ! i \<or> int i \<in> set (map (fr_index \<circ> fst) fs)))"
proof (induction fs arbitrary: marks)
  case Nil
  then show ?case by (simp add: ver.unit)
next
  case (Cons fe fs)
  obtain f e where fe: "fe = (f, e)" by (cases fe)
  let ?i = "nat (fr_index f)"
  consider "fr_index f < 0 \<or> int (length marks) \<le> fr_index f"
    | "\<not> (fr_index f < 0 \<or> int (length marks) \<le> fr_index f)" "marks ! ?i"
    | "\<not> (fr_index f < 0 \<or> int (length marks) \<le> fr_index f)" "\<not> marks ! ?i" by blast
  then show ?case
  proof cases
    case 1
    then show ?thesis by (auto simp: fe)
  next
    case 2
    then show ?thesis
      by (auto simp: fe intro!: ver.bind [OF verifies_error] checks_weaken [OF Cons.IH])
  next
    case 3
    then have "0 \<le> fr_index f" "?i < length marks" by auto
    with 3 show ?thesis
      by (auto simp: fe nth_list_update eq_nat_nat_iff split: if_splits intro!: checks_weaken [OF Cons.IH])
        (metis fst_conv image_eqI)
  qed
qed

lemma report_missing_sound:
  "verifies vs (report_missing loc fs ms)
     (\<lambda>_. \<forall>i < min (length fs) (length ms). \<not> ms ! i \<longrightarrow> sf_expr (fs ! i) \<noteq> None)"
proof (induction loc fs ms rule: report_missing.induct)
  case (1 loc f fs m ms)
  show ?case unfolding report_missing.simps
    by (intro ver_binds checks_weaken [OF 1]) (auto simp: less_Suc_eq_0_disj nth_Cons split: nat.splits)
qed (auto intro: ver.unit)

lemma validateLiteralStruct_sound:
  "verifies vs (validateLiteralStruct (pr_defs pr) t loc fs) (\<lambda>_. literal_complete pr t fs)"
proof (cases t)
  case (TyInstance i nm l as df gen)
  show ?thesis
  proof (cases "Option.bind df (pr_defs pr)")
    case (Some d)
    show ?thesis
      by (simp add: validateLiteralStruct_def TyInstance Some,
        intro ver.bind [OF mark_fields_sound] checks_weaken [OF report_missing_sound])
        (force simp: literal_complete_def Some TyInstance)
  qed (simp add: validateLiteralStruct_def TyInstance)
qed (auto simp: validateLiteralStruct_def intro: checks_weaken [OF verifies_error])

lemma verifies_member: "verifies vs (member_type (pr_defs pr) t index) (is_member pr t index)"
  by (rule checksI) (auto simp: member_type_def bindR_eq_Inr is_member_def ver_defs)

lemma type_init_sound:
  assumes "sound_on pr vs rec cs" "snd fe \<in> set cs"
  shows "verifies vs (type_init pr rec t fe) (\<lambda>fe'. fst fe' = fst fe \<and> well_typed pr vs (snd fe') \<and>
     (0 \<le> fr_index (fst fe) \<longrightarrow> (\<exists>u. is_member pr t (fr_index (fst fe)) u \<and> has_type (snd fe') u)))"
proof -
  have "verifies vs (if fr_index (fst fe) \<ge> 0
            then bindT (member_type (pr_defs pr) t (fr_index (fst fe))) (typeMustEqual e')
            else unitT ())
          (\<lambda>_. 0 \<le> fr_index (fst fe) \<longrightarrow> (\<exists>u. is_member pr t (fr_index (fst fe)) u \<and> has_type e' u))" for e'
    by (auto simp: has_type_def intro!: ver.bind [OF verifies_member] checks_weaken [OF verifies_mustEqual] ver.unit)
  note member = ver.bind [OF this]
  show ?thesis unfolding type_init_def
    by (intro sound_bind [OF assms] member ver.unit) simp
qed

lemma typeLiteralStruct_sound:
  assumes "sound_on pr vs rec (map snd fs)"
  shows "verifies vs (typeLiteralStruct pr rec nm fs root) (well_typed pr vs)"
proof -
  have "verifies vs (mapS (type_init pr rec t) fs) (\<lambda>fs'. \<forall>fe \<in> set fs'. well_typed pr vs (snd fe) \<and>
      (0 \<le> fr_index (fst fe) \<longrightarrow> (\<exists>u. is_member pr t (fr_index (fst fe)) u \<and> has_type (snd fe) u)))" for t
    by (rule checks_weaken [OF ver.mapS [OF type_init_sound [OF assms]]])
      (auto simp: list_all2_conv_all_nth in_set_conv_nth, (metis fst_conv snd_conv)+)
  note inits = ver.bind [OF this]
  note validate = ver.bind [OF verifies_whenT [OF validateLiteralStruct_sound]]
  show ?thesis unfolding typeLiteralStruct_def
    by (intro ver.bind [OF verifies_type_or_Unknown] inits validate ver_binds ver.unit)
      (auto simp: well_typed_with node_typed_def literal_complete_def)
qed

lemma typeIdent_sound:
  assumes "ast_node root = Ident nm tas tgs res"
  shows "verifies vs (typeIdent nm tas tgs root) (well_typed pr vs)"
proof -
  have amb: "verifies vs (whenT b (bindT (liftT f) (\<lambda>cs. tc_error loc (msg cs)))) (\<lambda>_. \<not> b)"
    for b loc and f :: "tc \<Rightarrow> str result" and msg
    by (auto simp: whenT_def intro!: ver.unit ver.bind [OF ver.liftT] checks_weaken [OF verifies_error])
  have args: "verifies vs (\<lambda>s. bindR (foldS (\<lambda>a s.
          bindR (whenT (\<not> typeKnown a) (tc_error loc (msg_instantiate nm tas)) s) (\<lambda>(_, s'). Inr s'))
          ts s) (\<lambda>s'. Inr ((), s'))) (\<lambda>_. \<forall>t \<in> set ts. typeKnown t)" for loc ts
  proof (rule ver.foldS)
    fix a
    show "verifies vs (\<lambda>s. bindR (bindR (whenT (\<not> typeKnown a) (tc_error loc (msg_instantiate nm tas)) s)
        (\<lambda>(_, s'). Inr s')) (\<lambda>s'. Inr ((), s'))) (\<lambda>_. typeKnown a)"
      using verifies_whenT_error [of vs "\<not> typeKnown a" loc "msg_instantiate nm tas"]
      by (auto simp: checks_def bindR_eq_Inr)
  qed
  note args' = ver.bind [OF verifies_whenT [OF args]]
  show ?thesis unfolding typeIdent_def
    by (intro ver.bind [OF verifies_type_or_Unknown] ver_binds ver.bind [OF amb] args' ver.unit)
      (auto simp: well_typed_with node_typed_def assms, metis Suc_lessI length_greater_0_conv)
qed

lemma typeMember_node_sound:
  assumes "sound_on pr vs rec [e]"
  shows "verifies vs (typeMember_node pr rec e f root) (well_typed pr vs)"
proof -
  have "verifies vs (if fr_index f \<ge> 0 then
              bindT (node_type e') (\<lambda>et. member_type (pr_defs pr) et (fr_index f))
            else
              bindT (whenT v (bindT (node_type e') (\<lambda>et.
                tc_error (astLocation e') (msg_no_field et (fr_name f))))) (\<lambda>_. unitT t))
         (\<lambda>u. v \<longrightarrow> (\<exists>et. astType e' = Some et \<and> is_member pr et (fr_index f) u))" for e' v t
    by (auto simp: whenT_def intro!: ver.unit ver_binds ver.bind [OF ver.bind [OF verifies_node_type]]
        checks_weaken [OF verifies_error] checks_weaken [OF verifies_member])
  note member = ver.bind [OF this]
  show ?thesis unfolding typeMember_node_def
    by (intro sound_bind [OF assms] ver.bind [OF verifies_type_or_Unknown] ver_binds member ver.unit)
      (auto simp: well_typed_with node_typed_def)
qed

lemma typeBlock_sound:
  assumes "sound_on pr vs rec body"
  shows "verifies vs (typeBlock rec body root) (well_typed pr vs)"
  unfolding typeBlock_def
  by (intro ver.bind [OF sound_mapS [OF assms]] ver.unit)
    (auto simp: well_typed_with node_typed_def list_all_iff)

lemma typeModule_sound:
  assumes "sound_on pr vs rec [b]"
  shows "verifies vs (typeModule rec nm b ai root) (well_typed pr vs)"
  unfolding typeModule_def
  by (intro sound_bind [OF assms] ver.unit) (auto simp: well_typed_with node_typed_def)

lemma reduce_targets_sound: "verifies vs (reduce_targets e args) (\<lambda>e'. e' = e)"
  by (rule checksI) (auto simp: reduce_targets_def ver_defs split: node.splits)

lemma args_equal_sound:
  "length params \<le> length args \<Longrightarrow>
   verifies vs (args_equal args params) (\<lambda>_. \<forall>i < length params. has_type (args ! i) (params ! i))"
proof (induction args params rule: args_equal.induct)
  case (1 a as p ps)
  then have "length ps \<le> length as" by simp
  show ?case unfolding args_equal.simps
    by (intro ver_binds checks_weaken [OF "1.IH" [OF \<open>length ps \<le> length as\<close>]])
      (auto simp: has_type_def nth_Cons split: nat.splits)
qed (auto intro: ver.unit)

lemma call_type_sound: "verifies vs (call_type e args loc) (\<lambda>t. call_typed e args (Some t))"
proof -
  have fn: "verifies vs (bindT verifying (\<lambda>v.
           bindT (if isArgumentCountValid params varargs (length args) then args_equal args params
                  else whenT v (tc_error loc (msg_arguments (length params) (length args)))) (\<lambda>_.
             unitT ret)))
        (\<lambda>t. t = ret \<and> isArgumentCountValid params varargs (length args) \<and>
           (\<forall>i < length params. has_type (args ! i) (params ! i)))" for params ret varargs
  proof (rule ver.bind [OF verifies_verifying])
    fix v
    show "verifies vs (bindT (if isArgumentCountValid params varargs (length args) then args_equal args params
                  else whenT v (tc_error loc (msg_arguments (length params) (length args)))) (\<lambda>_.
             unitT ret))
        (\<lambda>t. v \<longrightarrow> t = ret \<and> isArgumentCountValid params varargs (length args) \<and>
           (\<forall>i < length params. has_type (args ! i) (params ! i)))"
    proof (cases "isArgumentCountValid params varargs (length args)")
      case True
      then have l: "length params \<le> length args" by (auto simp: isArgumentCountValid_def split: if_splits)
      show ?thesis using True by (simp, intro ver.bind [OF args_equal_sound [OF l]] ver.unit) simp
    next
      case False
      then show ?thesis by (simp, intro ver_binds ver.unit) simp
    qed
  qed
  have other: "verifies vs (bindT (mapS node_type args) (\<lambda>ts.
           bindT fresh_Unknown (\<lambda>ret.
           bindT (typeMustEqual e (TyFunction ts ret False)) (\<lambda>_. unitT ret)))) (\<lambda>_. False)"
    by (intro ver.bind [OF ver.mapS [OF verifies_node_type]] ver_binds ver.unit) auto
  show ?thesis unfolding call_type_def
  proof (rule ver.bind [OF verifies_node_type])
    fix et
    show "verifies vs (case et of
         TyFunction params ret varargs \<Rightarrow>
           bindT verifying (\<lambda>v.
           bindT (if isArgumentCountValid params varargs (length args) then args_equal args params
                  else whenT v (tc_error loc (msg_arguments (length params) (length args)))) (\<lambda>_.
             unitT ret))
       | _ \<Rightarrow>
           bindT (mapS node_type args) (\<lambda>ts.
           bindT fresh_Unknown (\<lambda>ret.
           bindT (typeMustEqual e (TyFunction ts ret False)) (\<lambda>_. unitT ret))))
      (\<lambda>t. astType e = Some et \<longrightarrow> call_typed e args (Some t))"
      by (cases et) (auto intro!: checks_weaken [OF other] checks_weaken [OF fn] simp: call_typed_def)
  qed
qed

lemma typeCall_sound:
  assumes "sound_on pr vs rec (e # args)"
  shows "verifies vs (typeCall rec e args root) (well_typed pr vs)"
proof -
  have "sound_on pr vs rec args" using assms by (simp add: sound_on_def)
  then show ?thesis unfolding typeCall_def
    by (intro sound_bind [OF assms] ver.bind [OF sound_mapS] ver.bind [OF reduce_targets_sound]
        ver.bind [OF call_type_sound] ver.unit)
      (auto simp: well_typed_with node_typed_def list_all_iff)
qed

lemma element_sound:
  assumes "\<And>u. \<not> typeKnown u \<Longrightarrow> \<not> typeKnown (C u)"
  shows "verifies vs (bindT fresh_Unknown (\<lambda>u. bindT (typeMustEqual e (C u)) (\<lambda>_. unitT u))) (\<lambda>_. False)"
  by (intro ver_binds ver.unit) (use assms in auto)

lemma typeUnary_sound:
  assumes "sound_on pr vs rec [e]"
  shows "verifies vs (typeUnary rec op e root) (well_typed pr vs)"
proof -
  let ?typed = "\<lambda>e' t. case op of
      UnaryOpNot \<Rightarrow> has_type e' TyBool \<and> t = TyBool
    | UnaryOpDeref \<Rightarrow> astType e' = Some (TyPointer t)
    | UnaryOpNew \<Rightarrow> (\<exists>u. astType e' = Some u \<and> t = TyPointer u)
    | _ \<Rightarrow> False"
  have deref: "verifies vs (bindT (node_type e') (\<lambda>et.
             case et of
               TyPointer elt \<Rightarrow> unitT elt
             | _ \<Rightarrow> bindT fresh_Unknown (\<lambda>u. bindT (typeMustEqual e' (TyPointer u)) (\<lambda>_. unitT u))))
       (\<lambda>t. astType e' = Some (TyPointer t))" for e'
    by (intro ver_binds)
      (auto intro!: ver.unit checks_weaken [OF element_sound [of TyPointer]] split: ty.split)
  have op: "verifies vs (case op of
         UnaryOpNot \<Rightarrow> bindT (typeMustEqual e' TyBool) (\<lambda>_. unitT TyBool)
       | UnaryOpDeref \<Rightarrow>
           bindT (node_type e') (\<lambda>et.
             case et of
               TyPointer elt \<Rightarrow> unitT elt
             | _ \<Rightarrow> bindT fresh_Unknown (\<lambda>u. bindT (typeMustEqual e' (TyPointer u)) (\<lambda>_. unitT u)))
       | UnaryOpNew \<Rightarrow> bindT (node_type e') (\<lambda>et. unitT (TyPointer et))
       | _ \<Rightarrow> failT (ICE ''Unknown UnaryOp'')) (?typed e')" for e'
  proof (cases op)
    case UnaryOpNot
    then show ?thesis by simp (intro ver_binds ver.unit, auto simp: has_type_def)
  next
    case UnaryOpNew
    then show ?thesis by simp (intro ver_binds ver.unit, auto)
  qed (simp_all add: deref)
  show ?thesis unfolding typeUnary_def
    by (intro sound_bind [OF assms] ver.bind [OF op] ver.unit)
      (auto simp: well_typed_with node_typed_def split: unary_op.splits)
qed

lemma typeBinary_sound:
  assumes "sound_on pr vs rec [l, r]"
  shows "verifies vs (typeBinary rec op l r root) (well_typed pr vs)"
proof (cases "op = BinaryOpAnd \<or> op = BinaryOpOr")
  case True
  then show ?thesis unfolding typeBinary_def
    by (simp only: if_True, intro sound_bind [OF assms] ver_binds ver.unit)
      (auto simp: well_typed_with node_typed_def has_type_def)
next
  case False
  then show ?thesis unfolding typeBinary_def
    by (simp only: if_False, intro sound_bind [OF assms]) auto
qed

lemma typeIndex_sound:
  assumes "sound_on pr vs rec [e, i]"
  shows "verifies vs (typeIndex rec e i root) (well_typed pr vs)"
proof -
  have "verifies vs (case et of
         TyArray elt \<Rightarrow> unitT elt
       | _ \<Rightarrow> bindT fresh_Unknown (\<lambda>u. bindT (typeMustEqual e' (TyArray u)) (\<lambda>_. unitT u)))
       (\<lambda>t. et = TyArray t)" for et e'
    by (auto intro!: ver.unit checks_weaken [OF element_sound [of TyArray]] split: ty.split)
  note element = ver.bind [OF this]
  show ?thesis unfolding typeIndex_def
    by (intro sound_bind [OF assms] ver_binds element ver.unit)
      (auto simp: well_typed_with node_typed_def has_type_def)
qed

lemma verifies_isAssignable:
  "verifies vs (liftT (\<lambda>s. isAssignable (tc_vars s) l)) (\<lambda>b. isAssignable vs l = Inr b)"
  by (rule checks_weaken [OF ver.liftT]) (auto simp: ver_inv_def)

lemma typeAssign_sound:
  assumes "sound_on pr vs rec [l, r]" "fixed_ok root" "ast_node root = Assign l r"
  shows "verifies vs (typeAssign rec l r root) (well_typed pr vs)"
  unfolding typeAssign_def
  by (intro sound_bind [OF assms(1)] ver_binds ver.bind [OF verifies_isAssignable] ver.unit)
    (auto simp: well_typed_with node_typed_def has_type_def fixed_default assms)

lemma typeIf_sound:
  assumes "sound_on pr vs rec (c # t # (case e of Some b \<Rightarrow> [b] | None \<Rightarrow> []))"
  shows "verifies vs (typeIf rec c t e root) (well_typed pr vs)"
proof -
  have "verifies vs (case e of
         Some b \<Rightarrow>
           bindT (rec b) (\<lambda>b'.
           bindT (node_type t') (\<lambda>tt.
           bindT (typeMustEqual b' tt) (\<lambda>_. unitT (Some b'))))
       | None \<Rightarrow> bindT (typeMustEqual t' TyVoid) (\<lambda>_. unitT None))
       (\<lambda>e'. case e' of Some b \<Rightarrow> well_typed pr vs b \<and> (\<exists>u. astType t' = Some u \<and> has_type b u)
          | None \<Rightarrow> has_type t' TyVoid)" for t'
  proof (cases e)
    case None
    then show ?thesis by simp (intro ver_binds ver.unit, auto simp: has_type_def)
  next
    case (Some b)
    with assms have "sound_on pr vs rec [c, t, b]" by simp
    then show ?thesis
      by (simp add: Some, intro sound_bind [of pr vs rec "[c, t, b]"] ver_binds ver.unit)
        (auto simp: has_type_def)
  qed
  note rest = ver.bind [OF this]
  show ?thesis unfolding typeIf_def
    by (intro sound_bind [OF assms] ver_binds rest ver.unit)
      (auto simp: well_typed_with node_typed_def has_type_def split: option.splits)
qed

lemma typeFor_sound:
  assumes "sound_on pr vs rec [e, b]" "fixed_ok root" "ast_node root = For v i e b"
  shows "verifies vs (typeFor rec v i e b root) (well_typed pr vs)"
proof -
  have "verifies vs (case i of
         Some j \<Rightarrow> bindT (var_at j) (\<lambda>ivar. typeMustEqual_ty (v_type ivar) TyInteger (v_location ivar))
       | None \<Rightarrow> unitT ()) (\<lambda>_. case i of Some j \<Rightarrow> var_typed vs j (\<lambda>t. t = TyInteger) | None \<Rightarrow> True)"
  proof (cases i)
    case (Some j)
    have "t = TyInteger" if "strip t = TyInteger" for t using that by (cases t) auto
    then show ?thesis
      by (simp add: Some, intro ver_binds checks_weaken [OF verifies_mustEqual_ty])
        (auto simp: var_typed_def same_type_def)
  qed (simp add: ver.unit)
  note index = ver.bind [OF this]
  show ?thesis unfolding typeFor_def
    by (intro sound_bind [OF assms(1)] ver_binds index ver.unit)
      (auto simp: well_typed_with node_typed_def has_type_def var_typed_def fixed_default assms)
qed

lemma typeWhile_sound:
  assumes "sound_on pr vs rec [e, b]" "fixed_ok root" "ast_node root = While e b"
  shows "verifies vs (typeWhile rec e b root) (well_typed pr vs)"
  unfolding typeWhile_def
  by (intro sound_bind [OF assms(1)] ver_binds ver.unit)
    (auto simp: well_typed_with node_typed_def has_type_def fixed_default assms)

lemma typeFn_sound:
  assumes "sound_on pr vs rec [d]"
  shows "verifies vs (typeFn rec i d root) (well_typed pr vs)"
proof -
  have "verifies vs (case ast_node d' of
         FnDecl v tas as att b p m \<Rightarrow>
           bindT (var_at v) (\<lambda>var. unitT (with_type (Some (v_type var)) root (Fn i d')))
       | _ \<Rightarrow> failT AssertFail) (\<lambda>y. well_typed pr vs d' \<longrightarrow> well_typed pr vs y)" for d'
    by (cases "ast_node d'")
      (auto intro!: ver_binds ver.unit simp: well_typed_with node_typed_def var_typed_def)
  then show ?thesis unfolding typeFn_def by (intro sound_bind [OF assms]) auto
qed

lemma typeFnDecl_sound:
  assumes "sound_on pr vs rec (case b of Some e \<Rightarrow> [e] | None \<Rightarrow> [])" "fixed_ok root"
    "ast_node root = FnDecl v tas as att b p m"
  shows "verifies vs (typeFnDecl rec v tas as att b p m root) (well_typed pr vs)"
proof -
  have body: "verifies vs (bindT (var_at v) (\<lambda>var.
             case v_type var of
               TyFunction params ret varargs \<Rightarrow>
                 bindT (if ret = TyVoid then unitT () else typeMustEqual e' ret) (\<lambda>_. unitT (Some e'))
             | _ \<Rightarrow> failT (ICE ''FnDecl type is not Function'')))
      (\<lambda>x. x = Some e' \<and> var_typed vs v (\<lambda>t. \<exists>params ret varargs. t = TyFunction params ret varargs \<and>
                (ret = TyVoid \<or> has_type e' ret)))" for e'
  proof (rule ver.bind [OF verifies_var_at])
    fix var
    have ret: "verifies vs (bindT (if ret = TyVoid then unitT () else typeMustEqual e' ret) (\<lambda>_. unitT (Some e')))
        (\<lambda>x. x = Some e' \<and> (ret = TyVoid \<or> has_type e' ret))" for ret
      by (cases "ret = TyVoid") (auto intro!: ver_binds ver.unit simp: has_type_def)
    show "verifies vs (case v_type var of
               TyFunction params ret varargs \<Rightarrow>
                 bindT (if ret = TyVoid then unitT () else typeMustEqual e' ret) (\<lambda>_. unitT (Some e'))
             | _ \<Rightarrow> failT (ICE ''FnDecl type is not Function''))
        (\<lambda>x. get_var vs v = Inr var \<longrightarrow> x = Some e' \<and>
           var_typed vs v (\<lambda>t. \<exists>params ret varargs. t = TyFunction params ret varargs \<and>
                (ret = TyVoid \<or> has_type e' ret)))"
    proof (cases "v_type var")
      case (TyFunction params ret varargs)
      show ?thesis
        by (simp only: TyFunction ty.case, rule checks_weaken [OF ret]) (auto simp: var_typed_def TyFunction)
    qed simp_all
  qed
  have "verifies vs (case b of
         Some e \<Rightarrow>
           bindT (rec e) (\<lambda>e'.
           bindT (var_at v) (\<lambda>var.
             case v_type var of
               TyFunction params ret varargs \<Rightarrow>
                 bindT (if ret = TyVoid then unitT () else typeMustEqual e' ret) (\<lambda>_. unitT (Some e'))
             | _ \<Rightarrow> failT (ICE ''FnDecl type is not Function'')))
       | None \<Rightarrow>
           bindT verifying (\<lambda>ver.
           bindT (var_at v) (\<lambda>var.
           bindT (whenT ver (typeMustKnow (v_type var) (v_location var))) (\<lambda>_. unitT None))))
      (\<lambda>b'. case b' of
          Some e' \<Rightarrow> well_typed pr vs e' \<and>
            var_typed vs v (\<lambda>t. \<exists>params ret varargs. t = TyFunction params ret varargs \<and>
                (ret = TyVoid \<or> has_type e' ret))
        | None \<Rightarrow> var_typed vs v typeKnown)"
  proof (cases b)
    case None
    then show ?thesis
      by (simp, intro ver_binds ver.bind [OF verifies_whenT [OF verifies_mustKnow]] ver.unit)
        (auto simp: var_typed_def)
  next
    case (Some e)
    with assms(1) have "sound_on pr vs rec [e]" by simp
    with Some show ?thesis
      by (simp, intro sound_bind [of pr vs rec "[e]"] checks_weaken [OF body]) auto
  qed
  note body' = ver.bind [OF this]
  show ?thesis unfolding typeFnDecl_def
    by (intro body' ver.unit)
      (auto simp: well_typed_with node_typed_def fixed_default assms split: option.splits)
qed

lemma typeVarDecl_sound:
  assumes "sound_on pr vs rec [e]" "fixed_ok root" "ast_node root = VarDecl v e"
  shows "verifies vs (typeVarDecl rec v e root) (well_typed pr vs)"
  unfolding typeVarDecl_def
  by (intro sound_bind [OF assms(1)] ver_binds ver.unit)
    (auto simp: well_typed_with node_typed_def has_type_def var_typed_def fixed_default assms)

lemma typeTyDecl_sound:
  assumes "sound_on pr vs rec (List.map_filter sf_expr (sd_fields d))" "fixed_ok root"
    "ast_node root = TyDecl nm a d"
  shows "verifies vs (typeTyDecl rec nm a d root) (well_typed pr vs)"
proof -
  let ?ok = "\<lambda>f. \<forall>e. sf_expr f = Some e \<longrightarrow> well_typed pr vs e \<and> has_type e (sf_type f)"
  have field: "verifies vs (type_field rec f) ?ok" if "f \<in> set (sd_fields d)" for f
  proof (cases "sf_expr f")
    case (Some e)
    with that have "e \<in> set (List.map_filter sf_expr (sd_fields d))"
      by (force simp: List.map_filter_def)
    then show ?thesis
      by (simp add: type_field_def Some, intro ver.bind [OF type_and_equal_sound [OF assms(1)]] ver.unit) auto
  qed (auto simp: type_field_def intro: ver.unit)
  have "verifies vs (mapS (type_field rec) (sd_fields d)) (\<lambda>fs. \<forall>f \<in> set fs. ?ok f)"
    by (rule checks_weaken [OF ver.mapS [OF field]]) (auto simp: list_all2_conv_all_nth in_set_conv_nth)
  note fields = ver.bind [OF this]
  show ?thesis unfolding typeTyDecl_def
    by (intro fields ver.unit)
      (auto simp: well_typed_with node_typed_def fixed_default assms struct_exprs_set elim!: struct_field.set_cases)
qed

lemma type_node_sound:
  assumes "sound_on pr vs rec (children (ast_node root))" "fixed_ok root"
  shows "verifies vs (type_node pr rec root) (well_typed pr vs)"
proof (cases "ast_node root")
  case Common
  then show ?thesis
    by (simp add: type_node_def ver.unit well_typed_node [of pr vs root] node_typed_def)
next
  case (LLVM code)
  then show ?thesis
    by (auto simp: type_node_def well_typed_with node_typed_def
        intro!: ver.bind [OF verifies_type_or_Unknown] ver.unit)
qed (use assms in \<open>simp_all add: type_node_def typeLiteral_sound node_typed_def typeLiteralTuple_sound
    typeLiteralArray_sound typeLiteralStruct_sound typeIdent_sound typeMember_node_sound typeBlock_sound
    typeModule_sound typeCall_sound typeUnary_sound typeBinary_sound typeIndex_sound typeAssign_sound
    typeIf_sound typeFor_sound typeWhile_sound typeFn_sound typeFnDecl_sound typeVarDecl_sound
    typeTyDecl_sound\<close>)

lemma type_ast_sound:
  "\<forall>n \<in> set (nodes_of root). fixed_ok n \<Longrightarrow> verifies vs (type_ast pr root) (well_typed pr vs)"
proof (induction root rule: nodes_of.induct)
  case (1 root)
  have eq: "type_ast pr root = type_node pr (type_ast pr) root"
    by (rule ext) (rule type_ast.simps)
  have "sound_on pr vs (type_ast pr) (children (ast_node root))"
    unfolding sound_on_def
  proof
    fix c assume c: "c \<in> set (children (ast_node root))"
    with "1.prems" have "\<forall>n \<in> set (nodes_of c). fixed_ok n"
      by (auto simp: nodes_of.simps [of root])
    with "1.IH" [OF c] show "verifies vs (type_ast pr c) (well_typed pr vs)" .
  qed
  moreover have "fixed_ok root" using "1.prems" by (simp add: nodes_of.simps [of root])
  ultimately show ?case unfolding eq by (rule type_node_sound)
qed

section \<open>Verification\<close>

lemma verifyNode_sound:
  "verifies vs (seqT (\<lambda>s. bindR (verifyNode node s) (\<lambda>(_, s'). Inr s'))) (\<lambda>_. \<forall>t \<in> node_types vs node. typeKnown t)"
proof -
  have "verifies vs (seqT (\<lambda>s. bindR (typeMustKnow t (astLocation node) s) (\<lambda>(_, s'). Inr s'))) (\<lambda>_. typeKnown t)" for t
    using verifies_mustKnow [of vs t "astLocation node"] by (auto simp: checks_def bindR_eq_Inr)
  from ver.visitAstTypes [OF this, where ws = vs and a = node]
  have *: "verifies vs (seqT (visitAstTypes vs (\<lambda>t s. bindR (typeMustKnow t (astLocation node) s) (\<lambda>(_, s'). Inr s')) node))
      (\<lambda>_. \<forall>t \<in> node_types vs node. typeKnown t)" .
  show ?thesis
  proof (rule checksI)
    fix s x s'
    assume s: "ver_inv vs s" and "seqT (\<lambda>s. bindR (verifyNode node s) (\<lambda>(_, s'). Inr s')) s = Inr (x, s')"
    moreover from s have "tc_vars s = vs" by (simp add: ver_inv_def)
    ultimately have "seqT (visitAstTypes vs (\<lambda>t s. bindR (typeMustKnow t (astLocation node) s) (\<lambda>(_, s'). Inr s')) node) s
        = Inr (x, s')"
      by (simp add: verifyNode_def bindR_assoc)
    with * s show "ver_inv vs s' \<and> ver_le s s' \<and> (ver_ok s' \<longrightarrow> (\<forall>t \<in> node_types vs node. typeKnown t))"
      unfolding checks_def by blast
  qed
qed

lemma visitAstRec_sound:
  "verifies vs (seqT (visitAstRec verifyNode False a)) (\<lambda>_. \<forall>n \<in> set (nodes_of a). \<forall>t \<in> node_types vs n. typeKnown t)"
proof (induction a rule: nodes_of.induct)
  case (1 a)
  have eq: "visitAstRec verifyNode False a = (\<lambda>s. bindR (bindR (verifyNode a s) (\<lambda>(_, s'). Inr s'))
      (foldS (visitAstRec verifyNode False) (children (ast_node a))))"
    by (rule ext, subst visitAstRec.simps) (simp add: verifyNode_def bindR_assoc)
  show ?case unfolding eq
    by (rule ver.seq_bind [OF verifyNode_sound checks_weaken [OF ver.foldS [OF 1]]])
      (auto simp: nodes_of.simps [of a])
qed

lemma typeckVerify_typed:
  assumes "typeckVerify pr out vs nxt root = Inr (root', s')"
    "errors out = 0" "errors (tc_output s') = 0"
    "\<forall>n \<in> set (nodes_of root). fixed_ok n"
  shows "tc_vars s' = vs \<and> well_typed pr vs root' \<and> (\<forall>n \<in> set (nodes_of root'). \<forall>t \<in> node_types vs n. typeKnown t)"
proof -
  define s0 where "s0 = \<lparr>tc_output = out, tc_vars = vs, tc_next = nxt, tc_con = None, tc_written = (\<lambda>_. None)\<rparr>"
  from assms(1) obtain s where s: "type_ast pr root s0 = Inr (root', s)" "visitAst verifyNode root' s = Inr s'"
    by (auto simp: typeckVerify_def s0_def bindR_eq_Inr)
  have "ver_inv vs s0" using assms(2) by (simp add: s0_def ver_inv_def)
  with type_ast_sound [OF assms(4), of vs pr] s(1)
  have 1: "ver_inv vs s" "ver_ok s \<longrightarrow> well_typed pr vs root'" unfolding checks_def by blast+
  have "ver_inv vs s' \<and> ver_le s s' \<and>
      (ver_ok s' \<longrightarrow> (\<forall>n \<in> set (nodes_of root'). \<forall>t \<in> node_types vs n. typeKnown t))"
    using visitAstRec_sound [of vs root'] 1(1) s(2) by (auto simp: checks_def visitAst_def)
  moreover have "ver_ok s'" using assms(3) by (simp add: ver_ok_def)
  moreover from calculation have "tc_vars s' = vs" by (simp add: ver_inv_def)
  ultimately show ?thesis using 1 ver.ok_before by blast
qed

text \<open>
  C3: What verification accepts is well typed: if it ends without errors, then every node of the
  tree it leaves obeys the typing rule of its kind (conditions are \<open>bool\<close>, arguments match the
  parameters in number and type, both branches of an \<open>if\<close> agree, struct literals are complete, the
  target of an assignment is assignable, and so on), and no type in the tree or of a declared
  variable has an unknown in it.
\<close>

theorem typeckVerify_sound:
  assumes "typeckVerify pr out vs nxt root = Inr (root', s')"
    "errors out = 0" "errors (tc_output s') = 0"
    "\<forall>n \<in> set (nodes_of root). fixed_ok n"
  shows "well_typed pr vs root' \<and> (\<forall>n \<in> set (nodes_of root'). \<forall>t \<in> node_types vs n. typeKnown t)"
  using typeckVerify_typed [OF assms] by blast

lemma typeckVerify_sound_witness:
  "well_typed \<lparr>pr_defs = (\<lambda>_. None), pr_fns = (\<lambda>_. None)\<rparr> []
     (Node (Some TyVoid) Location0 (If (Node (Some TyBool) Location0 (LiteralBool True))
       (Node (Some TyVoid) Location0 (Block [])) None))"
proof -
  let ?root = "Node None Location0 (If (Node None Location0 (LiteralBool True)) (Node None Location0 (Block [])) None)"
  have "typeckVerify \<lparr>pr_defs = (\<lambda>_. None), pr_fns = (\<lambda>_. None)\<rparr> Output0 [] 0 ?root =
      Inr (Node (Some TyVoid) Location0 (If (Node (Some TyBool) Location0 (LiteralBool True))
        (Node (Some TyVoid) Location0 (Block [])) None),
        \<lparr>tc_output = Output0, tc_vars = [], tc_next = 0, tc_con = None, tc_written = (\<lambda>_. None)\<rparr>)"
    by (simp add: typeckVerify_def type_ast.simps type_node_def typeIf_def bindT_def unitT_def typeLiteral_def
        default_type_def with_type_def typeMustEqual_def node_type_def typeMustEqual_ty_def typeEquals_def
        unify_same whenT_def typeMustKnow_def typeBlock_def visitAst_def visitAstRec.simps verifyNode_def
        visitAstTypes_def)
  from typeckVerify_sound [OF this] show ?thesis
    by (simp add: Output0_def fixed_ok_def nodes_of.simps)
qed

end
