(* ===== verification/TypeInfer.thy ===== *)
theory TypeInfer
  imports TypeFrame TypesInst
begin

text \<open>
  What inference guarantees: a pass with constraints reports nothing, leaves the variables alone and
  only adds constraints; and the reduction of overloads keeps exactly the candidates whose
  parameters the arguments can be made to match.
\<close>

section \<open>The frame of inference\<close>

definition inf_inv :: "outp \<Rightarrow> var_store \<Rightarrow> tc \<Rightarrow> bool" where
  "inf_inv out vs s = (tc_con s \<noteq> None \<and> tc_output s = out \<and> tc_vars s = vs)"

text \<open>The constraints keep their bindings, and the count of rewrites does not shrink.\<close>

definition inf_le :: "constraints \<Rightarrow> constraints \<Rightarrow> bool" where
  "inf_le c c' = (map_of (c_data c) \<subseteq>\<^sub>m map_of (c_data c') \<and> c_rewrites c \<le> c_rewrites c')"

definition inf_rel :: "tc \<Rightarrow> tc \<Rightarrow> bool" where
  "inf_rel s s' = (\<forall>c. tc_con s = Some c \<longrightarrow> (\<exists>c'. tc_con s' = Some c' \<and> inf_le c c'))"

lemma inf_le_trans: "inf_le a b \<Longrightarrow> inf_le b c \<Longrightarrow> inf_le a c"
  by (auto simp: inf_le_def intro: map_le_trans)

interpretation inf: tc_frame "inf_inv out vs" inf_rel "\<lambda>_. True" for out vs
proof
  show "inf_rel s s" for s by (auto simp: inf_rel_def inf_le_def)
  show "inf_rel s t \<Longrightarrow> inf_rel t u \<Longrightarrow> inf_rel s u" for s t u
    unfolding inf_rel_def using inf_le_trans by blast
qed

abbreviation silent :: "outp \<Rightarrow> var_store \<Rightarrow> 'a tcm \<Rightarrow> bool" where
  "silent out vs m \<equiv> checks (inf_inv out vs) inf_rel (\<lambda>_. True) m (\<lambda>_. True)"

interpretation rewrites_kept: unify_adder tryAdd "\<lambda>_ _. True" "\<lambda>c. c_rewrites c = n" for n
proof
  show "c_rewrites c' = n" if "tryAdd l r c = Inr (ok, c')" "c_rewrites c = n" for l r c ok c'
    using that by (cases rule: tryAdd_cases) (auto simp: c_set_def)
qed (auto simp: list_all2_conv_all_nth)

lemma typeUnify_inf_le:
  assumes "typeUnify l r c = Inr (b, c')"
  shows "inf_le c c'"
proof -
  note u = assms [unfolded typeUnify_def]
  have "map_of (c_data c) \<subseteq>\<^sub>m map_of (c_data c')"
    by (rule extends.unify_keeps [OF u]) simp_all
  moreover have "c_rewrites c' = c_rewrites c" by (rule rewrites_kept.unify_keeps [OF u]) simp_all
  ultimately show ?thesis by (simp add: inf_le_def)
qed

lemma silent_bind: "silent out vs m \<Longrightarrow> (\<And>x. silent out vs (f x)) \<Longrightarrow> silent out vs (bindT m f)"
  by (rule inf.bind) auto

lemma silent_unit: "silent out vs (unitT x)"
  by (rule inf.unit) simp

lemma silent_liftT: "silent out vs (liftT f)"
  by (rule checks_weaken [OF inf.liftT]) simp

lemma silent_verifying: "silent out vs (f False) \<Longrightarrow> silent out vs (bindT verifying f)"
proof (rule checksI)
  fix s x s'
  assume f: "silent out vs (f False)" and s: "inf_inv out vs s" and eq: "bindT verifying f s = Inr (x, s')"
  from s eq have "f False s = Inr (x, s')" by (auto simp: bindT_def verifying_def inf_inv_def)
  with f s show "inf_inv out vs s' \<and> inf_rel s s' \<and> (True \<longrightarrow> True)" unfolding checks_def by blast
qed

lemma silent_mapS: "(\<And>x. x \<in> set xs \<Longrightarrow> silent out vs (f x)) \<Longrightarrow> silent out vs (mapS f xs)"
  by (rule checks_weaken [OF inf.mapS]) auto

lemma silent_fresh: "silent out vs fresh_Unknown"
  by (auto simp: checks_def fresh_Unknown_def inf_inv_def inf_rel_def inf_le_def)

lemma silent_node_type: "silent out vs (node_type a)"
  by (auto simp: node_type_def intro: silent_unit split: option.splits)

lemma silent_var_at: "silent out vs (var_at a)"
  by (simp add: var_at_def silent_liftT)

lemma silent_mustEqual_ty: "silent out vs (typeMustEqual_ty t u loc)"
proof (rule checksI)
  fix s x s'
  assume s: "inf_inv out vs s" and eq: "typeMustEqual_ty t u loc s = Inr (x, s')"
  then obtain c b c' where "tc_con s = Some c" "typeUnify t u c = Inr (b, c')" "s' = s\<lparr>tc_con := Some c'\<rparr>"
    by (auto simp: typeMustEqual_ty_def inf_inv_def bindR_eq_Inr)
  with s typeUnify_inf_le [of t u c b c'] show "inf_inv out vs s' \<and> inf_rel s s' \<and> (True \<longrightarrow> True)"
    by (simp add: inf_inv_def inf_rel_def)
qed

lemma silent_mustEqual: "silent out vs (typeMustEqual e t)"
  unfolding typeMustEqual_def by (intro silent_bind silent_node_type silent_mustEqual_ty)

lemma silent_member: "silent out vs (member_type defs t index)"
  by (auto simp: checks_def member_type_def inf_inv_def inf_rel_def inf_le_def bindR_eq_Inr)

section \<open>An inference pass is silent\<close>

lemmas silent_rules = silent_bind silent_unit silent_liftT silent_verifying silent_mapS silent_fresh
  silent_node_type silent_var_at silent_mustEqual_ty silent_mustEqual silent_member checks_fail

lemma silent_whenT_False: "silent out vs (whenT False m)"
  by (simp add: whenT_def silent_unit)

lemma silent_if: "(b \<Longrightarrow> silent out vs m) \<Longrightarrow> (\<not> b \<Longrightarrow> silent out vs n) \<Longrightarrow> silent out vs (if b then m else n)"
  by simp

lemma silent_type_or_Unknown: "silent out vs (type_or_Unknown root)"
  by (auto simp: type_or_Unknown_def intro: silent_rules split: option.split)

lemma silent_type_fields:
  "(\<And>c. c \<in> set fs \<Longrightarrow> silent out vs (rec c)) \<Longrightarrow> silent out vs (type_fields rec fs ts)"
proof (induction fs arbitrary: ts)
  case (Cons f fs)
  then show ?case by (cases ts) (auto intro!: silent_rules)
qed (simp add: silent_unit)

lemma silent_args_equal: "silent out vs (args_equal args params)"
  by (induction args params rule: args_equal.induct) (auto intro: silent_rules)

lemma silent_reduce_targets: "silent out vs (reduce_targets e args)"
proof (rule checksI)
  fix s e' s'
  assume s: "inf_inv out vs s" and eq: "reduce_targets e args s = Inr (e', s')"
  have args: "silent out vs (mapS node_type args)" by (intro silent_mapS silent_node_type)
  obtain c where c: "tc_con s = Some c" using s by (auto simp: inf_inv_def)
  show "inf_inv out vs s' \<and> inf_rel s s' \<and> (True \<longrightarrow> True)"
  proof (cases "\<exists>nm tas tgs res. ast_node e = Ident nm tas tgs res \<and> 1 < length tgs")
    case True
    then obtain nm tas tgs res where n: "ast_node e = Ident nm tas tgs res" "1 < length tgs" by blast
    with eq c obtain ts s1 tgs' n where 1: "mapS node_type args s = Inr (ts, s1)"
      "s' = s1\<lparr>tc_con := Some (c\<lparr>c_rewrites := c_rewrites c + int n\<rparr>)\<rparr>"
      by (auto simp: reduce_targets_def bindR_eq_Inr)
    from args s 1(1) have "inf_inv out vs s1" by (auto simp: checks_def)
    with 1(2) c show ?thesis by (auto simp: inf_inv_def inf_rel_def inf_le_def)
  next
    case False
    with eq c have "s' = s" by (auto simp: reduce_targets_def split: node.splits if_splits)
    with s show ?thesis by (simp add: inf.refl)
  qed
qed

lemma silent_call_type: "silent out vs (call_type e args loc)"
  unfolding call_type_def
  by (intro silent_rules) (auto intro!: silent_rules silent_args_equal simp: whenT_def split: ty.split)

lemma silent_field: 
  assumes "\<And>c. c \<in> set (List.map_filter sf_expr fs) \<Longrightarrow> silent out vs (rec c)" "f \<in> set fs"
  shows "silent out vs (type_field rec f)"
proof (cases "sf_expr f")
  case (Some e)
  with assms(2) have "e \<in> set (List.map_filter sf_expr fs)" by (force simp: List.map_filter_def)
  with assms(1) Some show ?thesis by (auto simp: type_field_def type_and_equal_def intro!: silent_rules)
qed (simp add: type_field_def silent_unit)

lemma silent_type_node:
  assumes "\<And>c. c \<in> set (children (ast_node root)) \<Longrightarrow> silent out vs (rec c)"
  shows "silent out vs (type_node pr rec root)"
proof (cases "ast_node root")
  case (LiteralTuple fs)
  have "silent out vs (case t of
         TyTuple ts \<Rightarrow>
           bindT (type_fields rec fs ts) (\<lambda>fs'. unitT (with_type (Some t) root (LiteralTuple fs')))
       | _ \<Rightarrow> failT AssertFail)" for t
    using assms by (cases t) (auto simp: LiteralTuple intro!: silent_rules silent_type_fields)
  then show ?thesis
    by (auto simp: LiteralTuple type_node_def typeLiteralTuple_def intro!: silent_rules split: option.split)
next
  case (LiteralArray es)
  have "silent out vs (case t of
         TyArray elt \<Rightarrow>
           bindT (mapS (type_and_equal rec elt) es) (\<lambda>es'. unitT (with_type (Some t) root (LiteralArray es')))
       | _ \<Rightarrow> failT AssertFail)" for t
    using assms by (cases t) (auto simp: LiteralArray type_and_equal_def intro!: silent_rules)
  then show ?thesis
    by (auto simp: LiteralArray type_node_def typeLiteralArray_def intro!: silent_rules split: option.split)
next
  case (LiteralStruct nm fs)
  then have "silent out vs (type_init pr rec t fe)" if "fe \<in> set fs" for t fe
    using assms that by (auto simp: type_init_def intro!: silent_rules)
  then show ?thesis
    by (auto simp: LiteralStruct type_node_def typeLiteralStruct_def
        intro!: silent_rules silent_type_or_Unknown silent_whenT_False)
next
  case (TyDecl nm a d)
  then show ?thesis
    using assms silent_field [of "sd_fields d" out vs rec]
    by (auto simp: type_node_def typeTyDecl_def intro!: silent_rules)
next
  case (If c t e)
  then show ?thesis
    using assms by (cases e) (auto simp: type_node_def typeIf_def intro!: silent_rules)
next
  case (FnDecl v tas as att b p m)
  have "silent out vs (case v_type var of
               TyFunction params ret varargs \<Rightarrow>
                 bindT (if ret = TyVoid then unitT () else typeMustEqual e' ret) (\<lambda>_. unitT (Some e'))
             | _ \<Rightarrow> failT (ICE ''FnDecl type is not Function''))" for var e'
    by (cases "v_type var") (auto intro!: silent_rules)
  then show ?thesis
    using assms FnDecl
    by (cases b) (auto simp: type_node_def typeFnDecl_def intro!: silent_rules silent_whenT_False)
next
  case (Unary op e)
  then show ?thesis using assms
    by (cases op) (auto simp: type_node_def typeUnary_def intro!: silent_rules split: ty.split)
next
  case (Fn i d)
  have "silent out vs (case ast_node d' of
         FnDecl v tas as att b p m \<Rightarrow>
           bindT (var_at v) (\<lambda>var. unitT (with_type (Some (v_type var)) root (Fn i d')))
       | _ \<Rightarrow> failT AssertFail)" for d'
    by (cases "ast_node d'") (auto intro!: silent_rules)
  then show ?thesis using assms Fn by (auto simp: type_node_def typeFn_def intro!: silent_rules)
qed (use assms in \<open>auto simp: type_node_def typeLiteral_def typeIdent_def typeMember_node_def typeBlock_def
    typeModule_def typeCall_def typeBinary_def typeIndex_def typeAssign_def typeFor_def typeWhile_def typeVarDecl_def
    intro!: silent_rules silent_type_or_Unknown silent_whenT_False silent_reduce_targets silent_call_type
    split: ty.split option.split\<close>)

lemma silent_type_ast: "silent out vs (type_ast pr root)"
proof (induction root rule: nodes_of.induct)
  case (1 root)
  have eq: "type_ast pr root = type_node pr (type_ast pr) root"
    by (rule ext) (rule type_ast.simps)
  show ?case unfolding eq by (rule silent_type_node) (rule 1)
qed

text \<open>
  C32: A pass of the type checker with constraints is inference only: it reports nothing and changes
  no variable, and the constraints after it keep every binding there was and count no fewer
  rewrites.
\<close>

theorem type_ast_infers:
  assumes "type_ast pr root s = Inr (root', s')" "tc_con s = Some c"
  shows "tc_output s' = tc_output s \<and> tc_vars s' = tc_vars s \<and>
    (\<exists>c'. tc_con s' = Some c' \<and> map_of (c_data c) \<subseteq>\<^sub>m map_of (c_data c') \<and> c_rewrites c \<le> c_rewrites c')"
proof -
  have "inf_inv (tc_output s) (tc_vars s) s" using assms(2) by (simp add: inf_inv_def)
  with silent_type_ast [of "tc_output s" "tc_vars s" pr root] assms(1)
  have "inf_inv (tc_output s) (tc_vars s) s' \<and> inf_rel s s'" unfolding checks_def by blast
  with assms(2) show ?thesis by (auto simp: inf_inv_def inf_rel_def inf_le_def)
qed

lemma type_ast_infers_witness:
  "\<exists>c'. Some \<lparr>c_data = [(7, TyInteger)], c_rewrites = 2\<rparr> = Some c' \<and> Map.empty \<subseteq>\<^sub>m map_of (c_data c')"
proof -
  let ?s = "\<lparr>tc_output = Output0, tc_vars = [], tc_next = 7, tc_con = Some \<lparr>c_data = [], c_rewrites = 2\<rparr>,
      tc_written = (\<lambda>_. None)\<rparr>"
  have "type_ast \<lparr>pr_defs = (\<lambda>_. None), pr_fns = (\<lambda>_. None)\<rparr>
      (Node None Location0 (LiteralArray [Node None Location0 (LiteralInteger 3)])) ?s =
      Inr (Node (Some (TyArray (TyUnknown 7))) Location0
            (LiteralArray [Node (Some TyInteger) Location0 (LiteralInteger 3)]),
           ?s\<lparr>tc_next := 8, tc_con := Some \<lparr>c_data = [(7, TyInteger)], c_rewrites = 2\<rparr>\<rparr>)"
    by (simp add: type_ast.simps type_node_def typeLiteralArray_def bindT_def unitT_def fresh_Unknown_def
        type_and_equal_def typeLiteral_def default_type_def with_type_def typeMustEqual_def node_type_def
        typeMustEqual_ty_def typeUnify_def unify_simps tryAdd_def tryAdd_bind_def typeOccurs_iff c_set_def)
  from type_ast_infers [OF this] show ?thesis by simp
qed

section \<open>Overloads\<close>

text \<open>Constraints that bind unknowns to known types only: those of one candidate with known parameters.\<close>

definition binds_known :: "constraints \<Rightarrow> bool" where
  "binds_known c = (distinct (map fst (c_data c)) \<and> (\<forall>(a, t) \<in> set (c_data c). typeKnown t \<and> resolved t))"

lemma tsub_known [simp]: "typeKnown t \<Longrightarrow> tsub \<sigma> t = t"
  by (induction t rule: typeKnown.induct) (auto simp: list_all_iff intro: map_idI)

lemma solves_known:
  "binds_known c \<Longrightarrow> solves \<sigma> (c_data c) \<longleftrightarrow> (\<forall>(a, t) \<in> set (c_data c). strip (\<sigma> a) = strip t)"
  unfolding solves_def binds_known_def by (intro ball_cong refl) (auto dest!: bspec)

text \<open>What unification of a known type with another one answers.\<close>

definition matches_at :: "ty \<Rightarrow> ty \<Rightarrow> constraints \<Rightarrow> bool" where
  "matches_at p a c = (\<exists>b c'. typeUnify p a c = Inr (b, c') \<and> binds_known c' \<and>
     (\<forall>\<sigma>. b \<and> solves \<sigma> (c_data c') \<longleftrightarrow> solves \<sigma> (c_data c) \<and> strip p = strip (tsub \<sigma> a)))"

lemma matches_Unknown:
  assumes "typeKnown p" "resolved p" "binds_known c"
  shows "matches_at p (TyUnknown u) c"
proof -
  have ne: "p \<noteq> TyUnknown u" using assms(1) by auto
  then have eq: "typeUnify p (TyUnknown u) c = tryAdd_bind u p c"
    by (cases p) (simp_all add: typeUnify_def unify_Unknown tryAdd_def, use assms(1) in auto)
  show ?thesis
  proof (cases "map_of (c_data c) u")
    case None
    then have "filter (\<lambda>p. fst p \<noteq> u) (c_data c) = c_data c" "u \<notin> fst ` set (c_data c)"
      by (force simp: map_of_eq_None_iff intro: filter_True)+
    with None assms show ?thesis
      by (auto simp: matches_at_def eq tryAdd_bind_def typeOccurs_iff unknowns_subterms [symmetric]
          typeKnown_unknowns c_set_def binds_known_def solves_def)
  next
    case (Some t)
    then have t: "(u, t) \<in> set (c_data c)" by (rule map_of_SomeD)
    with assms(3) have "typeKnown t" "resolved t" by (auto simp: binds_known_def)
    with assms have "typeEquals t p = Inr (strip t = strip p)"
      by (simp add: typeEquals_wild wild_strip)
    with Some t assms(3) show ?thesis
      by (auto simp: matches_at_def eq tryAdd_bind_def solves_known)
  qed
qed

lemma matches_list:
  assumes "length ps = length as" "\<And>p a c. p \<in> set ps \<Longrightarrow> a \<in> set as \<Longrightarrow> binds_known c \<Longrightarrow> matches_at p a c"
    "binds_known c"
  shows "\<exists>b c'. typeUnify_list (Some tryAdd) ps as c = Inr (b, c') \<and> binds_known c' \<and>
     (\<forall>\<sigma>. b \<and> solves \<sigma> (c_data c') \<longleftrightarrow>
        solves \<sigma> (c_data c) \<and> map strip ps = map (\<lambda>a. strip (tsub \<sigma> a)) as)"
  using assms
proof (induction ps as arbitrary: c rule: list_induct2)
  case (Cons p ps a as)
  obtain b c1 where 1: "typeUnify p a c = Inr (b, c1)" "binds_known c1"
    "\<forall>\<sigma>. b \<and> solves \<sigma> (c_data c1) \<longleftrightarrow> solves \<sigma> (c_data c) \<and> strip p = strip (tsub \<sigma> a)"
    using Cons.prems(1) [of p a c] Cons.prems(2) by (auto simp: matches_at_def)
  show ?case
  proof (cases b)
    case True
    obtain b' c' where 2: "typeUnify_list (Some tryAdd) ps as c1 = Inr (b', c')" "binds_known c'"
      "\<forall>\<sigma>. b' \<and> solves \<sigma> (c_data c') \<longleftrightarrow> solves \<sigma> (c_data c1) \<and> map strip ps = map (\<lambda>a. strip (tsub \<sigma> a)) as"
      using Cons.IH [of c1] Cons.prems(1) 1(2) by auto
    from 1 2 True show ?thesis by (auto simp: typeUnify_def)
  next
    case False
    with 1 show ?thesis by (auto simp: typeUnify_def)
  qed
qed (auto intro: exI [of _ True])

lemma matches_all: "typeKnown p \<Longrightarrow> resolved p \<Longrightarrow> resolved a \<Longrightarrow> binds_known c \<Longrightarrow> matches_at p a c"
proof (induction p arbitrary: a c)
  case (TyTuple fs)
  show ?case
  proof (cases a)
    case (TyTuple gs)
    show ?thesis
    proof (cases "length fs = length gs")
      case True
      from matches_list [OF this, of c] TyTuple.IH TyTuple.prems TyTuple True show ?thesis
        by (simp add: matches_at_def typeUnify_def unify_Tuple list_all_iff comp_def)
    next
      case False
      with TyTuple.prems TyTuple show ?thesis
        by (auto simp: matches_at_def typeUnify_def unify_Tuple dest: map_eq_imp_length_eq)
    qed
  next
    case (TyUnknown u)
    with TyTuple.prems show ?thesis by (simp add: matches_Unknown)
  qed (use TyTuple.prems in \<open>auto simp: matches_at_def typeUnify_def unify_simps\<close>)
next
  case (TyFunction as r v)
  show ?case
  proof (cases a)
    case fn: (TyFunction bs r' v')
    show ?thesis
    proof (cases "length as = length bs \<and> v = v'")
      case True
      then obtain b c1 where 1: "typeUnify_list (Some tryAdd) as bs c = Inr (b, c1)" "binds_known c1"
        "\<forall>\<sigma>. b \<and> solves \<sigma> (c_data c1) \<longleftrightarrow> solves \<sigma> (c_data c) \<and> map strip as = map (\<lambda>a. strip (tsub \<sigma> a)) bs"
        using matches_list [of as bs c] TyFunction.IH(1) TyFunction.prems fn by (auto simp: list_all_iff)
      show ?thesis
      proof (cases b)
        case b: True
        have "matches_at r r' c1" using TyFunction.IH(2) TyFunction.prems fn 1(2) by simp
        with 1 b True fn show ?thesis
          by (auto simp: matches_at_def typeUnify_def unify_Function comp_def)
      next
        case False
        with 1 True fn show ?thesis by (auto simp: matches_at_def typeUnify_def unify_Function comp_def)
      qed
    next
      case False
      with TyFunction.prems fn show ?thesis
        by (auto simp: matches_at_def typeUnify_def unify_Function dest: map_eq_imp_length_eq)
    qed
  next
    case (TyUnknown u)
    with TyFunction.prems show ?thesis by (simp add: matches_Unknown)
  qed (use TyFunction.prems in \<open>auto simp: matches_at_def typeUnify_def unify_simps\<close>)
next
  case (TyInstance i nm loc as df gen)
  show ?case
  proof (cases a)
    case inst: (TyInstance i' nm' loc' bs df' gen')
    show ?thesis
    proof (cases "length as = length bs \<and> df = df' \<and> gen = gen'")
      case True
      then have l: "length as = length bs" by simp
      from matches_list [OF l, of c] TyInstance.IH TyInstance.prems inst True show ?thesis
        by (simp add: matches_at_def typeUnify_def unify_Instance list_all_iff comp_def)
    next
      case False
      with TyInstance.prems inst show ?thesis
        by (auto simp: matches_at_def typeUnify_def unify_Instance dest: map_eq_imp_length_eq)
    qed
  next
    case (TyUnknown u)
    with TyInstance.prems show ?thesis by (simp add: matches_Unknown)
  qed (use TyInstance.prems in \<open>auto simp: matches_at_def typeUnify_def unify_simps\<close>)
next
  case (TyArray e)
  then show ?case
    by (cases a) (simp_all add: matches_Unknown, auto simp: matches_at_def typeUnify_def unify_simps)
next
  case (TyPointer e)
  then show ?case
    by (cases a) (simp_all add: matches_Unknown, auto simp: matches_at_def typeUnify_def unify_simps)
qed (simp, (case_tac a; simp add: matches_Unknown; simp add: matches_at_def typeUnify_def unify_simps; auto)+)

lemma binds_known_solvable: "binds_known c \<Longrightarrow> \<exists>\<sigma>. solves \<sigma> (c_data c)"
  by (rule exI [of _ "\<lambda>u. case map_of (c_data c) u of Some t \<Rightarrow> t | None \<Rightarrow> TyVoid"])
    (auto simp: solves_known binds_known_def)

lemma unify_all_matches:
  "\<forall>p \<in> set ps. typeKnown p \<and> resolved p \<Longrightarrow> \<forall>a \<in> set as. resolved a \<Longrightarrow> binds_known c \<Longrightarrow>
   unify_all ps as c = Inr (\<exists>\<sigma>. solves \<sigma> (c_data c) \<and>
     (\<forall>(p, a) \<in> set (zip ps as). strip p = strip (tsub \<sigma> a)))"
proof (induction ps as c rule: unify_all.induct)
  case (1 p ps a as c)
  then obtain b c' where u: "typeUnify p a c = Inr (b, c')" "binds_known c'"
    "\<And>\<sigma>. b \<and> solves \<sigma> (c_data c') \<longleftrightarrow> solves \<sigma> (c_data c) \<and> strip p = strip (tsub \<sigma> a)"
    using matches_all [of p a c] by (auto simp: matches_at_def)
  have "unify_all ps as c' = Inr (\<exists>\<sigma>. solves \<sigma> (c_data c') \<and>
      (\<forall>(p, a) \<in> set (zip ps as). strip p = strip (tsub \<sigma> a)))" if b
    using 1 u that by simp
  moreover have "(\<exists>\<sigma>. solves \<sigma> (c_data c) \<and> (\<forall>(p, a) \<in> set (zip (p # ps) (a # as)). strip p = strip (tsub \<sigma> a)))
      \<longleftrightarrow> b \<and> (\<exists>\<sigma>. solves \<sigma> (c_data c') \<and> (\<forall>(p, a) \<in> set (zip ps as). strip p = strip (tsub \<sigma> a)))"
  proof -
    have "solves \<sigma> (c_data c) \<and> (\<forall>(p, a) \<in> set (zip (p # ps) (a # as)). strip p = strip (tsub \<sigma> a)) \<longleftrightarrow>
        b \<and> solves \<sigma> (c_data c') \<and> (\<forall>(p, a) \<in> set (zip ps as). strip p = strip (tsub \<sigma> a))" for \<sigma>
      using u(3) [of \<sigma>] by auto
    then show ?thesis by blast
  qed
  ultimately show ?case using u(1) by (cases b) simp_all
qed (simp_all add: binds_known_solvable)

text \<open>A candidate that the arguments match: the right number, and some types for their unknowns.\<close>

definition candidate_matches :: "var_store \<Rightarrow> ty list \<Rightarrow> addr \<Rightarrow> bool" where
  "candidate_matches vs args target =
     (\<exists>v params ret varargs \<sigma>. get_var vs target = Inr v \<and> v_type v = TyFunction params ret varargs \<and>
        isArgumentCountValid params varargs (length args) \<and>
        (\<forall>i < length params. strip (params ! i) = strip (tsub \<sigma> (args ! i))))"

definition candidate_known :: "var_store \<Rightarrow> addr \<Rightarrow> bool" where
  "candidate_known vs target =
     (\<exists>v params ret varargs. get_var vs target = Inr v \<and> v_kind v = KindFunction \<and>
        v_type v = TyFunction params ret varargs \<and> (\<forall>p \<in> set params. typeKnown p \<and> resolved p))"

lemma isCandidateValid_matches:
  assumes "candidate_known vs target" "\<forall>a \<in> set args. resolved a"
  shows "isCandidateValid vs args target = Inr (candidate_matches vs args target)"
proof -
  from assms(1) obtain v params ret varargs where v: "get_var vs target = Inr v" "v_kind v = KindFunction"
    "v_type v = TyFunction params ret varargs" "\<forall>p \<in> set params. typeKnown p \<and> resolved p"
    by (auto simp: candidate_known_def)
  have "(\<forall>(p, a) \<in> set (zip params args). strip p = strip (tsub \<sigma> a)) \<longleftrightarrow>
      (\<forall>i < length params. strip (params ! i) = strip (tsub \<sigma> (args ! i)))"
    if "isArgumentCountValid params varargs (length args)" for \<sigma>
    using that by (fastforce simp: isArgumentCountValid_def set_zip split: if_splits)
  with unify_all_matches [OF v(4) assms(2), of constraints0] show ?thesis
    by (auto simp: isCandidateValid_def v candidate_matches_def constraints0_def binds_known_def solves_def)
qed

text \<open>
  C33: Overload reduction is exact where the candidates have known parameter types: it never fails,
  it keeps the candidates the arguments match, those for which some types of the arguments' unknowns
  make each parameter the same type as its argument, in their order, and it drops and counts all
  others.
\<close>

theorem reduceCandidates_exact:
  assumes "\<forall>t \<in> set targets. candidate_known vs t" "\<forall>a \<in> set args. resolved a"
  shows "reduceCandidates vs targets args =
    (let kept = filter (candidate_matches vs args) targets in Inr (kept, length targets - length kept))"
proof -
  have "mapR (isCandidateValid vs args) targets = Inr (map (candidate_matches vs args) targets)"
    using assms by (intro mapR_map) (simp add: isCandidateValid_matches)
  moreover have "map fst (filter snd (zip targets (map f targets))) = filter f targets" for f
    by (induction targets) auto
  ultimately show ?thesis by (simp add: reduceCandidates_def Let_def del: length_map)
qed

lemma reduceCandidates_exact_witness:
  "filter (candidate_matches
      [(1, \<lparr>v_kind = KindFunction, v_name = ''f'', v_type = TyFunction [TyInteger] TyVoid False,
            v_location = Location0, v_fn = None\<rparr>),
       (2, \<lparr>v_kind = KindFunction, v_name = ''f'', v_type = TyFunction [TyArray TyBool] TyVoid False,
            v_location = Location0, v_fn = None\<rparr>)] [TyArray (TyUnknown 5)]) [1, 2] = [2]"
proof -
  let ?vs = "[(1, \<lparr>v_kind = KindFunction, v_name = ''f'', v_type = TyFunction [TyInteger] TyVoid False,
            v_location = Location0, v_fn = None\<rparr>),
       (2, \<lparr>v_kind = KindFunction, v_name = ''f'', v_type = TyFunction [TyArray TyBool] TyVoid False,
            v_location = Location0, v_fn = None\<rparr>)]"
  have "reduceCandidates ?vs [1, 2] [TyArray (TyUnknown 5)] = Inr ([2], 1)"
    by (simp add: reduceCandidates_def isCandidateValid_def get_var_def isArgumentCountValid_def typeUnify_def
        unify_simps tryAdd_def tryAdd_bind_def typeOccurs_iff constraints0_def)
  moreover have "\<forall>t \<in> set [1, 2]. candidate_known ?vs t"
    by (auto simp: candidate_known_def get_var_def intro: exI [of _ False])
  moreover have "\<forall>a \<in> set [TyArray (TyUnknown 5)]. resolved a" by simp
  ultimately show ?thesis
    using reduceCandidates_exact [of "[1, 2]" ?vs "[TyArray (TyUnknown 5)]"] by (simp add: Let_def)
qed

section \<open>Type arguments\<close>

lemma ident_inst_missing:
  "i < length params \<Longrightarrow> length tas \<le> i \<Longrightarrow> generic_addr (params ! i) = Some g \<Longrightarrow>
   \<forall>j < i. generic_addr (params ! j) \<noteq> Some g \<Longrightarrow> ident_inst params tas g = Inl AssertFail"
proof (induction params arbitrary: tas i)
  case (Cons p ps)
  show ?case
  proof (cases i)
    case 0
    with Cons.prems show ?thesis by simp
  next
    case (Suc k)
    with Cons.prems have "generic_addr p \<noteq> Some g" "\<forall>j < k. generic_addr (ps ! j) \<noteq> Some g"
      by (metis nth_Cons_0 zero_less_Suc) (use Cons.prems Suc in force)
    moreover have "ident_inst ps (tl tas) g = Inl AssertFail"
      by (rule Cons.IH [of k]) (use Cons.prems Suc calculation in auto)
    ultimately show ?thesis by simp
  qed
qed simp

text \<open>Instantiation asks for every generic of the type.\<close>

lemma mapS_isRight_each: "isRight (mapS f xs s) \<Longrightarrow> x \<in> set xs \<Longrightarrow> \<exists>s'. isRight (f x s')"
proof (induction xs arbitrary: s)
  case (Cons y ys)
  then obtain y' s1 where y: "f y s = Inr (y', s1)" and ys: "isRight (mapS f ys s1)"
    by (auto simp: bindR_eq_Inr elim!: isRightE)
  show ?case
  proof (cases "x = y")
    case True
    with y have "isRight (f x s)" by simp
    then show ?thesis ..
  next
    case False
    with Cons.IH [OF ys] Cons.prems(2) show ?thesis by simp
  qed
qed simp

lemma isRight_bindR: "isRight (bindR m f) \<Longrightarrow> isRight m"
  by (cases m) auto

lemma typeInstantiate_asks:
  "isRight (typeInstantiate inst t nxt) \<Longrightarrow> g \<in> generics t \<Longrightarrow> isRight (inst g)"
proof (induction inst t nxt rule: typeInstantiate.induct)
  case (1 inst fs nxt)
  then have "isRight (mapS (typeInstantiate inst) fs nxt)" by (auto dest: isRight_bindR)
  from mapS_isRight_each [OF this] 1 show ?case by fastforce
next
  case (4 inst as r v nxt)
  then obtain as' nxt' where m: "mapS (typeInstantiate inst) as nxt = Inr (as', nxt')"
    and r: "isRight (typeInstantiate inst r nxt')"
    by (auto simp: bindR_eq_Inr elim!: isRightE)
  from m have "isRight (mapS (typeInstantiate inst) as nxt)" by simp
  from mapS_isRight_each [OF this] 4(1) "4.prems"(2) 4(2) [OF m HOL.refl r] show ?case by fastforce
next
  case (6 inst i nm loc as df nxt)
  then have "isRight (mapS (typeInstantiate inst) as nxt)" by (auto dest: isRight_bindR)
  from mapS_isRight_each [OF this] 6 show ?case by fastforce
qed (auto dest: isRight_bindR)

text \<open>
  Where an identifier names a generic function with fewer type arguments than the function has
  parameters (but at least one), and the function's type, which is known, mentions a parameter past
  them, no instantiation of it returns: the diagnostic about their number is followed by a failed
  bounds assertion in the callback (or by an earlier failure).
\<close>

theorem missing_type_arguments_fail:
  assumes "get_var (tc_vars s) a = Inr v" "v_kind v = KindFunction"
    "Option.bind (v_fn v) (pr_fns pr) = Some params" "tas \<noteq> []"
    "length tas \<le> i" "i < length params" "generic_addr (params ! i) = Some g"
    "\<forall>j < i. generic_addr (params ! j) \<noteq> Some g"
    "typeKnown (write_tyargs (tc_written s) (v_type v))" "g \<in> generics (write_tyargs (tc_written s) (v_type v))"
  shows "\<not> isRight (instantiateIdent pr nm tas [a] root s)"
proof
  assume "isRight (instantiateIdent pr nm tas [a] root s)"
  then obtain s1 :: tc and r where
    "typeInstantiate (ident_inst params tas) (write_tyargs (tc_written s) (v_type v)) (tc_next s1) = Inr r"
    using assms(1-4,9)
    by (auto simp: instantiateIdent_def var_at_def liftT_def bindT_def bindR_eq_Inr instantiate_args_def
        unitT_def elim!: isRightE)
  then have "isRight (typeInstantiate (ident_inst params tas) (write_tyargs (tc_written s) (v_type v)) (tc_next s1))"
    by simp
  from typeInstantiate_asks [OF this assms(10)] ident_inst_missing [OF assms(6,5,7,8)] show False by simp
qed

lemma missing_type_arguments_fail_witness:
  "\<not> isRight (instantiateIdent
      \<lparr>pr_defs = (\<lambda>_. None), pr_fns = [1 \<mapsto> [TyGeneric 10 ''T'' Location0, TyGeneric 11 ''U'' Location0]]\<rparr>
      ''f'' [TyInteger] [1] (Node None Location0 (Ident ''f'' [TyInteger] [1] False))
      \<lparr>tc_output = Output0,
       tc_vars = [(1, \<lparr>v_kind = KindFunction, v_name = ''f'',
         v_type = TyFunction [TyInstance 3 ''U'' Location0 [] None (Some 11)] TyVoid False,
         v_location = Location0, v_fn = Some 1\<rparr>)],
       tc_next = 0, tc_con = Some constraints0, tc_written = (\<lambda>_. None)\<rparr>)"
  by (rule missing_type_arguments_fail [where i = 1 and g = 11
        and params = "[TyGeneric 10 ''T'' Location0, TyGeneric 11 ''U'' Location0]"
        and v = "\<lparr>v_kind = KindFunction, v_name = ''f'',
          v_type = TyFunction [TyInstance 3 ''U'' Location0 [] None (Some 11)] TyVoid False,
          v_location = Location0, v_fn = Some 1\<rparr>"])
    (simp_all add: get_var_def)

end
