(* ===== verification/Driver.thy ===== *)
theory Driver
  imports TypeCheck ParseExpr Modules
begin

text \<open>
  The compiler driver, \<open>compiler/compiler.cpp\<close>: the command line, the names and paths of modules, the
  work list that loads them, and the passes that compile one module up to code generation. The file
  system is a parameter, the contents of a path or nothing. What the driver prints with \<open>--dump\<close> and
  \<open>--time\<close> does not take part in compilation and is left out.
\<close>

section \<open>The command line\<close>

text \<open>The options of LLVM are collected; the code passes each to LLVM as it is met.\<close>

record options =
  o_inputs :: "str list"
  o_output :: str
  o_triple :: str
  o_optimize :: int
  o_debugInfo :: int
  o_coverage :: bool
  o_compileOnly :: bool
  o_disablePrelude :: bool
  o_dumpParse :: bool
  o_dumpAst :: bool
  o_dumpLLVM :: bool
  o_dumpAsm :: bool
  o_time :: bool
  o_llvm :: "str list"

definition options0 :: options where
  "options0 =
     \<lparr>o_inputs = [], o_output = [], o_triple = [], o_optimize = 0, o_debugInfo = 0, o_coverage = False,
      o_compileOnly = False, o_disablePrelude = False, o_dumpParse = False, o_dumpAst = False,
      o_dumpLLVM = False, o_dumpAsm = False, o_time = False, o_llvm = []\<rparr>"

text \<open>\<open>atoi\<close>, of a value that an \<open>int\<close> can hold; of others C says nothing.\<close>

definition atoi :: "str \<Rightarrow> int" where
  "atoi s =
     (let r = dropWhile is_c_space s;
          neg = (case r of c # _ \<Rightarrow> c = CHR ''-'' | [] \<Rightarrow> False);
          r' = (case r of c # q \<Rightarrow> if c = CHR ''-'' \<or> c = CHR ''+'' then q else r | [] \<Rightarrow> r);
          n = int (read_nat (takeWhile is_digit_char r'))
      in if neg then - n else n)"

definition starts :: "str \<Rightarrow> str \<Rightarrow> bool" where
  "starts p s = (take (length p) s = p)"

definition level :: "str \<Rightarrow> str \<Rightarrow> int" where
  "level p a = (if a = p then 2 else atoi (drop (length p) a))"

text \<open>One option, with the arguments after it; \<open>None\<close> for an unknown one.\<close>

definition parseOption :: "str \<Rightarrow> str list \<Rightarrow> options \<Rightarrow> (options \<times> str list) option" where
  "parseOption a more_args s =
     (if a = ''-o'' \<and> more_args \<noteq> [] then Some (s\<lparr>o_output := hd more_args\<rparr>, tl more_args)
      else if a = ''-c'' then Some (s\<lparr>o_compileOnly := True\<rparr>, more_args)
      else if a = ''--dump-parse'' then Some (s\<lparr>o_dumpParse := True\<rparr>, more_args)
      else if a = ''--dump-ast'' then Some (s\<lparr>o_dumpAst := True\<rparr>, more_args)
      else if a = ''--dump-llvm'' then Some (s\<lparr>o_dumpLLVM := True\<rparr>, more_args)
      else if a = ''--dump-asm'' then Some (s\<lparr>o_dumpAsm := True\<rparr>, more_args)
      else if a = ''--time'' then Some (s\<lparr>o_time := True\<rparr>, more_args)
      else if starts ''-O'' a then Some (s\<lparr>o_optimize := level ''-O'' a\<rparr>, more_args)
      else if starts ''-g'' a then Some (s\<lparr>o_debugInfo := level ''-g'' a\<rparr>, more_args)
      else if a = ''-coverage'' then Some (s\<lparr>o_coverage := True\<rparr>, more_args)
      else if a = ''-noprelude'' then Some (s\<lparr>o_disablePrelude := True\<rparr>, more_args)
      else if starts ''--llvm'' a then Some (s\<lparr>o_llvm := o_llvm s @ [drop 6 a]\<rparr>, more_args)
      else if a = ''-triple'' \<and> more_args \<noteq> [] then Some (s\<lparr>o_triple := hd more_args\<rparr>, tl more_args)
      else None)"

lemma parseOption_rest: "parseOption a more_args s = Some (s', more_args') \<Longrightarrow> length more_args' \<le> length more_args"
  unfolding parseOption_def by (auto split: if_splits)

text \<open>The arguments after the name of the program; on the left the message of \<open>panic\<close>.\<close>

function parseArgs :: "str list \<Rightarrow> options \<Rightarrow> str + options" where
  "parseArgs [] s = Inr s"
| "parseArgs (a # more_args) s =
     (if a \<noteq> [] \<and> hd a = CHR ''-'' then
        (case parseOption a more_args s of
           None \<Rightarrow> Inl (''Unknown argument '' @ a)
         | Some (s', more_args') \<Rightarrow> parseArgs more_args' s')
      else parseArgs more_args (s\<lparr>o_inputs := o_inputs s @ [a]\<rparr>))"
  by pat_completeness auto
termination
  by (relation "measure (\<lambda>(args, s). length args)") (auto dest: parseOption_rest)

definition parseOptions :: "str list \<Rightarrow> str + options" where
  "parseOptions args =
     map_sum id (\<lambda>s. if o_coverage s then s\<lparr>o_debugInfo := max (o_debugInfo s) 1\<rparr> else s)
       (parseArgs args options0)"

section \<open>Names and paths of modules\<close>

text \<open>\<open>strrchr\<close>: the position of the last occurrence.\<close>

definition strrchr :: "str \<Rightarrow> char \<Rightarrow> nat option" where
  "strrchr s c =
     (if c \<in> set s then Some (length s - 1 - length (takeWhile (\<lambda>x. x \<noteq> c) (rev s))) else None)"

definition getModuleName :: "str \<Rightarrow> str" where
  "getModuleName path =
     (let fs = strrchr path (CHR ''/'');
          bs = strrchr path (CHR 0x5C);
          slash = (case (fs, bs) of (Some f, Some b) \<Rightarrow> Some (min f b) | (Some f, None) \<Rightarrow> Some f | (None, _) \<Rightarrow> bs);
          dot = strrchr path (CHR ''.'')
      in case slash of
           None \<Rightarrow> path
         | Some s \<Rightarrow>
             (case dot of
                Some d \<Rightarrow> if s < d then take (d - s - 1) (drop (s + 1) path) else drop s path
              | None \<Rightarrow> drop s path))"

definition getModulePath :: "str \<Rightarrow> str" where
  "getModulePath name =
     (let path = map (\<lambda>c. if c = CHR ''.'' then CHR ''/'' else c) name
      in if starts ''std/'' path then ''library/'' @ drop 4 path @ ''.aike'' else path @ ''.aike'')"

definition getRuntimePath :: "str \<Rightarrow> str" where
  "getRuntimePath compilerPath =
     (case strrchr compilerPath (CHR ''/'') of
        None \<Rightarrow> []
      | Some slash \<Rightarrow> take (slash + 1) compilerPath) @ ''aike-runtime.so''"

section \<open>Loading modules\<close>

text \<open>\<open>parseModule\<close>; one unit of fuel per token and one more is enough for the parser.\<close>

definition parseModule ::
    "str \<Rightarrow> str \<Rightarrow> str \<Rightarrow> addr \<Rightarrow> var_store \<Rightarrow> (ast \<times> addr \<times> var_store) result" where
  "parseModule source contents moduleName nxt vs =
     bindR (tokenize source contents) (\<lambda>tk. parse_at (length (tk_tokens tk) + 1) tk moduleName nxt vs)"

record pending =
  pm_name :: str
  pm_import :: location
  pm_path :: str

record loader =
  ld_modules :: "ast list"
  ld_ready :: "(str \<times> nat) list"
  ld_pending :: "pending list"
  ld_output :: outp
  ld_next :: addr
  ld_vars :: var_store

definition add_prelude :: "str \<Rightarrow> ast \<Rightarrow> ast" where
  "add_prelude name root =
     (case ast_node root of
        Module nm b ai \<Rightarrow>
          if name \<noteq> ''std.prelude'' then with_type (astType root) root (Module nm b (ai @ [''std.prelude'']))
          else root
      | _ \<Rightarrow> root)"

definition push_import :: "str \<Rightarrow> location \<Rightarrow> pending list \<Rightarrow> pending list" where
  "push_import nm loc ps = ps @ [\<lparr>pm_name = nm, pm_import = loc, pm_path = getModulePath nm\<rparr>]"

definition msg_no_module :: "str \<Rightarrow> str" where
  "msg_no_module nm = ''Cannot find module '' @ nm"

text \<open>One round of the loop, for the module at the front; the boolean is false where the code returns false.\<close>

definition load_module ::
    "(str \<Rightarrow> str option) \<Rightarrow> bool \<Rightarrow> pending \<Rightarrow> loader \<Rightarrow> (bool \<times> loader) result" where
  "load_module readFile disablePrelude pm s =
     (if map_of (ld_ready s) (pm_name pm) \<noteq> None then Inr (True, s)
      else case readFile (pm_path pm) of
        None \<Rightarrow>
          bindR (error_at (ld_output s) (pm_import pm) (msg_no_module (pm_name pm))) (\<lambda>out.
            Inr (False, s\<lparr>ld_output := out\<rparr>))
      | Some contents \<Rightarrow>
          bindR (parseModule (pm_path pm) contents (pm_name pm) (ld_next s) (ld_vars s)) (\<lambda>(root, nxt, vs).
            let root' = (if disablePrelude then root else add_prelude (pm_name pm) root)
            in bindR (moduleGatherImports push_import root' (ld_pending s)) (\<lambda>ps.
              Inr (True,
                s\<lparr>ld_modules := ld_modules s @ [root'],
                  ld_ready := (pm_name pm, length (ld_modules s)) # ld_ready s,
                  ld_pending := ps,
                  ld_output := (ld_output s)\<lparr>sources := (pm_path pm, contents) # sources (ld_output s)\<rparr>,
                  ld_next := nxt, ld_vars := vs\<rparr>))))"

fun load_modules :: "nat \<Rightarrow> (str \<Rightarrow> str option) \<Rightarrow> bool \<Rightarrow> loader \<Rightarrow> (bool \<times> loader) result" where
  "load_modules k readFile dp s =
     (case ld_pending s of
        [] \<Rightarrow> Inr (True, s)
      | pm # ps \<Rightarrow>
          (case k of
             0 \<Rightarrow> Inl NoFuel
           | Suc k' \<Rightarrow>
               bindR (load_module readFile dp pm (s\<lparr>ld_pending := ps\<rparr>)) (\<lambda>(ok, s').
                 if ok then load_modules k' readFile dp s' else Inr (False, s'))))"

declare load_modules.simps [simp del]

definition loader0 :: "options \<Rightarrow> outp \<Rightarrow> loader" where
  "loader0 opts out =
     \<lparr>ld_modules = [], ld_ready = [],
      ld_pending = map (\<lambda>f. \<lparr>pm_name = getModuleName f, pm_import = Location0, pm_path = f\<rparr>) (o_inputs opts),
      ld_output = out, ld_next = 0, ld_vars = []\<rparr>"

section \<open>Compiling modules\<close>

text \<open>
  What nodes refer to by address, from the declarations in the trees. The tree being compiled comes
  first; the code changes all of them in place.
\<close>

definition struct_of :: "addr \<Rightarrow> ast \<Rightarrow> ast tydef option" where
  "struct_of a n = (case ast_node n of TyDecl nm b d \<Rightarrow> if b = a then Some d else None | _ \<Rightarrow> None)"

definition fn_of :: "addr \<Rightarrow> ast \<Rightarrow> ty list option" where
  "fn_of a n = (case ast_node n of FnDecl v tas as att b p m \<Rightarrow> if v = a then Some tas else None | _ \<Rightarrow> None)"

fun first_some :: "('a \<Rightarrow> 'b option) \<Rightarrow> 'a list \<Rightarrow> 'b option" where
  "first_some f [] = None"
| "first_some f (x # xs) = (case f x of Some y \<Rightarrow> Some y | None \<Rightarrow> first_some f xs)"

definition program_of :: "ast list \<Rightarrow> program" where
  "program_of roots =
     \<lparr>pr_defs = (\<lambda>a. first_some (struct_of a) (concat (map nodes_of roots))),
      pr_fns = (\<lambda>a. first_some (fn_of a) (concat (map nodes_of roots)))\<rparr>"

text \<open>What the passes work on: the tree, the variables, the next address and the output.\<close>

record unit_state =
  u_root :: ast
  u_vars :: var_store
  u_next :: addr
  u_output :: outp

text \<open>
  The loop of inference and member resolution. The fuel \<open>n\<close> is the number of rounds, \<open>k\<close> the depth
  of \<open>rewrite\<close>; nothing in the code bounds either. The boolean is false where the code returns null.
\<close>

fun infer_loop :: "nat \<Rightarrow> nat \<Rightarrow> ast list \<Rightarrow> unit_state \<Rightarrow> (bool \<times> unit_state) result" where
  "infer_loop 0 k others u = Inl NoFuel"
| "infer_loop (Suc n) k others u =
     bindR (typeckPropagate k (program_of (u_root u # others)) (u_output u) (u_vars u) (u_next u) (u_root u))
       (\<lambda>(changed, root1, s).
         let u1 = \<lparr>u_root = root1, u_vars = tc_vars s, u_next = tc_next s, u_output = tc_output s\<rparr>
         in if errors (u_output u1) \<noteq> 0 then Inr (False, u1)
            else bindR (resolveMembers (pr_defs (program_of (root1 # others))) (u_output u1) root1)
              (\<lambda>(found, root2, out2).
                let u2 = u1\<lparr>u_root := root2, u_output := out2\<rparr>
                in if errors out2 \<noteq> 0 then Inr (False, u2)
                   else if changed + found \<noteq> 0 then infer_loop n k others u2
                   else Inr (True, u2)))"

text \<open>
  \<open>compileModule\<close>. Code generation is the parameter \<open>codegen\<close>: from the trees, the module's first, the state
  of the unit and the module of LLVM, the next address, the output with what it reports, and the module.
\<close>

type_synonym 'm generator = "ast list \<Rightarrow> unit_state \<Rightarrow> 'm \<Rightarrow> (addr \<times> outp \<times> 'm) result"

definition compileModule ::
    "nat \<Rightarrow> nat \<Rightarrow> 'm generator \<Rightarrow> (str \<Rightarrow> ast option) \<Rightarrow> ast list \<Rightarrow> unit_state \<Rightarrow> 'm \<Rightarrow>
      ((ast \<times> var_store) option \<times> unit_state \<times> 'm) result" where
  "compileModule n k codegen lookup others u md =
     bindR (resolveNames (u_output u) (u_vars u) (u_root u) (Some lookup)) (\<lambda>(root1, vs1, out1).
       let u1 = u\<lparr>u_root := root1, u_vars := vs1, u_output := out1\<rparr>
       in if errors out1 \<noteq> 0 then Inr (None, u1, md)
          else bindR (infer_loop n k others u1) (\<lambda>(ok, u2).
            if \<not> ok then Inr (None, u2, md)
            else bindR (typeckVerify (program_of (u_root u2 # others)) (u_output u2) (u_vars u2) (u_next u2) (u_root u2))
              (\<lambda>(root3, s).
                let u3 = \<lparr>u_root = root3, u_vars = tc_vars s, u_next = tc_next s, u_output = tc_output s\<rparr>
                in if errors (u_output u3) \<noteq> 0 then Inr (None, u3, md)
                   else bindR (codegen (root3 # others) u3 md) (\<lambda>(next4, out4, md4).
                     let u4 = u3\<lparr>u_next := next4, u_output := out4\<rparr>
                     in if errors out4 \<noteq> 0 then Inr (None, u4, md4) else Inr (Some (root3, u_vars u3), u4, md4)))))"

text \<open>The modules in the order of the sort; the list collects what was compiled.\<close>

fun compile_order ::
    "nat \<Rightarrow> nat \<Rightarrow> 'm generator \<Rightarrow> (str \<times> nat) list \<Rightarrow> nat list \<Rightarrow>
      (ast \<times> var_store) list \<Rightarrow> loader \<Rightarrow> 'm \<Rightarrow> (bool \<times> (ast \<times> var_store) list \<times> loader \<times> 'm) result" where
  "compile_order n k codegen ready [] entries s md = Inr (errors (ld_output s) = 0, entries, s, md)"
| "compile_order n k codegen ready (i # is) entries s md =
     (if i < length (ld_modules s) then
        bindR (compileModule n k codegen
            (\<lambda>nm. map_option (\<lambda>j. ld_modules s ! j) (map_of ready nm))
            (take i (ld_modules s) @ drop (i + 1) (ld_modules s))
            \<lparr>u_root = ld_modules s ! i, u_vars = ld_vars s, u_next = ld_next s, u_output = ld_output s\<rparr> md)
          (\<lambda>(entry, u, md').
            let s' = s\<lparr>ld_modules := (ld_modules s)[i := u_root u], ld_vars := u_vars u, ld_next := u_next u,
                       ld_output := u_output u\<rparr>
            in case entry of
                 None \<Rightarrow> Inr (False, entries, s', md')
               | Some e \<Rightarrow> compile_order n k codegen ready is (entries @ [e]) s' md')
      else Inl AssertFail)"

text \<open>The fuel: \<open>l\<close> rounds of loading, \<open>m\<close> of sorting, \<open>n\<close> of inference and depth \<open>k\<close> of rewriting.\<close>

definition compileModules ::
    "nat \<Rightarrow> nat \<Rightarrow> nat \<Rightarrow> nat \<Rightarrow> (str \<Rightarrow> str option) \<Rightarrow> 'm generator \<Rightarrow> options \<Rightarrow> outp \<Rightarrow> 'm \<Rightarrow>
      (bool \<times> (ast \<times> var_store) list \<times> loader \<times> 'm) result" where
  "compileModules l m n k readFile codegen opts out md =
     bindR (load_modules l readFile (o_disablePrelude opts) (loader0 opts out)) (\<lambda>(ok, s).
       if \<not> ok then Inr (False, [], s, md)
       else bindR (moduleSort m (ld_output s) (ld_modules s)) (\<lambda>(order, out1).
         compile_order n k codegen (ld_ready s) order [] (s\<lparr>ld_output := out1\<rparr>) md))"

end
