(* ===== verification/LiteralTypes.thy ===== *)
theory LiteralTypes
  imports TypeSound
begin

text \<open>
  The nodes whose type does not depend on their parts, literals and statements, keep this type or
  have none yet through every pass of the compiler: name resolution, the type checker in either
  mode, instantiation, propagation and the resolution of members.
\<close>

definition fixed_tree :: "ast \<Rightarrow> bool" where
  "fixed_tree a = (\<forall>n \<in> set (nodes_of a). fixed_ok n)"

lemma fixed_tree_node:
  "fixed_tree a \<longleftrightarrow> fixed_ok a \<and> (\<forall>c \<in> set (children (ast_node a)). fixed_tree c)"
  by (auto simp: fixed_tree_def nodes_of.simps [of a])

lemma fixed_tree_Node:
  "fixed_tree (Node t loc n) \<longleftrightarrow>
     (\<forall>u v. fixed_type n = Some u \<longrightarrow> t = Some v \<longrightarrow> v = u) \<and> (\<forall>c \<in> set (children n). fixed_tree c)"
  by (simp add: fixed_tree_node [of "Node t loc n"] fixed_ok_def)

lemma fixed_ok_same:
  "fixed_ok a \<Longrightarrow> fixed_type (ast_node b) = fixed_type (ast_node a) \<Longrightarrow>
   (fixed_type (ast_node a) \<noteq> None \<Longrightarrow> astType b = astType a) \<Longrightarrow> fixed_ok b"
  by (auto simp: fixed_ok_def)

lemma fixed_type_rebuild [simp]: "fixed_type (rebuild n cs) = fixed_type n"
  by (cases n) simp_all

lemma fixed_rebuild:
  assumes "fixed_ok root" "length cs = length (children n)" "\<forall>c \<in> set cs. fixed_tree c"
    "fixed_type n = fixed_type (ast_node root)" "fixed_type n \<noteq> None \<Longrightarrow> t = astType root"
  shows "fixed_tree (Node t loc (rebuild n cs))"
proof -
  have "fixed_ok (Node t loc (rebuild n cs))"
    by (rule fixed_ok_same [OF assms(1)]) (use assms(4,5) in auto)
  with assms(2,3) show ?thesis by (simp add: fixed_tree_node [of "Node t loc (rebuild n cs)"] children_rebuild)
qed

text \<open>What a pass promises, and a pass over a list of children.\<close>

definition keeps_fixed :: "(ast \<Rightarrow> 's \<Rightarrow> (ast \<times> 's) result) \<Rightarrow> ast \<Rightarrow> bool" where
  "keeps_fixed f root = (\<forall>s root' s'. f root s = Inr (root', s') \<longrightarrow> fixed_tree root \<longrightarrow> fixed_tree root')"

lemma keeps_fixedD: "keeps_fixed f root \<Longrightarrow> f root s = Inr (root', s') \<Longrightarrow> fixed_tree root \<Longrightarrow> fixed_tree root'"
  by (auto simp: keeps_fixed_def)

lemma keeps_fixed_mapS:
  "\<forall>c \<in> set cs. keeps_fixed f c \<Longrightarrow> mapS f cs s = Inr (cs', s') \<Longrightarrow> \<forall>c \<in> set cs. fixed_tree c \<Longrightarrow>
   \<forall>c \<in> set cs'. fixed_tree c"
proof (induction cs arbitrary: s cs')
  case (Cons c cs)
  then obtain c' s1 cs1 where "f c s = Inr (c', s1)" "mapS f cs s1 = Inr (cs1, s')" "cs' = c' # cs1"
    by (auto simp: bindR_eq_Inr)
  moreover from this Cons.prems have "fixed_tree c'" by (auto intro: keeps_fixedD)
  ultimately show ?case using Cons.IH [of s1 cs1] Cons.prems by simp
qed simp

lemma keeps_fixed_visitInner:
  assumes "\<forall>c \<in> set (children (ast_node root)). keeps_fixed f c" "visitInner f root s = Inr (root', s')" "fixed_tree root"
  shows "fixed_tree root'"
proof -
  obtain cs where cs: "mapS f (children (ast_node root)) s = Inr (cs, s')"
    "root' = Node (astType root) (astLocation root) (rebuild (ast_node root) cs)"
    using assms(2) by (auto simp: visitInner_def bindR_eq_Inr)
  have "\<forall>c \<in> set cs. fixed_tree c"
    by (rule keeps_fixed_mapS [OF assms(1) cs(1)]) (use assms(3) in \<open>simp add: fixed_tree_node [of root]\<close>)
  with cs(2) assms(3) mapS_length [OF cs(1)] show ?thesis
    by (auto simp: fixed_tree_node [of root] intro!: fixed_rebuild)
qed

section \<open>Name resolution\<close>

lemma fixed_set_parent: "fixed_tree (set_parent p m root) \<longleftrightarrow> fixed_tree root"
proof (cases root)
  case (Node t loc n)
  then show ?thesis
    by (cases n) (simp_all add: set_parent_def fixed_tree_node [of "Node t loc m" for t loc m] fixed_ok_def)
qed

lemma resolve_node_fixed:
  assumes rec: "\<forall>c \<in> set (children (ast_node root)). keeps_fixed rec c"
    and r: "resolve_node vs ml rec root s = Inr (root', s')" and fixed: "fixed_tree root"
  shows "fixed_tree root'"
proof -
  note inner = keeps_fixed_visitInner [OF rec _ fixed]
  have other: "fixed_tree root'" if "resolve_other vs ml rec root s1 = Inr (root', s')" for s1
  proof (cases "ast_node root")
    case (For v i e b)
    with that obtain e' s2 b' s3 s4 where *: "rec e s1 = Inr (e', s2)" "rec b s3 = Inr (b', s4)"
      "root' = Node (astType root) (astLocation root) (For v i e' b')"
      by (auto simp: resolve_other_def resolve_For_def bindR_eq_Inr)
    from rec For have keeps: "keeps_fixed rec e" "keeps_fixed rec b" by auto
    from fixed For have "fixed_tree e" "fixed_tree b" by (auto simp: fixed_tree_node [of root])
    with keeps_fixedD [OF keeps(1) *(1)] keeps_fixedD [OF keeps(2) *(2)]
    have "fixed_tree e'" "fixed_tree b'" by blast+
    with fixed For *(3) show ?thesis
      by (simp add: fixed_tree_Node fixed_tree_node [of root] fixed_ok_def)
  next
    case (Ident nm tas tgs res)
    with that obtain t where "root' = Node (astType root) (astLocation root) (Ident nm tas t res)"
      by (auto simp: resolve_other_def resolve_Ident_def bindR_eq_Inr)
    then show ?thesis by (simp add: fixed_tree_Node)
  qed (use that fixed in \<open>auto simp: resolve_other_def resolve_Block_def resolve_Module_def resolve_VarDecl_def
      bindR_eq_Inr intro: inner\<close>)
  show ?thesis
  proof (cases "ast_node root")
    case (FnDecl v tas as att b p m)
    with r obtain root1 s1 s2 where *: "(case b of None \<Rightarrow> Inr (root, s1) | Some body \<Rightarrow> resolve_body vs rec v as body root s1)
        = Inr (root1, s2)" "root' = set_parent (case rs_functions s of [] \<Rightarrow> None | f # _ \<Rightarrow> Some f) (rs_module s) root1"
      by (auto simp: resolve_node_def resolve_FnDecl_def bindR_eq_Inr)
    from *(1) fixed have "fixed_tree root1"
      by (cases b) (auto simp: resolve_body_def bindR_eq_Inr intro: inner)
    with *(2) show ?thesis by (simp add: fixed_set_parent)
  next
    case (TyDecl nm a d)
    with r show ?thesis by (auto simp: resolve_node_def resolve_TyDecl_def bindR_eq_Inr intro: inner)
  qed (use r other in \<open>auto simp: resolve_node_def bindR_eq_Inr\<close>)
qed

lemma resolveNamesNode_fixed: "keeps_fixed (resolveNamesNode vs ml) root"
proof (induction root rule: nodes_of.induct)
  case (1 root)
  show ?case unfolding keeps_fixed_def
    by (subst resolveNamesNode.simps) (use resolve_node_fixed 1 in blast)
qed

lemma struct_exprs_types:
  "List.map_filter sf_expr (map (\<lambda>c. StructField (sf_name c) (sf_location c) (f (sf_type c)) (sf_expr c)) fs) =
   List.map_filter sf_expr fs"
  by (induction fs) (simp_all add: map_filter_simps split: option.split)

text \<open>Writes into instance nodes do not touch the fixed types.\<close>

lemma map_ast_types_fixed:
  assumes "\<And>t. t \<in> {TyVoid, TyBool, TyInteger, TyFloat, TyString} \<Longrightarrow> f t = t"
  shows "fixed_tree a \<Longrightarrow> fixed_tree (map_ast_types f a)"
proof (induction a rule: nodes_of.induct)
  case (1 a)
  obtain t loc n where a: "a = Node t loc n" by (cases a)
  have kind: "fixed_type (map_node_types f (map_node (map_ast_types f) n)) = fixed_type n"
    by (cases n) simp_all
  have children: "children (map_node_types f m) = children m" for m :: "ast node"
    by (cases m) (simp_all add: struct_exprs_types)
  have "u \<in> {TyVoid, TyBool, TyInteger, TyFloat, TyString}" if "fixed_type n = Some u" for u
    using that by (cases n) auto
  with "1.prems" assms have "fixed_ok (map_ast_types f a)"
    by (auto simp: a fixed_tree_Node fixed_ok_def kind)
  moreover have "\<forall>c \<in> set (children (ast_node (map_ast_types f a))). fixed_tree c"
    using 1 by (auto simp: a children children_map_node fixed_tree_Node)
  ultimately show ?case by (simp add: fixed_tree_node [of "map_ast_types f a"])
qed

lemma resolveNames_fixed:
  "resolveNames out vs root ml = Inr (root', vs', out') \<Longrightarrow> fixed_tree root \<Longrightarrow> fixed_tree root'"
  using keeps_fixedD [OF resolveNamesNode_fixed]
  by (auto simp: resolveNames_def bindR_eq_Inr intro!: map_ast_types_fixed)

section \<open>Passes that change nodes in place\<close>

definition same_kind :: "ast \<Rightarrow> ast \<Rightarrow> bool" where
  "same_kind a b =
     (length (children (ast_node b)) = length (children (ast_node a)) \<and>
      fixed_type (ast_node b) = fixed_type (ast_node a) \<and>
      (fixed_type (ast_node a) \<noteq> None \<longrightarrow> astType b = astType a))"

lemma updateAst_fixed:
  assumes "\<And>a s a' s'. f a s = Inr (a', s') \<Longrightarrow> same_kind a a'"
  shows "keeps_fixed (updateAst f) root"
proof (induction root rule: nodes_of.induct)
  case (1 root)
  show ?case unfolding keeps_fixed_def
  proof (intro allI impI)
    fix s root' s'
    assume r: "updateAst f root s = Inr (root', s')" and fixed: "fixed_tree root"
    from r obtain root1 s1 cs where *: "f root s = Inr (root1, s1)"
      "mapS (updateAst f) (children (ast_node root)) s1 = Inr (cs, s')"
      "\<exists>loc. root' = Node (astType root1) loc (rebuild (ast_node root1) cs)"
      by (subst (asm) updateAst.simps) (auto simp: bindR_eq_Inr)
    have "\<forall>c \<in> set cs. fixed_tree c"
      by (rule keeps_fixed_mapS [OF _ *(2)]) (use 1 fixed in \<open>auto simp: fixed_tree_node [of root]\<close>)
    with assms [OF *(1)] *(3) fixed mapS_length [OF *(2)] show "fixed_tree root'"
      by (auto simp: same_kind_def fixed_tree_node [of root] intro!: fixed_rebuild)
  qed
qed

lemma instantiateIdent_Ident:
  "instantiateIdent pr nm tas tgs a s = Inr (a', s') \<Longrightarrow> \<exists>t tas' res. a' = with_type t a (Ident nm tas' tgs res)"
  by (auto simp: instantiateIdent_def bindT_def unitT_def bindR_eq_Inr split: if_splits)

lemma instantiateNode_same_kind:
  assumes "instantiateNode pr a s = Inr (a', s')"
  shows "same_kind a a'"
proof -
  have "a' = a \<or> (\<exists>nm tas tgs res. ast_node a = Ident nm tas tgs res \<and> (\<exists>t tas' res'. a' = with_type t a (Ident nm tas' tgs res')))"
    using assms unfolding instantiateNode_def
    by (cases "ast_node a") (auto simp: bindR_eq_Inr dest: instantiateIdent_Ident split: if_splits)
  then show ?thesis by (auto simp: same_kind_def)
qed

lemma propagate_same_kind: "propagate k a s = Inr (a', s') \<Longrightarrow> same_kind a a'"
  by (cases "ast_node a")
    (auto simp: propagate_def rewrite_node_type_def bindT_def unitT_def bindR_eq_Inr same_kind_def
      split: prod.splits)

section \<open>Members\<close>

lemma resolveMembersNode_cases:
  "resolveMembersNode defs root s = Inr (n, s') \<Longrightarrow>
   n = ast_node root \<or> (\<exists>e f f'. ast_node root = Member e f \<and> n = Member e f') \<or>
   (\<exists>nm fs refs. ast_node root = LiteralStruct nm fs \<and> length refs = length fs \<and> n = LiteralStruct nm (zip refs (map snd fs)))"
  unfolding resolveMembersNode_def
  by (cases "ast_node root") (auto simp: bindR_eq_Inr dest!: mapS_length split: option.splits if_splits)

lemma resolveMembersNode_kind:
  "resolveMembersNode defs root s = Inr (n, s') \<Longrightarrow>
   length (children n) = length (children (ast_node root)) \<and> fixed_type n = fixed_type (ast_node root)"
  by (drule resolveMembersNode_cases) (elim disjE exE conjE; simp)

lemma resolveMembersRec_fixed: "keeps_fixed (resolveMembersRec defs) root"
proof (induction root rule: nodes_of.induct)
  case (1 root)
  show ?case unfolding keeps_fixed_def
  proof (intro allI impI)
    fix s root' s'
    assume r: "resolveMembersRec defs root s = Inr (root', s')" and fixed: "fixed_tree root"
    from r obtain n s1 cs where *: "resolveMembersNode defs root s = Inr (n, s1)"
      "mapS (resolveMembersRec defs) (children (ast_node root)) s1 = Inr (cs, s')"
      "root' = Node (astType root) (astLocation root) (rebuild n cs)"
      by (subst (asm) resolveMembersRec.simps) (auto simp: bindR_eq_Inr)
    have "\<forall>c \<in> set cs. fixed_tree c"
      by (rule keeps_fixed_mapS [OF _ *(2)]) (use 1 fixed in \<open>auto simp: fixed_tree_node [of root]\<close>)
    with resolveMembersNode_kind [OF *(1)] *(3) fixed mapS_length [OF *(2)] show "fixed_tree root'"
      by (auto simp: fixed_tree_node [of root] intro!: fixed_rebuild)
  qed
qed

lemma resolveMembers_fixed:
  "resolveMembers defs out root = Inr (n, root', out') \<Longrightarrow> fixed_tree root \<Longrightarrow> fixed_tree root'"
  using keeps_fixedD [OF resolveMembersRec_fixed] by (auto simp: resolveMembers_def bindR_eq_Inr)

section \<open>The type checker\<close>

text \<open>The frame that says nothing of the states: only what is returned counts.\<close>

interpretation any: tc_frame "\<lambda>_. True" "\<lambda>_ _. True" "\<lambda>_. True"
  by unfold_locales simp_all

abbreviation returns :: "'a tcm \<Rightarrow> ('a \<Rightarrow> bool) \<Rightarrow> bool" where
  "returns \<equiv> checks (\<lambda>_. True) (\<lambda>_ _. True) (\<lambda>_. True)"

lemma returns_skip: "(\<And>x. returns (f x) Q) \<Longrightarrow> returns (bindT m f) Q"
  by (rule any.bind [where P = "\<lambda>_. True"]) (auto simp: checks_def)

lemma returns_rec:
  "\<forall>c \<in> set cs. returns (rec c) fixed_tree \<Longrightarrow> c \<in> set cs \<Longrightarrow>
   (\<And>c'. returns (f c') (\<lambda>y. fixed_tree c' \<longrightarrow> Q y)) \<Longrightarrow> returns (bindT (rec c) f) Q"
  by (rule any.bind) auto

lemma returns_one:
  "returns m fixed_tree \<Longrightarrow> (\<And>c'. returns (f c') (\<lambda>y. fixed_tree c' \<longrightarrow> Q y)) \<Longrightarrow> returns (bindT m f) Q"
  by (rule any.bind)

lemma returns_mapS:
  "\<forall>c \<in> set cs. returns (rec c) fixed_tree \<Longrightarrow>
   (\<And>cs'. returns (f cs') (\<lambda>y. (\<forall>c \<in> set cs'. fixed_tree c) \<longrightarrow> Q y)) \<Longrightarrow> returns (bindT (mapS rec cs) f) Q"
  by (rule any.bind [where P = "\<lambda>cs'. \<forall>c \<in> set cs'. fixed_tree c"],
      rule checks_weaken [OF any.mapS [where P = "\<lambda>_. fixed_tree"]])
    (auto simp: list_all2_conv_all_nth in_set_conv_nth)

lemma returns_fixed:
  "fixed_type n = None \<Longrightarrow> \<forall>c \<in> set (children n). fixed_tree c \<Longrightarrow> fixed_tree (with_type t root n)"
  by (simp add: with_type_def fixed_tree_Node)

lemma returns_default:
  "fixed_ok root \<Longrightarrow> fixed_type (ast_node root) = Some t \<Longrightarrow> fixed_type n = Some t \<Longrightarrow>
   \<forall>c \<in> set (children n). fixed_tree c \<Longrightarrow> fixed_tree (with_type (Some (default_type t root)) root n)"
  by (simp add: with_type_def fixed_tree_Node fixed_default)

lemma returns_type_fields:
  "\<forall>c \<in> set fs. returns (rec c) fixed_tree \<Longrightarrow>
   returns (type_fields rec fs ts) (\<lambda>fs'. \<forall>c \<in> set fs'. fixed_tree c)"
proof (induction fs arbitrary: ts)
  case (Cons f fs)
  then have IH: "returns (type_fields rec fs (tl ts)) (\<lambda>fs'. \<forall>c \<in> set fs'. fixed_tree c)" by simp
  show ?case unfolding type_fields.simps
    by (rule returns_rec [OF Cons.prems], simp, rule returns_skip, rule any.bind [OF IH], rule any.unit) simp
qed (simp add: any.unit)

lemma returns_type_and_equal:
  "\<forall>c \<in> set cs. returns (rec c) fixed_tree \<Longrightarrow> e \<in> set cs \<Longrightarrow> returns (type_and_equal rec t e) fixed_tree"
  unfolding type_and_equal_def by (rule returns_rec, assumption+, rule returns_skip, rule any.unit) simp

lemma typeLiteralTuple_fixed:
  assumes rec: "\<forall>c \<in> set (fs). returns (rec c) fixed_tree"
  shows "returns (typeLiteralTuple rec fs root) fixed_tree"
proof -
  from rec have "returns (type_fields rec fs ts) (\<lambda>fs'. \<forall>c \<in> set fs'. fixed_tree c)" for ts
    by (simp add: returns_type_fields)
  note fields = any.bind [OF this]
  have "returns (case t of
         TyTuple ts \<Rightarrow>
           bindT (type_fields rec fs ts) (\<lambda>fs'. unitT (with_type (Some t) root (LiteralTuple fs')))
       | _ \<Rightarrow> failT AssertFail) fixed_tree" for t
    by (cases t) (simp_all, rule fields, rule any.unit, simp add: returns_fixed)
  then show ?thesis by (simp add: typeLiteralTuple_def) (rule returns_skip)
qed

lemma typeLiteralArray_fixed:
  assumes rec: "\<forall>c \<in> set (es). returns (rec c) fixed_tree"
  shows "returns (typeLiteralArray rec es root) fixed_tree"
proof -
  from rec have "returns (mapS (type_and_equal rec t) es) (\<lambda>es'. \<forall>c \<in> set es'. fixed_tree c)" for t
    by (intro checks_weaken [OF any.mapS [where P = "\<lambda>_. fixed_tree"]] returns_type_and_equal [of es])
      (auto simp: list_all2_conv_all_nth in_set_conv_nth)
  note elements = any.bind [OF this]
  have "returns (case t of
         TyArray elt \<Rightarrow>
           bindT (mapS (type_and_equal rec elt) es) (\<lambda>es'. unitT (with_type (Some t) root (LiteralArray es')))
       | _ \<Rightarrow> failT AssertFail) fixed_tree" for t
    by (cases t) (simp_all, rule elements, rule any.unit, simp add: returns_fixed)
  then show ?thesis by (simp add: typeLiteralArray_def) (rule returns_skip)
qed

lemma typeLiteralStruct_fixed:
  assumes rec: "\<forall>c \<in> set (map snd fs). returns (rec c) fixed_tree"
  shows "returns (typeLiteralStruct pr rec nm fs root) fixed_tree"
proof -
  from rec have rec': "\<forall>c \<in> set (map snd fs). returns (rec c) fixed_tree" by simp
  have "returns (mapS (type_init pr rec t) fs) (\<lambda>fs'. \<forall>fe \<in> set fs'. fixed_tree (snd fe))" for t
  proof (rule checks_weaken [OF any.mapS [where P = "\<lambda>_ fe. fixed_tree (snd fe)"]])
    show "returns (type_init pr rec t fe) (\<lambda>fe'. fixed_tree (snd fe'))" if "fe \<in> set fs" for fe
      unfolding type_init_def
      by (rule returns_rec [OF rec'], use that in simp, rule returns_skip, rule any.unit) simp
  qed (auto simp: list_all2_conv_all_nth in_set_conv_nth, metis snd_conv)
  note inits = any.bind [OF this]
  show ?thesis
    by (simp only: typeLiteralStruct_def, rule returns_skip, rule inits,
      rule returns_skip, rule returns_skip, rule any.unit) (simp add: returns_fixed)
qed

lemma typeTyDecl_fixed:
  assumes rec: "\<forall>c \<in> set (List.map_filter sf_expr (sd_fields d)). returns (rec c) fixed_tree"
    and fixed: "fixed_ok root" "ast_node root = TyDecl nm a d"
  shows "returns (typeTyDecl rec nm a d root) fixed_tree"
proof -
  from rec have rec': "\<forall>c \<in> set (List.map_filter sf_expr (sd_fields d)). returns (rec c) fixed_tree" by simp
  have "returns (mapS (type_field rec) (sd_fields d)) (\<lambda>fs. \<forall>f \<in> set fs. \<forall>e. sf_expr f = Some e \<longrightarrow> fixed_tree e)"
  proof (rule checks_weaken [OF any.mapS [where P = "\<lambda>_ f. \<forall>e. sf_expr f = Some e \<longrightarrow> fixed_tree e"]])
    show "returns (type_field rec f) (\<lambda>f'. \<forall>e. sf_expr f' = Some e \<longrightarrow> fixed_tree e)" if "f \<in> set (sd_fields d)" for f
    proof (cases "sf_expr f")
      case (Some e)
      with that have "e \<in> set (List.map_filter sf_expr (sd_fields d))" by (force simp: List.map_filter_def)
      with Some show ?thesis
        by (simp add: type_field_def)
          (rule any.bind [OF returns_type_and_equal [OF rec']], assumption, rule any.unit, simp)
    qed (simp add: type_field_def any.unit)
  qed (auto simp: list_all2_conv_all_nth in_set_conv_nth)
  note fields = any.bind [OF this]
  show ?thesis
    by (simp only: typeTyDecl_def, rule fields, rule any.unit)
      (auto intro!: returns_default simp: fixed struct_exprs_set elim!: struct_field.set_cases)
qed

lemma typeCall_fixed:
  assumes rec: "\<forall>c \<in> set (e # args). returns (rec c) fixed_tree"
  shows "returns (typeCall rec e args root) fixed_tree"
proof -
  from rec have r: "returns (rec e) fixed_tree" "\<forall>c \<in> set args. returns (rec c) fixed_tree" by simp_all
  have "returns (reduce_targets e1 args') (\<lambda>e'. fixed_tree e1 \<longrightarrow> fixed_tree e')" for e1 args'
    by (rule checksI)
      (auto simp: reduce_targets_def bindR_eq_Inr fixed_tree_Node with_type_def split: node.splits option.splits if_splits)
  note targets = any.bind [OF this]
  show ?thesis
    by (simp only: typeCall_def, rule returns_one [OF r(1)], rule returns_mapS [OF r(2)],
      rule targets, rule returns_skip, rule any.unit) (auto simp: returns_fixed)
qed

lemma typeIf_fixed:
  assumes rec: "\<forall>c \<in> set (c # t # (case e of Some b \<Rightarrow> [b] | None \<Rightarrow> [])). returns (rec c) fixed_tree"
  shows "returns (typeIf rec c t e root) fixed_tree"
proof -
  from rec have r: "returns (rec c) fixed_tree" "returns (rec t) fixed_tree" "\<And>b. e = Some b \<Longrightarrow> returns (rec b) fixed_tree"
    by simp_all
  have "returns (case e of
         Some b \<Rightarrow>
           bindT (rec b) (\<lambda>b'.
           bindT (node_type t') (\<lambda>tt.
           bindT (typeMustEqual b' tt) (\<lambda>_. unitT (Some b'))))
       | None \<Rightarrow> bindT (typeMustEqual t' TyVoid) (\<lambda>_. unitT None)) (\<lambda>e'. \<forall>b \<in> set_option e'. fixed_tree b)" for t'
    by (cases e)
      (simp_all only: option.case, rule returns_skip, rule any.unit, simp, rule returns_one [OF r(3)], assumption,
        (rule returns_skip)+, rule any.unit, simp)
  note branch = any.bind [OF this]
  show ?thesis
    by (simp only: typeIf_def, rule returns_one [OF r(1)], rule returns_skip,
      rule returns_one [OF r(2)], rule branch, rule any.unit) (auto simp: returns_fixed split: option.splits)
qed

lemma typeFnDecl_fixed:
  assumes rec: "\<forall>c \<in> set (case b of Some e \<Rightarrow> [e] | None \<Rightarrow> []). returns (rec c) fixed_tree"
    and fixed: "fixed_ok root" "ast_node root = FnDecl v tas as att b p m"
  shows "returns (typeFnDecl rec v tas as att b p m root) fixed_tree"
proof -
  from rec have r: "\<And>e. b = Some e \<Longrightarrow> returns (rec e) fixed_tree" by simp
  have ret: "returns (case v_type var of
               TyFunction params ret varargs \<Rightarrow>
                 bindT (if ret = TyVoid then unitT () else typeMustEqual e' ret) (\<lambda>_. unitT (Some e'))
             | _ \<Rightarrow> failT (ICE ''FnDecl type is not Function'')) (\<lambda>x. x = Some e')" for var e'
    by (cases "v_type var") (simp_all, intro conjI impI, auto intro: any.unit returns_skip)
  have "returns (case b of
         Some e \<Rightarrow>
           bindT (rec e) (\<lambda>e'.
           bindT (var_at v) (\<lambda>var.
             case v_type var of
               TyFunction params ret varargs \<Rightarrow>
                 bindT (if ret = TyVoid then unitT () else typeMustEqual e' ret) (\<lambda>_. unitT (Some e'))
             | _ \<Rightarrow> failT (ICE ''FnDecl type is not Function'')))
       | None \<Rightarrow>
           bindT verifying (\<lambda>ver.
           bindT (var_at v) (\<lambda>var.
           bindT (whenT ver (typeMustKnow (v_type var) (v_location var))) (\<lambda>_. unitT None))))
      (\<lambda>b'. \<forall>e \<in> set_option b'. fixed_tree e)"
  proof (cases b)
    case (Some e)
    show ?thesis
      by (simp only: Some option.case, rule returns_one [OF r [OF Some]], rule returns_skip,
        rule checks_weaken [OF ret]) auto
  next
    case None
    show ?thesis by (simp only: None option.case, (rule returns_skip)+, rule any.unit) simp
  qed
  note body = any.bind [OF this]
  show ?thesis
    by (simp only: typeFnDecl_def, rule body, rule any.unit)
      (auto intro!: returns_default simp: fixed split: option.splits)
qed

lemma typeBinary_fixed:
  assumes rec: "\<forall>c \<in> set ([l, r]). returns (rec c) fixed_tree"
  shows "returns (typeBinary rec op l r root) fixed_tree"
proof -
  from rec have r: "returns (rec l) fixed_tree" "returns (rec r) fixed_tree" by simp_all
  show ?thesis
    by (cases "op = BinaryOpAnd \<or> op = BinaryOpOr")
      (simp_all only: typeBinary_def if_True if_False not_False_eq_True,
        (rule returns_one [OF r(1)], rule returns_one [OF r(2)], (rule returns_skip)+, rule any.unit, simp add: returns_fixed),
        (rule returns_one [OF r(1)], rule returns_one [OF r(2)], simp))
qed

lemma typeFn_fixed:
  assumes rec: "\<forall>c \<in> set ([d]). returns (rec c) fixed_tree"
  shows "returns (typeFn rec i d root) fixed_tree"
proof -
  from rec have r: "returns (rec d) fixed_tree" by simp
  have "returns (case ast_node d' of
         FnDecl v tas as att b p m \<Rightarrow>
           bindT (var_at v) (\<lambda>var. unitT (with_type (Some (v_type var)) root (Fn i d')))
       | _ \<Rightarrow> failT AssertFail) (\<lambda>y. fixed_tree d' \<longrightarrow> fixed_tree y)" for d'
    by (cases "ast_node d'") (simp_all, rule returns_skip, rule any.unit, simp add: returns_fixed)
  then show ?thesis by (simp only: typeFn_def, intro returns_one [OF r])
qed

lemma type_node_fixed:
  assumes rec: "\<forall>c \<in> set (children (ast_node root)). returns (rec c) fixed_tree" and fixed: "fixed_ok root"
  shows "returns (type_node pr rec root) fixed_tree"
proof (cases "ast_node root")
  case (Block body)
  with rec have r: "\<forall>c \<in> set body. returns (rec c) fixed_tree" by simp
  show ?thesis
    by (simp only: Block type_node_def node.case typeBlock_def, rule returns_mapS [OF r], rule any.unit)
      (simp add: returns_fixed)
next
  case (Ident nm tas tgs res)
  show ?thesis
    by (simp only: Ident type_node_def node.case typeIdent_def, (rule returns_skip)+, rule any.unit)
      (simp add: returns_fixed)
next
  case (Member e f)
  with rec have r: "returns (rec e) fixed_tree" by simp
  show ?thesis
    by (simp only: Member type_node_def node.case typeMember_node_def, rule returns_one [OF r], (rule returns_skip)+,
      rule any.unit) (simp add: returns_fixed)
next
  case (Module nm b ai)
  with rec have r: "returns (rec b) fixed_tree" by simp
  show ?thesis
    by (simp only: Module type_node_def node.case typeModule_def, rule returns_one [OF r], rule any.unit)
      (simp add: returns_fixed)
next
  case (Unary op e)
  with rec have r: "returns (rec e) fixed_tree" by simp
  show ?thesis
    by (simp only: Unary type_node_def node.case typeUnary_def, rule returns_one [OF r], rule returns_skip,
      rule any.unit) (simp add: returns_fixed)
next
  case (Index e i)
  with rec have r: "returns (rec e) fixed_tree" "returns (rec i) fixed_tree" by simp_all
  show ?thesis
    by (simp only: Index type_node_def node.case typeIndex_def, rule returns_one [OF r(1)], rule returns_one [OF r(2)],
      (rule returns_skip)+, rule any.unit) (simp add: returns_fixed)
next
  case (Assign l r)
  with rec have r: "returns (rec l) fixed_tree" "returns (rec r) fixed_tree" by simp_all
  show ?thesis
    by (simp only: Assign type_node_def node.case typeAssign_def, rule returns_one [OF r(1)], rule returns_one [OF r(2)],
      (rule returns_skip)+, rule any.unit) (simp add: returns_default fixed Assign)
next
  case (For v i e b)
  with rec have r: "returns (rec e) fixed_tree" "returns (rec b) fixed_tree" by simp_all
  show ?thesis
    by (simp only: For type_node_def node.case typeFor_def, rule returns_one [OF r(1)], rule returns_one [OF r(2)],
      (rule returns_skip)+, rule any.unit) (simp add: returns_default fixed For)
next
  case (While e b)
  with rec have r: "returns (rec e) fixed_tree" "returns (rec b) fixed_tree" by simp_all
  show ?thesis
    by (simp only: While type_node_def node.case typeWhile_def, rule returns_one [OF r(1)], rule returns_one [OF r(2)],
      (rule returns_skip)+, rule any.unit) (simp add: returns_default fixed While)
next
  case (VarDecl v e)
  with rec have r: "returns (rec e) fixed_tree" by simp
  show ?thesis
    by (simp only: VarDecl type_node_def node.case typeVarDecl_def, rule returns_one [OF r],
      (rule returns_skip)+, rule any.unit) (simp add: returns_default fixed VarDecl)
next
  case (LLVM code)
  show ?thesis
    by (simp only: LLVM type_node_def node.case, rule returns_skip, rule any.unit) (simp add: returns_fixed)
qed (use rec in \<open>simp_all add: type_node_def typeLiteral_def any.unit returns_default fixed fixed_tree_node [of root]
    typeLiteralTuple_fixed typeLiteralArray_fixed typeLiteralStruct_fixed typeTyDecl_fixed typeCall_fixed typeIf_fixed typeFnDecl_fixed typeBinary_fixed typeFn_fixed\<close>)

lemma type_ast_fixed: "fixed_tree root \<Longrightarrow> returns (type_ast pr root) fixed_tree"
proof (induction root rule: nodes_of.induct)
  case (1 root)
  have eq: "type_ast pr root = type_node pr (type_ast pr) root"
    by (rule ext) (rule type_ast.simps)
  from "1.prems" have "fixed_ok root" "\<forall>c \<in> set (children (ast_node root)). fixed_tree c"
    by (simp_all add: fixed_tree_node [of root])
  with "1.IH" show ?case unfolding eq by (intro type_node_fixed) auto
qed

lemma write_tyargs_fixed: "t \<in> {TyVoid, TyBool, TyInteger, TyFloat, TyString} \<Longrightarrow> write_tyargs w t = t"
  by auto

lemma typeckPropagate_fixed:
  assumes "typeckPropagate k pr out vs nxt root = Inr (n, root', s')" "fixed_tree root"
  shows "fixed_tree root'"
proof -
  define s0 where "s0 = \<lparr>tc_output = out, tc_vars = vs, tc_next = nxt, tc_con = Some constraints0, tc_written = (\<lambda>_. None)\<rparr>"
  from assms(1) obtain root1 s1 root2 s2 where *: "type_ast pr root s0 = Inr (root1, s1)"
    "updateAst (instantiateNode pr) root1 s1 = Inr (root2, s2)"
    "\<exists>s s'. root' = map_ast_types (write_tyargs (tc_written s2)) root2 \<or>
       updateAst (propagate k) (map_ast_types (write_tyargs (tc_written s2)) root2) s = Inr (root', s')"
    unfolding typeckPropagate_def s0_def [symmetric] bindT_def write_through_def liftT_def unitT_def
    by (auto simp: bindR_eq_Inr split: if_splits) blast+
  from type_ast_fixed [OF assms(2), of pr] *(1) have "fixed_tree root1" by (auto simp: checks_def)
  with keeps_fixedD [OF updateAst_fixed [OF instantiateNode_same_kind] *(2)] have "fixed_tree root2" by simp
  then have "fixed_tree (map_ast_types (write_tyargs (tc_written s2)) root2)"
    by (intro map_ast_types_fixed write_tyargs_fixed)
  moreover have "keeps_fixed (updateAst (propagate k)) a" for a
    by (rule updateAst_fixed [OF propagate_same_kind])
  ultimately show ?thesis using *(3) by (auto dest: keeps_fixedD)
qed

end
