(* ===== verification/ParseLiterals.thy ===== *)
theory ParseLiterals
  imports ParseExpr LiteralTypes
begin

text \<open>
  The parser makes no typed literal or statement: the trees it returns meet what the passes of
  \<open>LiteralTypes\<close> need.
\<close>

definition gives :: "'a parser \<Rightarrow> ('a \<Rightarrow> bool) \<Rightarrow> bool" where
  "gives m Q = (\<forall>s x s'. m s = Inr (x, s') \<longrightarrow> Q x)"

lemma gives_bind: "gives m P \<Longrightarrow> (\<And>x. P x \<Longrightarrow> gives (f x) Q) \<Longrightarrow> gives (bindP m f) Q"
  by (fastforce simp: gives_def bindP_def bindR_eq_Inr)

lemma gives_skip: "(\<And>x. gives (f x) Q) \<Longrightarrow> gives (bindP m f) Q"
  by (rule gives_bind [where P = "\<lambda>_. True"]) (auto simp: gives_def)

lemma gives_unit: "Q x \<Longrightarrow> gives (unitP x) Q"
  by (simp add: gives_def unitP_def)

lemma gives_ifP: "gives m Q \<Longrightarrow> gives n Q \<Longrightarrow> gives (ifP b m n) Q"
  by (auto simp: gives_def ifP_def)

lemma gives_if: "(b \<Longrightarrow> gives m Q) \<Longrightarrow> (\<not> b \<Longrightarrow> gives n Q) \<Longrightarrow> gives (if b then m else n) Q"
  by simp

lemma gives_prod: "(\<And>a b. gives (f a b) Q) \<Longrightarrow> gives (case x of (a, b) \<Rightarrow> f a b) Q"
  by (cases x) simp

lemma gives_fail: "gives (\<lambda>s. Inl e) Q" "gives (ts_panic msg) Q"
  by (simp_all add: gives_def ts_panic_def)

lemma gives_weaken: "gives m P \<Longrightarrow> (\<And>x. P x \<Longrightarrow> Q x) \<Longrightarrow> gives m Q"
  by (auto simp: gives_def)

lemmas gives_rules = gives_ifP gives_prod gives_fail gives_if

abbreviation gives_tree :: "ast parser \<Rightarrow> bool" where
  "gives_tree m \<equiv> gives m fixed_tree"

section \<open>Loops\<close>

lemma gives_comma_loop:
  "gives item (\<lambda>r. \<forall>x \<in> set_option r. P x) \<Longrightarrow> gives (comma_loop k close item) (\<lambda>r. \<forall>x \<in> set (fst r). P x)"
proof (induction k)
  case (Suc k)
  note IH = gives_bind [OF Suc.IH [OF Suc.prems]]
  have "gives (case r of
           None \<Rightarrow> unitP ([], True)
         | Some x \<Rightarrow>
             bindP (ifP close (unitP ()) (ts_eatd TypeAtom '','')) (\<lambda>_.
             bindP (comma_loop k close item) (\<lambda>(xs, b). unitP (x # xs, b)))) (\<lambda>r. \<forall>x \<in> set (fst r). P x)"
    if "\<forall>x \<in> set_option r. P x" for r
    using that by (cases r) (auto intro!: gives_unit gives_skip [where m = "ifP close m n" for m n] IH)
  then show ?case by (auto intro!: gives_ifP gives_unit gives_bind [OF Suc.prems])
qed (simp add: gives_fail)

lemma gives_comma_list: "gives item P \<Longrightarrow> gives (comma_list k close item) (\<lambda>xs. \<forall>x \<in> set xs. P x)"
  unfolding comma_list_def
  by (rule gives_bind [OF gives_comma_loop [where P = P]])
    (auto intro!: gives_bind [where P = P] gives_unit)

lemma gives_parseIndent_loop:
  "gives f P \<Longrightarrow> gives (parseIndent_loop k nested i j f) (\<lambda>xs. \<forall>x \<in> set xs. P x)"
proof (induction k)
  case (Suc k)
  note IH = gives_bind [OF Suc.IH [OF Suc.prems]]
  show ?case
    by (auto intro!: gives_ifP gives_unit gives_bind [OF Suc.prems]
        gives_skip [where m = "parseIndent_newline a b c" for a b c] gives_if IH)
qed (simp add: gives_fail)

lemma gives_parseIndent: "gives f P \<Longrightarrow> gives (parseIndent k ind f) (\<lambda>xs. \<forall>x \<in> set xs. P x)"
  unfolding parseIndent_def
  by (rule gives_skip, rule gives_skip, rule gives_if) (simp_all add: gives_fail gives_parseIndent_loop)

section \<open>Declarations and statements\<close>

lemma gives_parseBlock:
  assumes "gives_tree pe"
  shows "gives_tree (parseBlock k pe ind)"
  unfolding parseBlock_def
  by (rule gives_bind [OF gives_parseIndent [OF assms]], rule gives_unit) (simp add: fixed_tree_Node)

lemma gives_parseBlockExpr:
  assumes "gives_tree pe"
  shows "gives_tree (parseBlockExpr k pe ind)"
  unfolding parseBlockExpr_def
  by (rule gives_ifP, rule gives_skip, rule gives_parseBlock [OF assms],
    rule gives_bind [OF assms], rule gives_skip, rule gives_unit)

lemma gives_parseFn:
  assumes "gives_tree pe"
  shows "gives_tree (parseFn k pe)"
  unfolding parseFn_def
  by (rule gives_skip, rule gives_skip, rule gives_skip, rule gives_prod,
    rule gives_bind [OF gives_parseBlockExpr [OF assms]], rule gives_skip, rule gives_skip, rule gives_unit)
    (simp add: fixed_tree_Node)

lemma gives_parseFnBody:
  assumes "gives_tree pe"
  shows "gives_tree (parseFnBody k pe ind)"
  unfolding parseFnBody_def
  by (rule gives_skip, rule gives_ifP, rule gives_skip, rule gives_skip, rule gives_unit)
    (simp_all add: fixed_tree_Node gives_parseBlock assms)

lemma gives_parseFnDecl:
  assumes "gives_tree pe"
  shows "gives_tree (parseFnDecl k pe)"
proof -
  have body: "gives (if b then unitP None
      else bindP (parseFnBody k pe ind) (\<lambda>b. unitP (Some b))) (\<lambda>r. \<forall>e \<in> set_option r. fixed_tree e)" for b ind
    by (rule gives_if, rule gives_unit, simp, rule gives_bind [OF gives_parseFnBody [OF assms]], rule gives_unit) simp
  show ?thesis unfolding parseFnDecl_def
    by ((rule gives_skip)+, rule gives_prod, rule gives_bind [OF body], rule gives_skip, rule gives_unit)
      (auto simp: fixed_tree_Node split: option.splits)
qed

lemma gives_parseVarDecl:
  assumes "gives_tree pe"
  shows "gives_tree (parseVarDecl k pe)"
  unfolding parseVarDecl_def
  by (rule gives_skip, rule gives_skip, rule gives_skip, rule gives_skip, rule gives_bind [OF assms],
    rule gives_skip, rule gives_unit) (simp add: fixed_tree_Node)

abbreviation fixed_fields :: "ast struct_field list \<Rightarrow> bool" where
  "fixed_fields fs \<equiv> \<forall>f \<in> set fs. \<forall>e. sf_expr f = Some e \<longrightarrow> fixed_tree e"

lemma gives_parse_struct_line:
  assumes "gives_tree pe"
  shows "gives (parse_struct_line k pe) fixed_fields"
proof -
  have default: "gives (ifP b (bindP ts_move (\<lambda>_. bindP pe (\<lambda>e. unitP (Some e)))) (unitP None))
      (\<lambda>r. \<forall>e. r = Some e \<longrightarrow> fixed_tree e)" for b
    by (rule gives_ifP, rule gives_skip, rule gives_bind [OF assms]) (auto intro: gives_unit)
  show ?thesis unfolding parse_struct_line_def
    by (rule gives_skip, rule gives_skip, rule gives_skip, rule gives_bind [OF default], rule gives_unit) auto
qed

lemma gives_parseStructDecl:
  assumes "gives_tree pe"
  shows "gives_tree (parseStructDecl k pe)"
  unfolding parseStructDecl_def
  by (rule gives_skip, rule gives_skip, rule gives_skip, rule gives_skip, rule gives_skip,
    rule gives_bind [OF gives_parseIndent [OF gives_parse_struct_line [OF assms]]], rule gives_skip, rule gives_unit)
    (force simp: fixed_tree_Node struct_exprs_set elim!: struct_field.set_cases)

lemma gives_parseImport: "gives_tree (parseImport k)"
  unfolding parseImport_def
  by ((rule gives_skip)+, rule gives_prod, rule gives_unit) (simp add: fixed_tree_Node)

lemma gives_parseIf:
  assumes "gives_tree pe"
  shows "gives_tree (parseIf k pe)"
proof -
  have branch: "gives (ifP b
       (bindP (indent_of start) (\<lambda>ifIndent.
        bindP indent_here (\<lambda>elseIndent.
          if ifIndent \<noteq> elseIndent then ts_panic (msg_indent ifIndent elseIndent)
          else
            bindP (ts_eat TypeIdent) (\<lambda>_.
            bindP (parseBlockExpr k pe (Some start)) (\<lambda>b. unitP (Some b))))))
       (unitP None)) (\<lambda>r. \<forall>e. r = Some e \<longrightarrow> fixed_tree e)" for b start
    by (rule gives_ifP, rule gives_skip, rule gives_skip, rule gives_if, rule gives_fail, rule gives_skip,
      rule gives_bind [OF gives_parseBlockExpr [OF assms]]) (auto intro: gives_unit)
  show ?thesis unfolding parseIf_def
    by (rule gives_skip, rule gives_skip, rule gives_bind [OF assms],
      rule gives_bind [OF gives_parseBlockExpr [OF assms]], rule gives_bind [OF branch], rule gives_unit)
      (auto simp: fixed_tree_Node split: option.splits)
qed

lemma gives_parseFor:
  assumes "gives_tree pe"
  shows "gives_tree (parseFor k pe)"
  unfolding parseFor_def
  by (rule gives_skip, rule gives_skip, rule gives_skip, rule gives_skip, rule gives_skip, rule gives_skip,
    rule gives_skip, rule gives_bind [OF assms], rule gives_bind [OF gives_parseBlockExpr [OF assms]], rule gives_unit)
    (simp add: fixed_tree_Node)

lemma gives_parseWhile:
  assumes "gives_tree pe"
  shows "gives_tree (parseWhile k pe)"
  unfolding parseWhile_def
  by (rule gives_skip, rule gives_skip, rule gives_bind [OF assms],
    rule gives_bind [OF gives_parseBlockExpr [OF assms]], rule gives_unit) (simp add: fixed_tree_Node)

section \<open>Terms\<close>

lemma gives_liftP_fixed: "(\<And>s x. f s = Inr x \<Longrightarrow> Q x) \<Longrightarrow> gives (liftP f) Q"
  by (auto simp: gives_def liftP_def bindR_eq_Inr)

lemma gives_parseNumber: "gives_tree parseNumber"
  unfolding parseNumber_def
  by (rule gives_skip, rule gives_liftP_fixed)
    (auto simp: parseNumber_value_def fixed_tree_Node Let_def split: if_splits prod.splits)

lemma gives_parseCall:
  assumes "gives_tree pe" "fixed_tree expr" "\<forall>x \<in> set_option self. fixed_tree x"
  shows "gives_tree (parseCall k pe expr start self)"
  unfolding parseCall_def
  by (rule gives_skip, rule gives_bind [OF gives_comma_list [OF assms(1)]], rule gives_skip, rule gives_skip,
    rule gives_skip, rule gives_unit) (use assms in \<open>auto simp: fixed_tree_Node split: option.splits\<close>)

lemma gives_parseIndex:
  assumes "gives_tree pe" "fixed_tree expr"
  shows "gives_tree (parseIndex pe expr)"
  unfolding parseIndex_def
  by (rule gives_skip, rule gives_skip, rule gives_bind [OF assms(1)], rule gives_skip, rule gives_unit)
    (simp add: fixed_tree_Node assms)

lemma gives_parseIdent: "gives_tree (parseIdent k)"
  unfolding parseIdent_def by ((rule gives_skip)+, rule gives_unit) (simp add: fixed_tree_Node)

lemma gives_parseMember:
  assumes "gives_tree pe" "fixed_tree expr"
  shows "gives_tree (parseMember k pe expr)"
  unfolding parseMember_def
  by (rule gives_skip, rule gives_skip, rule gives_ifP, rule gives_skip, rule gives_bind [OF gives_parseIdent],
    rule gives_parseCall, rule assms, assumption) (auto intro: gives_unit simp: fixed_tree_Node assms)

lemma gives_parseAssign:
  assumes "gives_tree pe" "fixed_tree expr"
  shows "gives_tree (parseAssign pe expr)"
  unfolding parseAssign_def
  by (rule gives_skip, rule gives_skip, rule gives_bind [OF assms(1)], rule gives_unit)
    (simp add: fixed_tree_Node assms)

lemma gives_parseLiteralArray:
  assumes "gives_tree pe"
  shows "gives_tree (parseLiteralArray k pe)"
  unfolding parseLiteralArray_def
  by (rule gives_skip, rule gives_skip, rule gives_bind [OF gives_comma_list [OF assms]], rule gives_skip,
    rule gives_unit) (simp add: fixed_tree_Node)

lemma gives_parse_struct_init:
  assumes "gives_tree pe"
  shows "gives (parse_struct_init pe) (\<lambda>fe. fixed_tree (snd fe))"
proof -
  have "gives_tree (ifP b (bindP ts_move (\<lambda>_. pe)) (unitP (Node None loc (Ident nm [] [] False))))" for b loc nm
    by (rule gives_ifP, rule gives_skip, rule assms, rule gives_unit) (simp add: fixed_tree_Node)
  note init = gives_bind [OF this]
  show ?thesis unfolding parse_struct_init_def by (rule gives_skip, rule init, rule gives_unit) simp
qed

lemma gives_parseLiteralStruct:
  assumes "gives_tree pe"
  shows "gives_tree (parseLiteralStruct k pe)"
  unfolding parseLiteralStruct_def
  by (rule gives_skip, rule gives_skip, rule gives_skip, rule gives_skip,
    rule gives_bind [OF gives_comma_list [OF gives_parse_struct_init [OF assms]]], rule gives_skip, rule gives_skip,
    rule gives_unit) (auto simp: fixed_tree_Node)

lemma gives_parse_paren_expr:
  assumes "gives_tree pe"
  shows "gives_tree (parse_paren_expr k pe)"
  unfolding parse_paren_expr_def
  by (rule gives_skip, rule gives_skip, rule gives_bind [OF gives_comma_list [OF assms]], rule gives_skip,
    rule gives_skip, intro gives_if gives_unit gives_skip [where m = "liftP f" for f]) (auto simp: fixed_tree_Node)

lemma gives_parse_bool: "gives_tree (parse_bool b)"
  unfolding parse_bool_def by (rule gives_skip, rule gives_unit) (simp add: fixed_tree_Node)

lemma gives_parseTerm:
  assumes "gives_tree pe"
  shows "gives_tree (parseTerm k pe)"
proof -
  have "gives_tree (bindP (ts_eat TypeString) (\<lambda>value.
          unitP (Node None (t_location value) (LiteralString (t_data value)))))"
    by (rule gives_skip, rule gives_unit) (simp add: fixed_tree_Node)
  moreover have "gives_tree (\<lambda>s. ts_panic (''Unexpected token '' @ tokenName (ts_get s 0)) s)"
    by (simp add: gives_def ts_panic_def)
  ultimately show ?thesis unfolding parseTerm_def
    by (intro gives_ifP gives_parse_bool gives_parseNumber gives_parseLiteralStruct [OF assms]
      gives_parseLiteralArray [OF assms] gives_parseIdent gives_parse_paren_expr [OF assms])
qed

section \<open>Expressions\<close>

lemma gives_parse_postfix:
  "gives_tree pe \<Longrightarrow> fixed_tree e \<Longrightarrow> gives_tree (parse_postfix k pe start e)"
proof (induction k arbitrary: e)
  case (Suc k)
  then show ?case unfolding parse_postfix.simps
    by (intro gives_ifP gives_bind [OF gives_parseCall] gives_bind [OF gives_parseIndex]
        gives_bind [OF gives_parseMember] gives_unit) auto
qed (simp add: gives_fail)

lemma gives_parse_term_expr:
  assumes "gives_tree pe"
  shows "gives_tree (parse_term_expr k pe)"
  unfolding parse_term_expr_def
  by (rule gives_skip, rule gives_bind [OF gives_parseTerm [OF assms]], rule gives_bind,
    erule gives_parse_postfix [OF assms], rule gives_ifP, erule gives_parseAssign [OF assms], erule gives_unit)

lemma gives_parse_statement:
  assumes "gives_tree pe"
  shows "gives_tree (parse_statement k pe)"
  unfolding parse_statement_def
  by (intro gives_ifP gives_parseFnDecl gives_parseFn gives_parseVarDecl gives_parseStructDecl gives_parseImport
      gives_parseIf gives_parseFor gives_parseWhile gives_parse_term_expr assms)

lemma fixed_lower:
  "fixed_tree e \<Longrightarrow> fixed_tree (lowerUnaryOp d e loc)"
  "fixed_tree l \<Longrightarrow> fixed_tree r \<Longrightarrow> fixed_tree (lowerBinaryOp d' l r loc)"
  by (auto simp: lowerUnaryOp_def lowerBinaryOp_def mk_ident_def fixed_tree_Node split: option.splits)

lemma gives_parsePrimary:
  assumes "gives_tree pe"
  shows "gives_tree (parsePrimary k pe)"
proof (induction k)
  case 0
  then show ?case
    using gives_parse_statement [OF assms, of 0] by (auto simp: gives_def parsePrimary.simps [of 0] Let_def)
next
  case (Suc k)
  have "gives_tree (bindP ts_here (\<lambda>start. bindP ts_move (\<lambda>_.
      bindP (parsePrimary k pe) (\<lambda>expr. unitP (lowerUnaryOp uop expr start)))))" for uop
    by (rule gives_skip, rule gives_skip, rule gives_bind [OF Suc.IH], rule gives_unit) (rule fixed_lower)
  then show ?case
    using gives_parse_statement [OF assms, of "Suc k"]
    by (auto simp: gives_def parsePrimary.simps [of "Suc k"] Let_def split: if_splits)
qed

lemma gives_parseExprClimb:
  assumes pp: "gives_tree pp"
  shows "fixed_tree l \<Longrightarrow> gives_tree (parseExprClimb k pp l lim)"
    and "fixed_tree r \<Longrightarrow> gives_tree (parseExprClimb_right k pp prio r)"
proof (induction k arbitrary: l lim r prio)
  case (Suc k)
  {
    case (1 l lim)
    have "gives_tree (bindP ts_here (\<lambda>start.
          bindP ts_move (\<lambda>_.
          bindP pp (\<lambda>right.
          bindP (parseExprClimb_right k pp (od_priority d) right) (\<lambda>right'.
            parseExprClimb k pp (lowerBinaryOp d l right' start) lim)))))" for d
      by (rule gives_skip, rule gives_skip, rule gives_bind [OF pp], rule gives_bind, erule Suc.IH(2),
        rule Suc.IH(1), rule fixed_lower(2) [OF 1])
    with 1 show ?case by (auto simp: gives_def Let_def unitP_def split: if_splits)
  next
    case (2 r prio)
    have "gives_tree (bindP (parseExprClimb k pp r p) (\<lambda>right'. parseExprClimb_right k pp prio right'))" for p
      using Suc.IH(1) [OF 2, of p] Suc.IH(2) [of _ prio] by (rule gives_bind)
    with 2 show ?case by (auto simp: gives_def Let_def unitP_def split: if_splits)
  }
qed (simp_all add: gives_fail)

lemma gives_parseExpr: "gives_tree (parseExpr k)"
proof (induction k)
  case 0
  show ?case by (simp add: gives_def)
next
  case (Suc k)
  have "gives_tree (bindP (parsePrimary k (parseExpr k)) (\<lambda>left.
       parseExprClimb (Suc k) (parsePrimary k (parseExpr k)) left 0))"
    by (rule gives_bind [OF gives_parsePrimary [OF Suc.IH]],
      rule gives_parseExprClimb(1) [OF gives_parsePrimary [OF Suc.IH]])
  then show ?case by (simp add: gives_def del: parseExprClimb.simps)
qed

lemma parse_at_fixed:
  assumes "parse_at k tk nm nxt vs = Inr (root, r)"
  shows "fixed_tree root"
proof -
  have tree: "gives_tree (bindP (parseBlock k (parseExpr k) None) (\<lambda>root.
      bindP (ts_expect TypeEnd) (\<lambda>_. unitP root)))"
    by (rule gives_bind [OF gives_parseBlock [OF gives_parseExpr]], rule gives_skip, rule gives_unit)
  from assms obtain root1 s where *: "parse_stream k tk nxt vs = Inr (root1, s)"
    "root = (case tk_tokens tk of [] \<Rightarrow> root1 | t # _ \<Rightarrow> Node None (t_location t) (Module nm root1 []))"
    by (auto simp: parse_at_def bindR_eq_Inr)
  with tree have "fixed_tree root1" unfolding parse_stream_def gives_def by blast
  with *(2) show ?thesis by (simp add: fixed_tree_Node split: list.splits)
qed

end
