(* ===== verification/DriverCorrect.thy ===== *)
theory DriverCorrect
  imports Driver ParseLiterals
begin

text \<open>
  The driver as a whole: code generation is only reached by well-typed modules, and the work list
  loads what the inputs need.
\<close>

section \<open>What reaches code generation\<close>

lemma infer_loop_fixed:
  "infer_loop n k others u = Inr (True, u') \<Longrightarrow> fixed_tree (u_root u) \<Longrightarrow>
   fixed_tree (u_root u') \<and> errors (u_output u') = 0"
proof (induction n arbitrary: u)
  case (Suc n)
  from Suc.prems(1) obtain changed root1 s where p:
    "typeckPropagate k (program_of (u_root u # others)) (u_output u) (u_vars u) (u_next u) (u_root u)
      = Inr (changed, root1, s)" "errors (tc_output s) = 0"
    by (auto simp: bindR_eq_Inr Let_def split: if_splits)
  with Suc.prems(1) obtain found root2 out2 where m:
    "resolveMembers (pr_defs (program_of (root1 # others))) (tc_output s) root1 = Inr (found, root2, out2)"
    "errors out2 = 0"
    "(if changed + found \<noteq> 0
      then infer_loop n k others \<lparr>u_root = root2, u_vars = tc_vars s, u_next = tc_next s, u_output = out2\<rparr>
      else Inr (True, \<lparr>u_root = root2, u_vars = tc_vars s, u_next = tc_next s, u_output = out2\<rparr>)) = Inr (True, u')"
    by (auto simp: bindR_eq_Inr Let_def split: if_splits)
  have "fixed_tree root2"
    using typeckPropagate_fixed [OF p(1) Suc.prems(2)] resolveMembers_fixed [OF m(1)] by blast
  with m(2,3) Suc.IH show ?case by (fastforce split: if_splits)
qed simp

text \<open>
  A module as code generation gets it: well typed over its variables, with no unknown type, where the
  struct definitions are those of some trees of the compilation.
\<close>

definition typed_entry :: "ast \<times> var_store \<Rightarrow> bool" where
  "typed_entry e = ((\<exists>trees. well_typed (program_of trees) (snd e) (fst e)) \<and>
     (\<forall>n \<in> set (nodes_of (fst e)). \<forall>t \<in> node_types (snd e) n. typeKnown t))"

lemma typeckVerify_fixed:
  "typeckVerify pr out vs nxt root = Inr (root', s') \<Longrightarrow> fixed_tree root \<Longrightarrow> fixed_tree root'"
  using type_ast_fixed [of root pr] by (auto simp: typeckVerify_def bindR_eq_Inr checks_def)

lemma compileModule_typed:
  assumes "compileModule n k codegen lookup others u md = Inr (Some e, u', md')" "fixed_tree (u_root u)"
  shows "typed_entry e \<and> fixed_tree (u_root u')"
proof -
  from assms(1) obtain root1 vs1 out1 u2 root3 s where
    r: "resolveNames (u_output u) (u_vars u) (u_root u) (Some lookup) = Inr (root1, vs1, out1)"
    and i: "infer_loop n k others (u\<lparr>u_root := root1, u_vars := vs1, u_output := out1\<rparr>) = Inr (True, u2)"
    and v: "typeckVerify (program_of (u_root u2 # others)) (u_output u2) (u_vars u2) (u_next u2) (u_root u2) = Inr (root3, s)"
      "errors (tc_output s) = 0"
    and e: "e = (root3, tc_vars s)" "u_root u' = root3"
    by (auto simp: compileModule_def bindR_eq_Inr Let_def split: if_splits)
  have "fixed_tree root1" by (rule resolveNames_fixed [OF r assms(2)])
  with infer_loop_fixed [OF i] have u2: "fixed_tree (u_root u2)" "errors (u_output u2) = 0" by auto
  have "tc_vars s = u_vars u2 \<and> well_typed (program_of (u_root u2 # others)) (u_vars u2) root3 \<and>
      (\<forall>n \<in> set (nodes_of root3). \<forall>t \<in> node_types (u_vars u2) n. typeKnown t)"
    by (rule typeckVerify_typed [OF v(1) u2(2) v(2)]) (use u2(1) in \<open>simp add: fixed_tree_def\<close>)
  then show ?thesis
    using e typeckVerify_fixed [OF v(1) u2(1)] by (auto simp: typed_entry_def)
qed

lemma compile_order_typed:
  "compile_order n k codegen ready is es s md = Inr (ok, es', s', md') \<Longrightarrow>
   \<forall>m \<in> set (ld_modules s). fixed_tree m \<Longrightarrow> \<forall>e \<in> set es. typed_entry e \<Longrightarrow>
   \<forall>e \<in> set es'. typed_entry e"
proof (induction "is" arbitrary: es s md)
  case (Cons i "is")
  let ?c = "compileModule n k codegen (\<lambda>nm. map_option (\<lambda>j. ld_modules s ! j) (map_of ready nm))
            (take i (ld_modules s) @ drop (i + 1) (ld_modules s))
            \<lparr>u_root = ld_modules s ! i, u_vars = ld_vars s, u_next = ld_next s, u_output = ld_output s\<rparr> md"
  from Cons.prems(1) have i: "i < length (ld_modules s)" by (simp split: if_splits)
  with Cons.prems(1) obtain entry u md1 where c: "?c = Inr (entry, u, md1)" by (auto simp: bindR_eq_Inr)
  show ?case
  proof (cases entry)
    case None
    with Cons.prems c i show ?thesis by (simp add: Let_def)
  next
    case (Some e)
    from i Cons.prems(2) have "fixed_tree (ld_modules s ! i)" by simp
    with compileModule_typed [OF c [unfolded Some]] have e: "typed_entry e" "fixed_tree (u_root u)" by auto
    show ?thesis
    proof (rule Cons.IH)
      let ?s = "s\<lparr>ld_modules := (ld_modules s)[i := u_root u], ld_vars := u_vars u, ld_next := u_next u,
                       ld_output := u_output u\<rparr>"
      from Cons.prems(1) c i Some show "compile_order n k codegen ready is (es @ [e]) ?s md1 = Inr (ok, es', s', md')"
        by (simp add: Let_def)
      show "\<forall>m \<in> set (ld_modules ?s). fixed_tree m"
        using Cons.prems(2) e(2) by (auto dest: set_update_subset_insert [THEN subsetD])
      show "\<forall>e \<in> set (es @ [e]). typed_entry e" using Cons.prems(3) e(1) by simp
    qed
  qed
qed simp

lemma add_prelude_fixed: "fixed_tree root \<Longrightarrow> fixed_tree (add_prelude nm root)"
  by (cases root) (auto simp: add_prelude_def fixed_tree_Node with_type_def split: node.splits)

lemma load_module_fixed:
  assumes "load_module readFile dp pm s = Inr (ok, s')" "\<forall>m \<in> set (ld_modules s). fixed_tree m"
  shows "\<forall>m \<in> set (ld_modules s'). fixed_tree m"
proof (cases "map_of (ld_ready s) (pm_name pm) \<noteq> None \<or> readFile (pm_path pm) = None")
  case True
  with assms show ?thesis by (auto simp: load_module_def bindR_eq_Inr split: if_splits)
next
  case False
  with assms(1) obtain contents root nxt vs where
    p: "parseModule (pm_path pm) contents (pm_name pm) (ld_next s) (ld_vars s) = Inr (root, nxt, vs)"
      "ld_modules s' = ld_modules s @ [if dp then root else add_prelude (pm_name pm) root]"
    by (auto simp: load_module_def bindR_eq_Inr Let_def)
  from p(1) have "fixed_tree root" by (auto simp: parseModule_def bindR_eq_Inr dest: parse_at_fixed)
  with assms(2) p(2) show ?thesis by (auto simp: add_prelude_fixed)
qed

lemma load_modules_fixed:
  "load_modules k readFile dp s = Inr (ok, s') \<Longrightarrow> \<forall>m \<in> set (ld_modules s). fixed_tree m \<Longrightarrow>
   \<forall>m \<in> set (ld_modules s'). fixed_tree m"
proof (induction k arbitrary: s)
  case 0
  then show ?case by (simp add: load_modules.simps split: list.splits)
next
  case (Suc k)
  show ?case
  proof (cases "ld_pending s")
    case Nil
    with Suc.prems show ?thesis by (simp add: load_modules.simps)
  next
    case (Cons pm ps)
    with Suc.prems(1) obtain b s1 where l: "load_module readFile dp pm (s\<lparr>ld_pending := ps\<rparr>) = Inr (b, s1)"
      "(if b then load_modules k readFile dp s1 else Inr (False, s1)) = Inr (ok, s')"
      by (auto simp: load_modules.simps [of "Suc k"] bindR_eq_Inr)
    have "\<forall>m \<in> set (ld_modules s1). fixed_tree m" by (rule load_module_fixed [OF l(1)]) (use Suc.prems(2) in simp)
    with l(2) Suc.IH show ?thesis by (auto split: if_splits)
  qed
qed

lemma compileModules_typed_entries:
  assumes "compileModules l m n k readFile codegen opts out md = Inr (ok, es, s, md')"
  shows "\<forall>e \<in> set es. typed_entry e"
proof -
  from assms obtain b s1 where l: "load_modules l readFile (o_disablePrelude opts) (loader0 opts out) = Inr (b, s1)"
    by (auto simp: compileModules_def bindR_eq_Inr)
  have fixed: "\<forall>m \<in> set (ld_modules s1). fixed_tree m"
    by (rule load_modules_fixed [OF l]) (simp add: loader0_def)
  show ?thesis
  proof (cases b)
    case True
    with assms l obtain order out1 where
      "compile_order n k codegen (ld_ready s1) order [] (s1\<lparr>ld_output := out1\<rparr>) md = Inr (ok, es, s, md')"
      by (auto simp: compileModules_def bindR_eq_Inr)
    from compile_order_typed [OF this] fixed show ?thesis by simp
  qed (use assms l in \<open>auto simp: compileModules_def\<close>)
qed



end
