(* ===== verification/LoaderCorrect.thy ===== *)
theory LoaderCorrect
  imports Driver ModulesCorrect ParseCorrect
begin

text \<open>
  The work list of the driver: which modules it loads, from where, and that it ends even when the
  imports have cycles.
\<close>

section \<open>The imports a module adds\<close>

definition pending_of :: "str \<times> location \<Rightarrow> pending" where
  "pending_of i = \<lparr>pm_name = fst i, pm_import = snd i, pm_path = getModulePath (fst i)\<rparr>"

lemma push_import_eq: "push_import nm loc ps = ps @ [pending_of (nm, loc)]"
  by (simp add: push_import_def pending_of_def)

lemma gather_node:
  "moduleGatherImportsNode push_import a s = Inr (False, s @ map pending_of (node_imports a))"
proof -
  have "fold (\<lambda>i. push_import i l) ai s = s @ map (\<lambda>i. pending_of (i, l)) ai" for l ai
    by (induction ai arbitrary: s) (simp_all add: push_import_eq)
  then show ?thesis
    by (cases a; cases "ast_node a") (simp_all add: moduleGatherImportsNode_def push_import_eq)
qed

lemma gather_pending:
  "moduleGatherImports push_import root ps = Inr (ps @ map pending_of (imports_of root))"
  by (simp add: moduleGatherImports_def gather_node [abs_def] visitAst_pure fold_append imports_of_def map_concat
      comp_def)

lemma pending_of_sel [simp]:
  "pm_name (pending_of i) = fst i" "pm_import (pending_of i) = snd i"
  "pm_path (pending_of i) = getModulePath (fst i)"
  by (simp_all add: pending_of_def)

section \<open>One round\<close>

text \<open>A module of a name, as it is read from a path.\<close>

definition loaded_from :: "(str \<Rightarrow> str option) \<Rightarrow> bool \<Rightarrow> str \<Rightarrow> str \<Rightarrow> ast \<Rightarrow> bool" where
  "loaded_from readFile dp path nm root =
     (\<exists>contents nxt vs root0 nxt' vs'.
        readFile path = Some contents \<and> parseModule path contents nm nxt vs = Inr (root0, nxt', vs') \<and>
        root = (if dp then root0 else add_prelude nm root0))"

lemma load_module_new:
  assumes "load_module readFile dp pm s = Inr (True, s')" "pm_name pm \<notin> fst ` set (ld_ready s)"
  shows "\<exists>root. loaded_from readFile dp (pm_path pm) (pm_name pm) root \<and>
      ld_modules s' = ld_modules s @ [root] \<and> ld_ready s' = (pm_name pm, length (ld_modules s)) # ld_ready s \<and>
      ld_pending s' = ld_pending s @ map pending_of (imports_of root) \<and>
      errors (ld_output s') = errors (ld_output s)"
proof -
  from assms(2) have None: "map_of (ld_ready s) (pm_name pm) = None" by (simp add: map_of_eq_None_iff)
  with assms(1) obtain contents where c: "readFile (pm_path pm) = Some contents"
    by (cases "readFile (pm_path pm)") (simp_all add: load_module_def bindR_eq_Inr)
  with assms(1) None obtain root0 nxt vs where
    p: "parseModule (pm_path pm) contents (pm_name pm) (ld_next s) (ld_vars s) = Inr (root0, nxt, vs)"
    by (auto simp: load_module_def bindR_eq_Inr)
  let ?root = "if dp then root0 else add_prelude (pm_name pm) root0"
  have "loaded_from readFile dp (pm_path pm) (pm_name pm) ?root"
    unfolding loaded_from_def using c p by blast
  with assms(1) None c p show ?thesis
    by (intro exI [of _ ?root]) (auto simp: load_module_def Let_def gather_pending)
qed

lemma load_module_cases:
  assumes "load_module readFile dp pm s = Inr (True, s')"
  obtains
    (known) "pm_name pm \<in> fst ` set (ld_ready s)" "s' = s"
  | (new) root where
      "pm_name pm \<notin> fst ` set (ld_ready s)" "loaded_from readFile dp (pm_path pm) (pm_name pm) root"
      "ld_modules s' = ld_modules s @ [root]"
      "ld_ready s' = (pm_name pm, length (ld_modules s)) # ld_ready s"
      "ld_pending s' = ld_pending s @ map pending_of (imports_of root)"
      "errors (ld_output s') = errors (ld_output s)"
proof (cases "pm_name pm \<in> fst ` set (ld_ready s)")
  case True
  then have "map_of (ld_ready s) (pm_name pm) \<noteq> None" by (simp add: map_of_eq_None_iff)
  then have "s' = s" using assms by (simp add: load_module_def)
  with True show ?thesis by (rule known)
next
  case False
  with load_module_new [OF assms] new show ?thesis by blast
qed

section \<open>The invariant of the work list\<close>

text \<open>The names that the inputs need, by the imports of the modules that are loaded.\<close>

inductive required :: "str list \<Rightarrow> loader \<Rightarrow> str \<Rightarrow> bool" for inputs s where
  required_input: "f \<in> set inputs \<Longrightarrow> required inputs s (getModuleName f)"
| required_import:
    "required inputs s nm \<Longrightarrow> map_of (ld_ready s) nm = Some i \<Longrightarrow>
     imp \<in> fst ` set (imports_of (ld_modules s ! i)) \<Longrightarrow> required inputs s imp"

definition pending_ok :: "str list \<Rightarrow> pending \<Rightarrow> bool" where
  "pending_ok inputs pm =
     (pm_path pm = getModulePath (pm_name pm) \<or>
      (pm_path pm \<in> set inputs \<and> pm_name pm = getModuleName (pm_path pm)))"

definition known :: "loader \<Rightarrow> str set" where
  "known s = fst ` set (ld_ready s) \<union> pm_name ` set (ld_pending s)"

text \<open>Which modules are there: one for each name, the last first, read from the path of the name.\<close>

definition ready_ok :: "(str \<Rightarrow> str option) \<Rightarrow> bool \<Rightarrow> str list \<Rightarrow> loader \<Rightarrow> bool" where
  "ready_ok readFile dp inputs s =
     (map snd (ld_ready s) = rev [0..<length (ld_modules s)] \<and> distinct (map fst (ld_ready s)) \<and>
      (\<forall>(nm, i) \<in> set (ld_ready s).
         \<exists>pm. pending_ok inputs pm \<and> pm_name pm = nm \<and>
           loaded_from readFile dp (pm_path pm) nm (ld_modules s ! i)))"

definition loader_ok :: "(str \<Rightarrow> str option) \<Rightarrow> bool \<Rightarrow> str list \<Rightarrow> loader \<Rightarrow> bool" where
  "loader_ok readFile dp inputs s =
     (ready_ok readFile dp inputs s \<and> (\<forall>pm \<in> set (ld_pending s). pending_ok inputs pm) \<and>
      getModuleName ` set inputs \<subseteq> known s \<and>
      (\<forall>root \<in> set (ld_modules s). fst ` set (imports_of root) \<subseteq> known s) \<and>
      (\<forall>nm \<in> known s. required inputs s nm))"

lemma ready_index:
  assumes "ready_ok readFile dp inputs s" "(nm, i) \<in> set (ld_ready s)"
  shows "i < length (ld_modules s)"
proof -
  have "i \<in> set (map snd (ld_ready s))" using assms(2) by force
  also have "map snd (ld_ready s) = rev [0..<length (ld_modules s)]" using assms(1) by (simp add: ready_ok_def)
  finally show ?thesis by simp
qed

lemma required_mono:
  assumes "required inputs s nm"
    and "\<And>nm i. map_of (ld_ready s) nm = Some i \<Longrightarrow>
           map_of (ld_ready s') nm = Some i \<and> ld_modules s' ! i = ld_modules s ! i"
  shows "required inputs s' nm"
  using assms(1)
proof induction
  case (required_input f)
  then show ?case by (rule required.required_input)
next
  case (required_import nm i imp)
  with assms(2) [of nm i] show ?case by (metis required.required_import)
qed

lemma load_module_ok:
  assumes ok: "loader_ok readFile dp inputs s" and ps: "ld_pending s = pm # ps"
    and l: "load_module readFile dp pm (s\<lparr>ld_pending := ps\<rparr>) = Inr (True, s')"
  shows "loader_ok readFile dp inputs s'"
  using l
proof (cases rule: load_module_cases)
  case known
  then have "known s' = known s" using ps by (auto simp: known_def)
  moreover have "required inputs s' nm" if "required inputs s nm" for nm
    using that by (rule required_mono) (use known in simp)
  ultimately show ?thesis using ok ps known by (simp add: loader_ok_def ready_ok_def)
next
  case (new root)
  have r: "ready_ok readFile dp inputs s" using ok by (simp add: loader_ok_def)
  have keep: "map_of (ld_ready s') nm = Some i \<and> ld_modules s' ! i = ld_modules s ! i"
    if "map_of (ld_ready s) nm = Some i" for nm i
  proof -
    have "(nm, i) \<in> set (ld_ready s)" using that by (rule map_of_SomeD)
    with ready_index [OF r] new(1,3,4) that show ?thesis by (force simp: nth_append)
  qed
  have mono: "required inputs s' nm" if "required inputs s nm" for nm
    using that keep by (rule required_mono)
  have pm: "required inputs s (pm_name pm)" "pending_ok inputs pm"
    using ok ps by (auto simp: loader_ok_def known_def)
  have imps: "required inputs s' imp" if "imp \<in> fst ` set (imports_of root)" for imp
    using required_import [OF mono [OF pm(1)], of "length (ld_modules s)" imp] that new(3,4) by simp
  have "ready_ok readFile dp inputs s'"
  proof -
    have "\<exists>q. pending_ok inputs q \<and> pm_name q = nm \<and> loaded_from readFile dp (pm_path q) nm (ld_modules s' ! i)"
      if "(nm, i) \<in> set (ld_ready s')" for nm i
    proof (cases "(nm, i) \<in> set (ld_ready s)")
      case True
      with ready_index [OF r True] r new(3) show ?thesis
        by (fastforce simp: ready_ok_def nth_append)
    next
      case False
      with that new(2,3,4) pm(2) show ?thesis by (auto simp: nth_append)
    qed
    then have "\<forall>(nm, i) \<in> set (ld_ready s'). \<exists>q. pending_ok inputs q \<and> pm_name q = nm \<and>
        loaded_from readFile dp (pm_path q) nm (ld_modules s' ! i)"
      by blast
    then show ?thesis using r new(1,3,4) unfolding ready_ok_def by simp
  qed
  moreover have "known s' = known s \<union> fst ` set (imports_of root)"
    using new(4,5) ps by (simp add: known_def image_Un image_image Un_ac)
  moreover have "\<forall>q \<in> set (ld_pending s'). pending_ok inputs q"
    using ok ps new(5) by (auto simp: loader_ok_def pending_ok_def)
  moreover have "\<forall>nm \<in> known s \<union> fst ` set (imports_of root). required inputs s' nm"
    using ok mono imps unfolding loader_ok_def by blast
  moreover have "\<forall>r \<in> set (ld_modules s'). fst ` set (imports_of r) \<subseteq> known s \<union> fst ` set (imports_of root)"
  proof
    fix r assume "r \<in> set (ld_modules s')"
    then have "r \<in> set (ld_modules s) \<or> r = root" using new(3) by auto
    then show "fst ` set (imports_of r) \<subseteq> known s \<union> fst ` set (imports_of root)"
      using ok unfolding loader_ok_def by blast
  qed
  moreover have "getModuleName ` set inputs \<subseteq> known s \<union> fst ` set (imports_of root)"
    using ok unfolding loader_ok_def by blast
  ultimately show ?thesis unfolding loader_ok_def by simp
qed

lemma load_modules_ok:
  "loader_ok readFile dp inputs s \<Longrightarrow> load_modules k readFile dp s = Inr (True, s') \<Longrightarrow>
   loader_ok readFile dp inputs s' \<and> ld_pending s' = [] \<and> errors (ld_output s') = errors (ld_output s)"
proof (induction k arbitrary: s)
  case 0
  then show ?case by (simp add: load_modules.simps split: list.splits)
next
  case (Suc k)
  show ?case
  proof (cases "ld_pending s")
    case Nil
    with Suc.prems show ?thesis by (simp add: load_modules.simps)
  next
    case (Cons pm ps)
    with Suc.prems(2) obtain s1 where l: "load_module readFile dp pm (s\<lparr>ld_pending := ps\<rparr>) = Inr (True, s1)"
      "load_modules k readFile dp s1 = Inr (True, s')"
      by (auto simp: load_modules.simps [of "Suc k"] bindR_eq_Inr split: if_splits)
    from l(1) have "errors (ld_output s1) = errors (ld_output s)" by (cases rule: load_module_cases) auto
    with Suc.IH [OF load_module_ok [OF Suc.prems(1) Cons l(1)] l(2)] show ?thesis by simp
  qed
qed

lemma loader0_ok: "loader_ok readFile dp (o_inputs opts) (loader0 opts out)"
  by (force simp: loader_ok_def ready_ok_def loader0_def known_def pending_ok_def intro: required.intros)

section \<open>The loop ends\<close>

lemma parseModule_empty: "parseModule path [] nm nxt vs = Inl AssertFail"
  by (simp add: parseModule_def tokenize_def) code_simp

lemma parseModule_fuel: "parseModule path d nm nxt vs \<noteq> Inl NoFuel"
proof (cases "d = []")
  case True
  then show ?thesis by (simp add: parseModule_empty)
next
  case False
  show ?thesis
  proof (cases "tokenize path d")
    case (Inl e)
    with tokenize_Inl [OF Inl] show ?thesis by (auto simp: parseModule_def)
  next
    case (Inr tk)
    from parse_stream_wp [OF tokenize_stream_ok [OF Inr False] lessI, of nxt vs] Inr show ?thesis
      by (auto simp: parseModule_def parse_at_def bindR_def split: sum.splits)
  qed
qed

lemma error_at_fuel: "error_at out loc msg \<noteq> Inl NoFuel"
  by (auto simp: error_at_def print_at_def assertR_def bindR_def Let_def split: sum.splits option.splits if_splits)

lemma load_module_fuel: "load_module readFile dp pm s \<noteq> Inl NoFuel"
proof (cases "map_of (ld_ready s) (pm_name pm)")
  case None
  show ?thesis
  proof (cases "readFile (pm_path pm)")
    case None
    with \<open>map_of _ _ = None\<close> error_at_fuel show ?thesis
      by (auto simp: load_module_def bindR_def split: sum.splits)
  next
    case (Some contents)
    with None parseModule_fuel show ?thesis
      by (auto simp: load_module_def bindR_def gather_pending Let_def split: sum.splits)
  qed
qed (simp add: load_module_def)

text \<open>Only finitely many names can be loaded, as a path is the path of finitely many names.\<close>

lemma getModulePath_finite: "finite {nm. getModulePath nm = p}"
proof (rule finite_subset)
  show "{nm. getModulePath nm = p} \<subseteq>
      {nm. set nm \<subseteq> set p \<union> set ''./std'' \<and> length nm \<le> length p}"
  proof safe
    fix nm c
    let ?f = "\<lambda>c. if c = CHR ''.'' then CHR ''/'' else c"
    let ?q = "map ?f nm"
    assume p: "p = getModulePath nm"
    show "length nm \<le> length (getModulePath nm)" by (auto simp: getModulePath_def Let_def)
    assume c: "c \<in> set nm" "c \<notin> set ''./std''"
    then have q: "c \<in> set ?q" by force
    have "c \<in> set (drop 4 ?q)" if "starts ''std/'' ?q"
    proof -
      have "?q = ''std/'' @ drop 4 ?q"
        using that append_take_drop_id [of "length ''std/''" ?q] by (simp add: starts_def eval_nat_numeral)
      with q c(2) show ?thesis by (metis (no_types, lifting) Un_iff insert_iff list.simps(15) set_append)
    qed
    with q show "c \<in> set (getModulePath nm)" by (auto simp: getModulePath_def Let_def)
  qed
  show "finite {nm. set nm \<subseteq> set p \<union> set ''./std'' \<and> length nm \<le> length p}"
    by (rule finite_lists_length_le) simp
qed

definition loadable :: "(str \<Rightarrow> str option) \<Rightarrow> str list \<Rightarrow> str set" where
  "loadable readFile inputs =
     getModuleName ` set inputs \<union> (\<Union>p \<in> {p. readFile p \<noteq> None}. {nm. getModulePath nm = p})"

lemma loadable_finite: "finite {p. readFile p \<noteq> None} \<Longrightarrow> finite (loadable readFile inputs)"
  unfolding loadable_def by (intro finite_UnI finite_UN_I getModulePath_finite) auto

definition unloaded :: "(str \<Rightarrow> str option) \<Rightarrow> str list \<Rightarrow> loader \<Rightarrow> nat" where
  "unloaded readFile inputs s = card (loadable readFile inputs - fst ` set (ld_ready s))"

lemma load_modules_ends:
  assumes "finite {p. readFile p \<noteq> None}" "\<forall>pm \<in> set (ld_pending s). pending_ok inputs pm"
  shows "\<exists>k0. \<forall>k \<ge> k0. load_modules k readFile dp s \<noteq> Inl NoFuel"
  using assms(2)
proof (induction s rule: wf_induct_rule [OF wf_measures [of "[unloaded readFile inputs, \<lambda>s. length (ld_pending s)]"]])
  case (1 s)
  show ?case
  proof (cases "ld_pending s")
    case Nil
    then show ?thesis by (auto simp: load_modules.simps)
  next
    case (Cons pm ps)
    let ?l = "load_module readFile dp pm (s\<lparr>ld_pending := ps\<rparr>)"
    show ?thesis
    proof (cases "\<exists>s1. ?l = Inr (True, s1)")
      case False
      then have "load_modules (Suc k) readFile dp s \<noteq> Inl NoFuel" for k
        using load_module_fuel [of readFile dp pm "s\<lparr>ld_pending := ps\<rparr>"] Cons
        by (auto simp: load_modules.simps [of "Suc k"] bindR_def split: sum.splits if_splits)
      then show ?thesis by (metis Suc_le_D)
    next
      case True
      then obtain s1 where l: "?l = Inr (True, s1)" by blast
      have "(s1, s) \<in> measures [unloaded readFile inputs, \<lambda>s. length (ld_pending s)] \<and>
          (\<forall>q \<in> set (ld_pending s1). pending_ok inputs q)"
        using l
      proof (cases rule: load_module_cases)
        case known
        with Cons "1.prems" show ?thesis by (simp add: unloaded_def)
      next
        case (new root)
        have "pm_name pm \<in> loadable readFile inputs"
          using "1.prems" Cons new(2) by (auto simp: loadable_def pending_ok_def loaded_from_def)
        then have "loadable readFile inputs - fst ` set (ld_ready s1) \<subset> loadable readFile inputs - fst ` set (ld_ready s)"
          using new(1,4) by auto
        then have "unloaded readFile inputs s1 < unloaded readFile inputs s"
          unfolding unloaded_def by (rule psubset_card_mono [rotated]) (simp add: loadable_finite [OF assms(1)])
        with "1.prems" Cons new(5) show ?thesis by (auto simp: pending_ok_def)
      qed
      with "1.IH" obtain k0 where "\<forall>k \<ge> k0. load_modules k readFile dp s1 \<noteq> Inl NoFuel" by blast
      then have "load_modules k readFile dp s \<noteq> Inl NoFuel" if "Suc k0 \<le> k" for k
        using that l Cons by (cases k) (auto simp: load_modules.simps [of "Suc _"])
      then show ?thesis by blast
    qed
  qed
qed

section \<open>Properties\<close>

text \<open>
  C7: When the driver has read its modules, they are exactly those that the inputs need: the modules of
  the inputs and, in turn, whatever a module that is there imports, \<open>std.prelude\<close> included where it is
  added. Each has its name once and is what parsing the file of this name gave, an input or the path
  that \<open>getModulePath\<close> gives; nothing is pending and nothing was reported.
\<close>

theorem load_modules_complete:
  assumes "load_modules k readFile dp (loader0 opts out) = Inr (True, s)"
  shows "fst ` set (ld_ready s) = {nm. required (o_inputs opts) s nm} \<and>
    ready_ok readFile dp (o_inputs opts) s \<and> ld_pending s = [] \<and> errors (ld_output s) = errors out"
proof -
  let ?inputs = "o_inputs opts"
  have ok: "loader_ok readFile dp ?inputs s" "ld_pending s = []" "errors (ld_output s) = errors out"
    using load_modules_ok [OF loader0_ok assms] by (auto simp: loader0_def)
  have known: "known s = fst ` set (ld_ready s)" using ok(2) by (simp add: known_def)
  have inv: "ready_ok readFile dp ?inputs s" "getModuleName ` set ?inputs \<subseteq> fst ` set (ld_ready s)"
    "\<And>root. root \<in> set (ld_modules s) \<Longrightarrow> fst ` set (imports_of root) \<subseteq> fst ` set (ld_ready s)"
    "\<And>nm. nm \<in> fst ` set (ld_ready s) \<Longrightarrow> required ?inputs s nm"
    using ok(1) unfolding loader_ok_def known by blast+
  have "nm \<in> fst ` set (ld_ready s)" if "required ?inputs s nm" for nm
    using that
  proof induction
    case (required_input f)
    with inv(2) show ?case by blast
  next
    case (required_import nm i imp)
    have "ld_modules s ! i \<in> set (ld_modules s)"
      by (rule nth_mem [OF ready_index [OF inv(1) map_of_SomeD [OF required_import(2)]]])
    from subsetD [OF inv(3) [OF this] required_import(3)] show ?case .
  qed
  then have "fst ` set (ld_ready s) = {nm. required ?inputs s nm}" using inv(4) by (intro set_eqI iffI) simp_all
  with ok(2,3) inv(1) show ?thesis by simp
qed

lemma sum_case_Inr: "(case r of Inr (ok, s) \<Rightarrow> ok \<and> P s | Inl _ \<Rightarrow> False) \<Longrightarrow> \<exists>s. r = Inr (True, s) \<and> P s"
  by (cases r) (simp_all split: prod.splits)

lemma load_modules_complete_witness:
  "case load_modules 3 (\<lambda>p. if p = ''a'' then Some ''import b'' else if p = ''b.aike'' then Some ''1'' else None) True
       (loader0 (options0\<lparr>o_inputs := [''a'']\<rparr>) Output0) of
     Inr (ok, s) \<Rightarrow> ok \<and> map fst (ld_ready s) = [''b'', ''a''] \<and> required [''a''] s ''b''
   | Inl _ \<Rightarrow> False"
proof -
  let ?f = "\<lambda>p. if p = ''a'' then Some ''import b'' else if p = ''b.aike'' then Some ''1'' else None"
  let ?opts = "options0\<lparr>o_inputs := [''a'']\<rparr>"
  let ?r = "load_modules 3 ?f True (loader0 ?opts Output0)"
  have "case ?r of Inr (ok, s) \<Rightarrow> ok \<and> map fst (ld_ready s) = [''b'', ''a''] | Inl _ \<Rightarrow> False" by code_simp
  from sum_case_Inr [OF this] obtain s where r: "?r = Inr (True, s)" "map fst (ld_ready s) = [''b'', ''a'']"
    by (elim exE conjE)
  from load_modules_complete [OF r(1)] have "set (map fst (ld_ready s)) = {nm. required (o_inputs ?opts) s nm}"
    unfolding set_map by (rule conjunct1)
  then have "required (o_inputs ?opts) s ''b''" unfolding r(2) by (auto simp only: list.set)
  then have "required [''a''] s ''b''" by (simp add: options0_def)
  with r show ?thesis by (simp only: r sum.case prod.case simp_thms)
qed

text \<open>
  C8: Loading ends, cycles of imports or not: when finitely many paths can be read there is a number of
  rounds after which the work list is done, whatever the files say. No name is loaded twice, and only
  finitely many names have a path that can be read.
\<close>

theorem load_modules_terminates:
  assumes "finite {p. readFile p \<noteq> None}"
  shows "\<exists>k0. \<forall>k. k0 \<le> k \<longrightarrow> load_modules k readFile dp (loader0 opts out) \<noteq> Inl NoFuel"
proof -
  have "\<forall>pm \<in> set (ld_pending (loader0 opts out)). pending_ok (o_inputs opts) pm"
    by (auto simp: loader0_def pending_ok_def)
  from load_modules_ends [OF assms this] show ?thesis by blast
qed

lemma load_modules_terminates_witness:
  "\<exists>k. load_modules k (\<lambda>p. if p = ''a'' then Some ''import a'' else None) True
      (loader0 (options0\<lparr>o_inputs := [''a'']\<rparr>) Output0) \<noteq> Inl NoFuel"
proof -
  have "finite {p. (if p = ''a'' then Some ''import a'' else None) \<noteq> None}"
    by (rule finite_subset [of _ "{''a''}"]) (auto split: if_splits)
  from load_modules_terminates [OF this, of True "options0\<lparr>o_inputs := [''a'']\<rparr>" Output0]
  show ?thesis by blast
qed

end
