(* ===== verification/Dump.thy ===== *)
theory Dump
  imports Ast
begin

text \<open>
  The printer of syntax trees for \<open>--dump-parse\<close> and \<open>--dump-ast\<close>: \<open>compiler/dump.cpp\<close>. A dump is the text
  it prints. How \<open>printf\<close> shows a floating-point literal is the parameter \<open>fmt\<close>; \<open>vs\<close> is the store of
  variables.
\<close>

fun getOpName_unary :: "unary_op \<Rightarrow> str" where
  "getOpName_unary UnaryOpPlus = ''+''"
| "getOpName_unary UnaryOpMinus = ''-''"
| "getOpName_unary UnaryOpNot = ''not''"
| "getOpName_unary UnaryOpDeref = ''*''"
| "getOpName_unary UnaryOpNew = ''new''"

fun getOpName_binary :: "binary_op \<Rightarrow> str" where
  "getOpName_binary BinaryOpAddWrap = ''+%''"
| "getOpName_binary BinaryOpSubtractWrap = ''-%''"
| "getOpName_binary BinaryOpMultiplyWrap = ''*%''"
| "getOpName_binary BinaryOpAdd = ''+''"
| "getOpName_binary BinaryOpSubtract = ''-''"
| "getOpName_binary BinaryOpMultiply = ''*''"
| "getOpName_binary BinaryOpDivide = ''/''"
| "getOpName_binary BinaryOpModulo = ''%''"
| "getOpName_binary BinaryOpLess = ''<''"
| "getOpName_binary BinaryOpLessEqual = ''<=''"
| "getOpName_binary BinaryOpGreater = ''>''"
| "getOpName_binary BinaryOpGreaterEqual = ''>=''"
| "getOpName_binary BinaryOpEqual = ''==''"
| "getOpName_binary BinaryOpNotEqual = ''!=''"
| "getOpName_binary BinaryOpAnd = ''and''"
| "getOpName_binary BinaryOpOr = ''or''"

definition dumpIndent :: "nat \<Rightarrow> str" where
  "dumpIndent ind = concat (replicate ind ''    '')"

text \<open>Through a C string: what follows a zero byte is not printed.\<close>

definition dumpString :: "str \<Rightarrow> str" where
  "dumpString s = takeWhile (\<lambda>c. c \<noteq> char_of (0::nat)) s"

definition dump_type :: "ty \<Rightarrow> str" where
  "dump_type t = dumpString (typeName t)"

text \<open>Parts that are printed one after the other; the first that fails stops the program.\<close>

fun prints :: "str result list \<Rightarrow> str result" where
  "prints [] = Inr []"
| "prints (p # ps) = bindR p (\<lambda>x. bindR (prints ps) (\<lambda>y. Inr (x @ y)))"

definition dumpList :: "'a list \<Rightarrow> ('a \<Rightarrow> str result) \<Rightarrow> str result" where
  "dumpList xs pred = bindR (mapR pred xs) (\<lambda>ys. Inr (comma_sep ys))"

lemma dumpList_cong [fundef_cong]:
  "xs = xs' \<Longrightarrow> (\<And>x. x \<in> set xs' \<Longrightarrow> f x = g x) \<Longrightarrow> dumpList xs f = dumpList xs' g"
  unfolding dumpList_def using mapR_cong [of xs xs' f g] by simp

definition dumpTypeSignature :: "ty list \<Rightarrow> str" where
  "dumpTypeSignature args = (if args = [] then [] else ''<'' @ comma_sep (map dump_type args) @ ''>'')"

definition dump_var :: "(addr \<times> variable) list \<Rightarrow> addr \<Rightarrow> variable result" where
  "dump_var vs v = (case map_of vs v of Some x \<Rightarrow> Inr x | None \<Rightarrow> Inl NullDeref)"

definition dumpFunctionSignature :: "(addr \<times> variable) list \<Rightarrow> ty \<Rightarrow> addr list \<Rightarrow> str result" where
  "dumpFunctionSignature vs t args =
     (case t of
        TyFunction tas ret varargs \<Rightarrow>
          prints
            [Inr ''('',
             dumpList args (\<lambda>a. bindR (dump_var vs a) (\<lambda>v. Inr (dumpString (v_name v) @ '': '' @ dump_type (v_type v)))),
             Inr (if varargs then (if args \<noteq> [] then '', '' else []) @ ''...'' else []),
             Inr (''): '' @ dump_type ret)]
      | _ \<Rightarrow> Inl AssertFail)"

definition dumpTypeArguments :: "ty list \<Rightarrow> str" where
  "dumpTypeArguments args = (if args = [] then [] else ''.'' @ dumpTypeSignature args)"

section \<open>Nodes\<close>

text \<open>One definition for each kind of node, over the printer \<open>dn\<close> of its children.\<close>

type_synonym dumper = "ast \<Rightarrow> nat \<Rightarrow> str result"

definition nl :: str where "nl = [CHR 0x0A]"

definition dumpDef :: "dumper \<Rightarrow> str \<Rightarrow> ast tydef \<Rightarrow> nat \<Rightarrow> str result" where
  "dumpDef dn name d ind =
     prints
       (Inr (''struct '' @ dumpString name @ dumpTypeSignature (sd_tyargs d) @ nl) #
        map (\<lambda>f. prints
            [Inr (dumpIndent (ind + 1) @ dumpString (sf_name f) @ '': '' @ dump_type (sf_type f)),
             (case sf_expr f of Some e \<Rightarrow> prints [Inr '' = '', dn e ind] | None \<Rightarrow> Inr []),
             Inr nl])
          (sd_fields d))"

definition dumpLiteralBool :: "bool \<Rightarrow> str" where
  "dumpLiteralBool b = (if b then ''true'' else ''false'')"

definition dumpLiteralString :: "str \<Rightarrow> str" where
  "dumpLiteralString s = [CHR 0x22] @ dumpString s @ [CHR 0x22]"

definition dumpLiteralTuple :: "dumper \<Rightarrow> ast list \<Rightarrow> nat \<Rightarrow> str result" where
  "dumpLiteralTuple dn fs ind = prints [Inr ''('', dumpList fs (\<lambda>c. dn c ind), Inr '')'']"

definition dumpLiteralArray :: "dumper \<Rightarrow> ast list \<Rightarrow> nat \<Rightarrow> str result" where
  "dumpLiteralArray dn es ind = prints [Inr ''['', dumpList es (\<lambda>c. dn c ind), Inr '']'']"

definition dumpLiteralStruct :: "dumper \<Rightarrow> str \<Rightarrow> (field_ref \<times> ast) list \<Rightarrow> nat \<Rightarrow> str result" where
  "dumpLiteralStruct dn name fs ind =
     prints
       [Inr (dumpString name @ '' { ''),
        dumpList fs (\<lambda>p. prints [Inr (dumpString (fr_name (fst p)) @ '' = ''), dn (snd p) ind]),
        Inr '' }'']"

definition dumpIdent :: "str \<Rightarrow> ty list \<Rightarrow> str" where
  "dumpIdent name tyargs = dumpString name @ dumpTypeArguments tyargs"

definition dumpMember :: "dumper \<Rightarrow> ast \<Rightarrow> field_ref \<Rightarrow> nat \<Rightarrow> str result" where
  "dumpMember dn e f ind = prints [dn e ind, Inr (''.'' @ dumpString (fr_name f))]"

definition dumpBlock :: "dumper \<Rightarrow> ast list \<Rightarrow> nat \<Rightarrow> str result" where
  "dumpBlock dn body ind = prints (map (\<lambda>c. prints [Inr (dumpIndent ind), dn c ind, Inr nl]) body)"

definition dumpCall :: "dumper \<Rightarrow> ast \<Rightarrow> ast list \<Rightarrow> nat \<Rightarrow> str result" where
  "dumpCall dn e args ind = prints [dn e ind, Inr ''('', dumpList args (\<lambda>c. dn c ind), Inr '')'']"

definition dumpUnary :: "dumper \<Rightarrow> unary_op \<Rightarrow> ast \<Rightarrow> nat \<Rightarrow> str result" where
  "dumpUnary dn op e ind = prints [Inr (''('' @ getOpName_unary op @ '' ''), dn e ind, Inr '')'']"

definition dumpBinary :: "dumper \<Rightarrow> binary_op \<Rightarrow> ast \<Rightarrow> ast \<Rightarrow> nat \<Rightarrow> str result" where
  "dumpBinary dn op l r ind =
     prints [Inr ''('', dn l ind, Inr ('' '' @ getOpName_binary op @ '' ''), dn r ind, Inr '')'']"

definition dumpIndex :: "dumper \<Rightarrow> ast \<Rightarrow> ast \<Rightarrow> nat \<Rightarrow> str result" where
  "dumpIndex dn e i ind = prints [dn e ind, Inr ''['', dn i ind, Inr '']'']"

definition dumpAssign :: "dumper \<Rightarrow> ast \<Rightarrow> ast \<Rightarrow> nat \<Rightarrow> str result" where
  "dumpAssign dn l r ind = prints [dn l ind, Inr '' = '', dn r ind]"

definition dumpIf :: "dumper \<Rightarrow> ast \<Rightarrow> ast \<Rightarrow> ast option \<Rightarrow> nat \<Rightarrow> str result" where
  "dumpIf dn c t e ind =
     prints
       ([Inr ''if '', dn c ind, Inr nl, dn t (ind + 1)] @
        (case e of
           Some b \<Rightarrow> [Inr (nl @ dumpIndent ind @ ''else'' @ nl), dn b (ind + 1)]
         | None \<Rightarrow> []))"

definition dumpFor :: "dumper \<Rightarrow> (addr \<times> variable) list \<Rightarrow> addr \<Rightarrow> addr option \<Rightarrow> ast \<Rightarrow> ast \<Rightarrow> nat \<Rightarrow> str result" where
  "dumpFor dn vs v i e b ind =
     prints
       [Inr ''for '', bindR (dump_var vs v) (\<lambda>x. Inr (dumpString (v_name x))),
        (case i of
           Some j \<Rightarrow> bindR (dump_var vs j) (\<lambda>x. Inr ('', '' @ dumpString (v_name x)))
         | None \<Rightarrow> Inr []),
        Inr '' in '', dn e ind, Inr nl, dn b (ind + 1)]"

definition dumpWhile :: "dumper \<Rightarrow> ast \<Rightarrow> ast \<Rightarrow> nat \<Rightarrow> str result" where
  "dumpWhile dn e b ind = prints [Inr ''while '', dn e ind, Inr nl, dn b (ind + 1)]"

definition dumpLLVM :: "str \<Rightarrow> nat \<Rightarrow> str" where
  "dumpLLVM code ind = dumpIndent ind @ ''llvm '' @ [CHR 0x22] @ dumpString code @ [CHR 0x22]"

definition dumpFnDecl ::
    "dumper \<Rightarrow> (addr \<times> variable) list \<Rightarrow> addr \<Rightarrow> ty list \<Rightarrow> addr list \<Rightarrow> nat \<Rightarrow> ast option \<Rightarrow> nat \<Rightarrow> str result" where
  "dumpFnDecl dn vs v tyargs args attributes body ind =
     bindR (dump_var vs v) (\<lambda>x.
       prints
         [Inr (if and attributes FnAttributeExtern \<noteq> 0 then ''extern '' else []),
          Inr (''fn '' @ dumpString (v_name x) @ dumpTypeSignature tyargs),
          dumpFunctionSignature vs (v_type x) args, Inr nl,
          (case body of Some b \<Rightarrow> dn b (ind + 1) | None \<Rightarrow> Inr [])])"

text \<open>The value is printed by \<open>dump\<close>, which starts again without indentation.\<close>

definition dumpVarDecl :: "dumper \<Rightarrow> (addr \<times> variable) list \<Rightarrow> addr \<Rightarrow> ast \<Rightarrow> str result" where
  "dumpVarDecl dn vs v e =
     bindR (dump_var vs v) (\<lambda>x.
       prints [Inr (''var '' @ dumpString (v_name x) @ '': '' @ dump_type (v_type x) @ '' = ''), dn e 0])"

definition dumpImport :: "str \<Rightarrow> str" where
  "dumpImport name = ''import '' @ dumpString name @ nl"

definition dump_node :: "(str \<Rightarrow> str) \<Rightarrow> (addr \<times> variable) list \<Rightarrow> dumper \<Rightarrow> dumper" where
  "dump_node fmt vs dn root ind =
     (case ast_node root of
        Common \<Rightarrow> Inr []
      | LiteralVoid \<Rightarrow> Inr ''()''
      | LiteralBool b \<Rightarrow> Inr (dumpLiteralBool b)
      | LiteralInteger i \<Rightarrow> Inr (show_int i)
      | LiteralFloat x \<Rightarrow> Inr (fmt x)
      | LiteralString s \<Rightarrow> Inr (dumpLiteralString s)
      | LiteralTuple fs \<Rightarrow> dumpLiteralTuple dn fs ind
      | LiteralArray es \<Rightarrow> dumpLiteralArray dn es ind
      | LiteralStruct name fs \<Rightarrow> dumpLiteralStruct dn name fs ind
      | Ident name tyargs tgs res \<Rightarrow> Inr (dumpIdent name tyargs)
      | Member e f \<Rightarrow> dumpMember dn e f ind
      | Block body \<Rightarrow> dumpBlock dn body ind
      | Module name b ai \<Rightarrow> dn b ind
      | Call e args \<Rightarrow> dumpCall dn e args ind
      | Unary op e \<Rightarrow> dumpUnary dn op e ind
      | Binary op l r \<Rightarrow> dumpBinary dn op l r ind
      | Index e i \<Rightarrow> dumpIndex dn e i ind
      | Assign l r \<Rightarrow> dumpAssign dn l r ind
      | If c t e \<Rightarrow> dumpIf dn c t e ind
      | For v i e b \<Rightarrow> dumpFor dn vs v i e b ind
      | While e b \<Rightarrow> dumpWhile dn e b ind
      | Fn i d \<Rightarrow> dn d ind
      | LLVM code \<Rightarrow> Inr (dumpLLVM code ind)
      | FnDecl v tyargs args att b p m \<Rightarrow> dumpFnDecl dn vs v tyargs args att b ind
      | VarDecl v e \<Rightarrow> dumpVarDecl dn vs v e
      | TyDecl name a d \<Rightarrow> dumpDef dn name d ind
      | Import name \<Rightarrow> Inr (dumpImport name))"

lemma dump_fields_cong:
  assumes "\<And>c i. c \<in> set (List.map_filter sf_expr fs) \<Longrightarrow> f c i = g c i" "x \<in> set fs" "sf_expr x = Some e"
  shows "f e i = g e i"
proof -
  from assms(2,3) have "e \<in> set (List.map_filter sf_expr fs)"
    by (induction fs) (auto simp: map_filter_simps split: option.splits)
  then show ?thesis by (rule assms(1))
qed

lemma dump_node_cong [fundef_cong]:
  assumes "root = root'" "ind = ind'" "\<And>c i. c \<in> set (children (ast_node root')) \<Longrightarrow> f c i = g c i"
  shows "dump_node fmt vs f root ind = dump_node fmt vs g root' ind'"
proof -
  have "dump_node fmt vs f root' ind' = dump_node fmt vs g root' ind'"
  proof (cases "ast_node root'")
    case (LiteralTuple fs)
    with assms(3) show ?thesis by (simp add: dump_node_def dumpLiteralTuple_def cong: dumpList_cong)
  next
    case (LiteralArray fs)
    with assms(3) show ?thesis by (simp add: dump_node_def dumpLiteralArray_def cong: dumpList_cong)
  next
    case (LiteralStruct name fs)
    with assms(3) show ?thesis
      by (simp add: dump_node_def dumpLiteralStruct_def cong: dumpList_cong)
  next
    case (Block body)
    with assms(3) have "map (\<lambda>c. prints [Inr (dumpIndent ind'), f c ind', Inr nl]) body =
        map (\<lambda>c. prints [Inr (dumpIndent ind'), g c ind', Inr nl]) body"
      by (intro map_cong) simp_all
    with Block show ?thesis by (simp only: dump_node_def dumpBlock_def node.case)
  next
    case (Call e args)
    with assms(3) show ?thesis by (simp add: dump_node_def dumpCall_def cong: dumpList_cong)
  next
    case (If c t e)
    with assms(3) show ?thesis by (cases e) (simp_all add: dump_node_def dumpIf_def)
  next
    case (FnDecl v tas as att b p m)
    with assms(3) show ?thesis by (cases b) (simp_all add: dump_node_def dumpFnDecl_def)
  next
    case (TyDecl name a d)
    have "f e ind' = g e ind'" if "x \<in> set (sd_fields d)" "sf_expr x = Some e" for x e
      using dump_fields_cong [of "sd_fields d" f g, OF _ that] assms(3) TyDecl by simp
    then have "map (\<lambda>x. prints
            [Inr (dumpIndent (ind' + 1) @ dumpString (sf_name x) @ '': '' @ dump_type (sf_type x)),
             (case sf_expr x of Some e \<Rightarrow> prints [Inr '' = '', f e ind'] | None \<Rightarrow> Inr []), Inr nl]) (sd_fields d) =
        map (\<lambda>x. prints
            [Inr (dumpIndent (ind' + 1) @ dumpString (sf_name x) @ '': '' @ dump_type (sf_type x)),
             (case sf_expr x of Some e \<Rightarrow> prints [Inr '' = '', g e ind'] | None \<Rightarrow> Inr []), Inr nl]) (sd_fields d)"
      by (intro map_cong) (auto split: option.splits)
    with TyDecl show ?thesis by (simp only: dump_node_def dumpDef_def node.case)
  qed (use assms(3) in \<open>simp_all add: dump_node_def dumpMember_def dumpUnary_def dumpBinary_def dumpIndex_def
      dumpAssign_def dumpFor_def dumpWhile_def dumpVarDecl_def\<close>)
  with assms(1,2) show ?thesis by simp
qed

fun dumpNode :: "(str \<Rightarrow> str) \<Rightarrow> (addr \<times> variable) list \<Rightarrow> ast \<Rightarrow> nat \<Rightarrow> str result" where
  "dumpNode fmt vs root ind = dump_node fmt vs (dumpNode fmt vs) root ind"

declare dumpNode.simps [simp del]

definition dump :: "(str \<Rightarrow> str) \<Rightarrow> (addr \<times> variable) list \<Rightarrow> ast \<Rightarrow> str result" where
  "dump fmt vs root = dumpNode fmt vs root 0"

section \<open>When a dump succeeds\<close>

lemma prints_isRight: "isRight (prints ps) \<longleftrightarrow> (\<forall>p \<in> set ps. isRight p)"
proof (induction ps)
  case (Cons p ps)
  then show ?case by (cases p; cases "prints ps") auto
qed simp

lemma dumpList_isRight: "isRight (dumpList xs f) \<longleftrightarrow> (\<forall>x \<in> set xs. isRight (f x))"
proof -
  have "isRight (mapR f xs) \<longleftrightarrow> (\<forall>x \<in> set xs. isRight (f x))"
  proof (induction xs)
    case (Cons x xs)
    then show ?case by (cases "f x"; cases "mapR f xs") auto
  qed simp
  then show ?thesis by (cases "mapR f xs") (auto simp: dumpList_def)
qed

lemma dump_var_bind: "isRight (bindR (dump_var vs v) (\<lambda>x. Inr (f x))) \<longleftrightarrow> map_of vs v \<noteq> None"
  by (auto simp: dump_var_def split: option.splits)

text \<open>
  What the printer of a node looks up: the variables it declares, and for a function the parameters of
  its type.
\<close>

definition dumpable :: "(addr \<times> variable) list \<Rightarrow> ast \<Rightarrow> bool" where
  "dumpable vs root =
     (case ast_node root of
        FnDecl v tyargs args att b p m \<Rightarrow>
          (case map_of vs v of
             Some x \<Rightarrow> (case v_type x of TyFunction tas ret va \<Rightarrow> \<forall>a \<in> set args. map_of vs a \<noteq> None | _ \<Rightarrow> False)
           | None \<Rightarrow> False)
      | VarDecl v e \<Rightarrow> map_of vs v \<noteq> None
      | For v i e b \<Rightarrow> map_of vs v \<noteq> None \<and> (case i of Some j \<Rightarrow> map_of vs j \<noteq> None | None \<Rightarrow> True)
      | _ \<Rightarrow> True)"

lemma dumpFunctionSignature_isRight:
  "isRight (dumpFunctionSignature vs t args) \<longleftrightarrow>
     (case t of TyFunction tas ret va \<Rightarrow> \<forall>a \<in> set args. map_of vs a \<noteq> None | _ \<Rightarrow> False)"
  unfolding dumpFunctionSignature_def
  by (simp add: prints_isRight dumpList_isRight dump_var_bind del: prints.simps split: ty.splits)

lemma struct_exprs_mem: "e \<in> set (List.map_filter sf_expr fs) \<longleftrightarrow> (\<exists>f \<in> set fs. sf_expr f = Some e)"
  by (induction fs) (auto simp: map_filter_simps split: option.splits)

lemma dump_node_isRight:
  assumes "\<And>c i. c \<in> set (children (ast_node root)) \<Longrightarrow> isRight (dn c i) \<longleftrightarrow> P c"
  shows "isRight (dump_node fmt vs dn root ind) \<longleftrightarrow>
     dumpable vs root \<and> (\<forall>c \<in> set (children (ast_node root)). P c)"
proof -
  note simps = dump_node_def dumpable_def prints_isRight dumpList_isRight dump_var_bind
  show ?thesis
  proof (cases "ast_node root")
    case (FnDecl v tas as att b p m)
    with assms show ?thesis
      by (cases "map_of vs v"; cases b)
        (auto simp: dumpFnDecl_def dump_var_def dumpFunctionSignature_isRight dump_node_def dumpable_def
           prints_isRight simp del: prints.simps split: ty.splits)
  next
    case (VarDecl v e)
    with assms show ?thesis
      by (cases "map_of vs v")
        (auto simp: dumpVarDecl_def dump_var_def dump_node_def dumpable_def prints_isRight simp del: prints.simps)
  next
    case (TyDecl name a d)
    have "isRight (case sf_expr f of Some e \<Rightarrow> prints [Inr '' = '', dn e ind] | None \<Rightarrow> Inr []) \<longleftrightarrow>
        (case sf_expr f of Some e \<Rightarrow> P e | None \<Rightarrow> True)" if "f \<in> set (sd_fields d)" for f
      using assms TyDecl that by (auto simp: prints_isRight struct_exprs_mem simp del: prints.simps split: option.splits)
    with TyDecl show ?thesis
      by (auto simp: simps dumpDef_def struct_exprs_mem simp del: prints.simps split: option.splits)
  next
    case (For v i e b)
    with assms show ?thesis
      by (auto simp: simps dumpFor_def simp del: prints.simps split: option.splits)
  next
    case (If c t e)
    with assms show ?thesis by (cases e) (auto simp: simps dumpIf_def simp del: prints.simps)
  qed (use assms in \<open>auto simp: simps dumpLiteralTuple_def dumpLiteralArray_def dumpLiteralStruct_def
      dumpMember_def dumpBlock_def dumpCall_def dumpUnary_def dumpBinary_def dumpIndex_def dumpAssign_def
      dumpWhile_def simp del: prints.simps\<close>)
qed

lemma dumpNode_isRight: "isRight (dumpNode fmt vs root ind) \<longleftrightarrow> (\<forall>n \<in> set (nodes_of root). dumpable vs n)"
proof (induction root arbitrary: ind rule: nodes_of.induct)
  case (1 root)
  show ?case
    by (subst dumpNode.simps, subst dump_node_isRight [OF 1]) (auto simp: nodes_of.simps [of root])
qed

end
