(* ===== verification/RuntimeIo.thy ===== *)
theory RuntimeIo
  imports Prelude
begin

text \<open>
  Printing in the runtime: \<open>runtime/io.cpp\<close>, over the descriptions of types of \<open>runtime/typeinfo.hpp\<close> and
  the layouts of \<open>runtime/types.hpp\<close>. Memory is a function from addresses to bytes; every address can be
  read. The descriptions are a table by address, for a type can be described in terms of itself. How
  \<open>printf\<close> shows a \<open>float\<close> and a pointer are parameters.
\<close>

type_synonym ptr = "64 word"
type_synonym memory = "ptr \<Rightarrow> 8 word"

section \<open>Layouts\<close>

text \<open>Little endian, as on the only architecture of the runtime.\<close>

definition read32 :: "memory \<Rightarrow> ptr \<Rightarrow> 32 word" where
  "read32 m a = word_rcat [m (a + 3), m (a + 2), m (a + 1), m a]"

definition read64 :: "memory \<Rightarrow> ptr \<Rightarrow> ptr" where
  "read64 m a = word_rcat [m (a + 7), m (a + 6), m (a + 5), m (a + 4), m (a + 3), m (a + 2), m (a + 1), m a]"

definition read_int :: "memory \<Rightarrow> ptr \<Rightarrow> int" where
  "read_int m a = sint (read32 m a)"

text \<open>\<open>AikeString\<close> and \<open>AikeArray\<close>: a pointer and an \<open>int\<close>; \<open>AikeAny\<close>: two pointers.\<close>

definition aike_data :: "memory \<Rightarrow> ptr \<Rightarrow> ptr" where "aike_data m a = read64 m a"
definition aike_size :: "memory \<Rightarrow> ptr \<Rightarrow> int" where "aike_size m a = read_int m (a + 8)"
definition any_type :: "memory \<Rightarrow> ptr \<Rightarrow> ptr" where "any_type m a = read64 m a"
definition any_value :: "memory \<Rightarrow> ptr \<Rightarrow> ptr" where "any_value m a = read64 m (a + 8)"

text \<open>
  \<open>TypeInfo\<close>. The fields are an array whose length is \<open>fieldCount\<close>; \<open>KindOther\<close> stands for a kind that
  is none of the enumeration.
\<close>

datatype type_info =
    KindVoid
  | KindBool
  | KindInteger
  | KindFloat
  | KindString
  | KindTuple "(ptr \<times> 32 word) list"
  | KindArray ptr "32 word"
  | KindPointer ptr
  | KindFunction
  | KindStruct string "(string \<times> ptr \<times> 32 word) list"
  | KindOther

section \<open>Printing\<close>

record formats =
  fmt_g :: "32 word \<Rightarrow> string"
  fmt_p :: "ptr \<Rightarrow> string"

definition byte_char :: "8 word \<Rightarrow> char" where
  "byte_char b = char_of (unat b)"

text \<open>The bytes from an address on up to the first that is zero, which is looked for \<open>n\<close> bytes far.\<close>

fun c_bytes :: "nat \<Rightarrow> memory \<Rightarrow> ptr \<Rightarrow> string" where
  "c_bytes 0 m a = []"
| "c_bytes (Suc n) m a = (if m a = 0 then [] else byte_char (m a) # c_bytes n m (a + 1))"

text \<open>
  \<open>printf("%.*s")\<close>: at most \<open>size\<close> bytes, and none after a zero byte. A precision below zero counts as
  none, and then a string without a zero byte is printed for ever: the search has \<open>k\<close> as its fuel.
\<close>

definition print_string :: "nat \<Rightarrow> memory \<Rightarrow> int \<Rightarrow> ptr \<Rightarrow> string result" where
  "print_string k m n a =
     (if n < 0 then (if length (c_bytes k m a) < k then Inr (c_bytes k m a) else Inl NoFuel)
      else Inr (c_bytes (nat n) m a))"

fun sep_list :: "string \<Rightarrow> string list \<Rightarrow> string" where
  "sep_list sep [] = []"
| "sep_list sep [x] = x"
| "sep_list sep (x # xs) = x @ sep @ sep_list sep xs"

text \<open>The offset of an element is computed as \<open>int\<close>; where that overflows, which C leaves open, it wraps.\<close>

definition element_at :: "ptr \<Rightarrow> nat \<Rightarrow> 32 word \<Rightarrow> ptr" where
  "element_at base i stride = base + scast (of_nat i * stride)"

text \<open>The fuel bounds the depth of the recursion, which nothing bounds in the code.\<close>

fun print_value :: "nat \<Rightarrow> formats \<Rightarrow> (ptr \<Rightarrow> type_info) \<Rightarrow> memory \<Rightarrow> ptr \<Rightarrow> ptr \<Rightarrow> string result" where
  "print_value 0 fm ti m t a = Inl NoFuel"
| "print_value (Suc k) fm ti m t a =
     (case ti t of
        KindVoid \<Rightarrow> Inr ''()''
      | KindBool \<Rightarrow> Inr (if m a \<noteq> 0 then ''true'' else ''false'')
      | KindInteger \<Rightarrow> Inr (show_int (read_int m a))
      | KindFloat \<Rightarrow> Inr (fmt_g fm (read32 m a))
      | KindString \<Rightarrow> print_string k m (aike_size m a) (aike_data m a)
      | KindTuple fs \<Rightarrow>
          bindR (mapR (\<lambda>(ft, off). print_value k fm ti m ft (a + scast off)) fs) (\<lambda>ps.
            Inr (''('' @ sep_list '', '' ps @ '')''))
      | KindArray element stride \<Rightarrow>
          bindR (mapR (\<lambda>i. print_value k fm ti m element (element_at (aike_data m a) i stride)) [0..<nat (aike_size m a)])
            (\<lambda>ps. Inr (''['' @ sep_list '', '' ps @ '']''))
      | KindPointer element \<Rightarrow> Inr (fmt_p fm (read64 m a))
      | KindFunction \<Rightarrow> Inr (''fun('' @ fmt_p fm (read64 m a) @ '')'')
      | KindStruct name fs \<Rightarrow>
          bindR (mapR (\<lambda>(fname, ft, off). bindR (print_value k fm ti m ft (a + scast off)) (\<lambda>p.
                   Inr ('' '' @ fname @ ''='' @ p))) fs) (\<lambda>ps.
            Inr (name @ '' {'' @ concat ps @ '' }''))
      | KindOther \<Rightarrow> Inr ''?'')"

text \<open>The function that programs call: \<open>count\<close> values of any type, from an array of \<open>AikeAny\<close>.\<close>

definition print_any :: "nat \<Rightarrow> formats \<Rightarrow> (ptr \<Rightarrow> type_info) \<Rightarrow> memory \<Rightarrow> ptr \<Rightarrow> 32 word \<Rightarrow> string result" where
  "print_any k fm ti m data count =
     bindR (mapR (\<lambda>i. print_value k fm ti m (any_type m (data + of_nat (16 * i))) (any_value m (data + of_nat (16 * i))))
         [0..<nat (sint count)])
       (\<lambda>ps. Inr (sep_list '' '' ps @ [CHR 0x0A]))"

section \<open>Values\<close>

text \<open>A value of the language, and what it is printed as.\<close>

datatype aike_value =
    VVoid
  | VBool bool
  | VInt int
  | VFloat "32 word"
  | VString string
  | VTuple "aike_value list"
  | VArray "aike_value list"
  | VPointer ptr
  | VFunction ptr
  | VStruct string "(string \<times> aike_value) list"

fun show_value :: "formats \<Rightarrow> aike_value \<Rightarrow> string" where
  "show_value fm VVoid = ''()''"
| "show_value fm (VBool b) = (if b then ''true'' else ''false'')"
| "show_value fm (VInt i) = show_int i"
| "show_value fm (VFloat f) = fmt_g fm f"
| "show_value fm (VString s) = s"
| "show_value fm (VTuple vs) = ''('' @ sep_list '', '' (map (show_value fm) vs) @ '')''"
| "show_value fm (VArray vs) = ''['' @ sep_list '', '' (map (show_value fm) vs) @ '']''"
| "show_value fm (VPointer p) = fmt_p fm p"
| "show_value fm (VFunction p) = ''fun('' @ fmt_p fm p @ '')''"
| "show_value fm (VStruct name fs) =
     name @ '' {'' @ concat (map (\<lambda>(fname, v). '' '' @ fname @ ''='' @ show_value fm v) fs) @ '' }''"

text \<open>
  The value that is stored at an address as a type describes it: numbers at their width, strings as
  their bytes, none of which is zero, arrays behind a pointer, the rest in place.
\<close>

inductive stored :: "(ptr \<Rightarrow> type_info) \<Rightarrow> memory \<Rightarrow> ptr \<Rightarrow> ptr \<Rightarrow> aike_value \<Rightarrow> bool" for ti m where
  "ti t = KindVoid \<Longrightarrow> stored ti m t a VVoid"
| "ti t = KindBool \<Longrightarrow> stored ti m t a (VBool (m a \<noteq> 0))"
| "ti t = KindInteger \<Longrightarrow> stored ti m t a (VInt (read_int m a))"
| "ti t = KindFloat \<Longrightarrow> stored ti m t a (VFloat (read32 m a))"
| "ti t = KindString \<Longrightarrow> aike_size m a = int (length s) \<Longrightarrow>
     (\<forall>i < length s. m (aike_data m a + of_nat i) \<noteq> 0 \<and> byte_char (m (aike_data m a + of_nat i)) = s ! i) \<Longrightarrow>
     stored ti m t a (VString s)"
| "ti t = KindTuple fs \<Longrightarrow> length vs = length fs \<Longrightarrow>
     (\<forall>i < length vs. stored ti m (fst (fs ! i)) (a + scast (snd (fs ! i))) (vs ! i)) \<Longrightarrow>
     stored ti m t a (VTuple vs)"
| "ti t = KindArray element stride \<Longrightarrow> aike_size m a = int (length vs) \<Longrightarrow>
     (\<forall>i < length vs. stored ti m element (element_at (aike_data m a) i stride) (vs ! i)) \<Longrightarrow>
     stored ti m t a (VArray vs)"
| "ti t = KindPointer element \<Longrightarrow> stored ti m t a (VPointer (read64 m a))"
| "ti t = KindFunction \<Longrightarrow> stored ti m t a (VFunction (read64 m a))"
| "ti t = KindStruct name fs \<Longrightarrow> map fst vs = map fst fs \<Longrightarrow>
     (\<forall>i < length vs. stored ti m (fst (snd (fs ! i))) (a + scast (snd (snd (fs ! i)))) (snd (vs ! i))) \<Longrightarrow>
     stored ti m t a (VStruct name vs)"

text \<open>How deep values lie in one another.\<close>

fun nesting :: "aike_value \<Rightarrow> nat" where
  "nesting (VTuple vs) = Suc (foldr max (map nesting vs) 0)"
| "nesting (VArray vs) = Suc (foldr max (map nesting vs) 0)"
| "nesting (VStruct name fs) = Suc (foldr max (map (\<lambda>(fname, v). nesting v) fs) 0)"
| "nesting v = 0"

lemma foldr_max_less: "foldr max ns 0 < (k::nat) \<Longrightarrow> n \<in> set ns \<Longrightarrow> n < k"
  by (induction ns) auto

section \<open>Printing shows what is stored\<close>

lemma c_bytes_stored:
  "(\<forall>i < length s. m (a + of_nat i) \<noteq> 0 \<and> byte_char (m (a + of_nat i)) = s ! i) \<Longrightarrow> c_bytes (length s) m a = s"
proof (induction s arbitrary: a)
  case (Cons c s)
  have "m a \<noteq> 0" "byte_char (m a) = c" using Cons.prems [rule_format, of 0] by simp_all
  moreover have "c_bytes (length s) m (a + 1) = s"
  proof (rule Cons.IH, intro allI impI)
    fix i assume "i < length s"
    with Cons.prems [rule_format, of "Suc i"]
    show "m (a + 1 + of_nat i) \<noteq> 0 \<and> byte_char (m (a + 1 + of_nat i)) = s ! i"
      by (simp add: add.assoc)
  qed
  ultimately show ?case by simp
qed simp

lemma mapR_all2:
  "list_all2 (\<lambda>x y. f x = Inr (g y)) xs ys \<Longrightarrow> mapR f xs = Inr (map g ys)"
  by (induction rule: list_all2_induct) simp_all

lemma nesting_nth: "foldr max (map nesting vs) 0 < j \<Longrightarrow> i < length vs \<Longrightarrow> nesting (vs ! i) < j"
  by (erule foldr_max_less) simp

lemma print_value_stored:
  "stored ti m t a v \<Longrightarrow> nesting v < k \<Longrightarrow> print_value k fm ti m t a = Inr (show_value fm v)"
proof (induction arbitrary: k rule: stored.induct)
  case (5 t a s)
  then show ?case by (cases k) (simp_all add: print_string_def c_bytes_stored)
next
  case (6 t fs vs a)
  then obtain j where k: "k = Suc j" by (cases k) auto
  have "list_all2 (\<lambda>x v. (\<lambda>(ft, off). print_value j fm ti m ft (a + scast off)) x = Inr (show_value fm v)) fs vs"
    unfolding list_all2_conv_all_nth
  proof (intro conjI allI impI)
    fix i assume "i < length fs"
    then have "print_value j fm ti m (fst (fs ! i)) (a + scast (snd (fs ! i))) = Inr (show_value fm (vs ! i))"
      using 6(2,3) "6.prems" k by (simp add: nesting_nth)
    then show "(case fs ! i of (ft, off) \<Rightarrow> print_value j fm ti m ft (a + scast off)) = Inr (show_value fm (vs ! i))"
      by (simp add: case_prod_beta)
  qed (simp add: 6(2))
  from mapR_all2 [OF this] 6(1) k show ?case by simp
next
  case (7 t element stride a vs)
  then obtain j where k: "k = Suc j" by (cases k) auto
  have "list_all2 (\<lambda>i v. print_value j fm ti m element (element_at (aike_data m a) i stride) = Inr (show_value fm v))
      [0..<length vs] vs"
    using 7(3) "7.prems" k by (simp add: list_all2_conv_all_nth nesting_nth)
  from mapR_all2 [OF this] 7(1,2) k show ?case by simp
next
  case (10 t name fs vs a)
  then obtain j where k: "k = Suc j" by (cases k) auto
  have len: "length vs = length fs" using 10(2) by (rule map_eq_imp_length_eq)
  have "list_all2 (\<lambda>x f. (\<lambda>(fname, ft, off). bindR (print_value j fm ti m ft (a + scast off)) (\<lambda>p.
      Inr ('' '' @ fname @ ''='' @ p))) x = Inr ((\<lambda>(fname, v). '' '' @ fname @ ''='' @ show_value fm v) f)) fs vs"
    unfolding list_all2_conv_all_nth
  proof (intro conjI allI impI)
    fix i assume i: "i < length fs"
    have "nesting (snd (vs ! i)) < j"
      by (rule foldr_max_less [of "map (\<lambda>(fname, v). nesting v) vs"])
        (use "10.prems" k i len in \<open>auto simp: case_prod_beta\<close>)
    then have "print_value j fm ti m (fst (snd (fs ! i))) (a + scast (snd (snd (fs ! i)))) = Inr (show_value fm (snd (vs ! i)))"
      using 10(3) i len by simp
    moreover have "fst (vs ! i) = fst (fs ! i)" using 10(2) i len by (metis nth_map)
    ultimately show "(case fs ! i of (fname, ft, off) \<Rightarrow> bindR (print_value j fm ti m ft (a + scast off)) (\<lambda>p.
        Inr ('' '' @ fname @ ''='' @ p))) = Inr (case vs ! i of (fname, v) \<Rightarrow> '' '' @ fname @ ''='' @ show_value fm v)"
      by (simp add: case_prod_beta)
  qed (simp add: len)
  from mapR_all2 [OF this] 10(1) k show ?case by simp
next
  case (1 t a)
  then show ?case by (cases k) simp_all
next
  case (2 t a)
  then show ?case by (cases k) simp_all
next
  case (3 t a)
  then show ?case by (cases k) simp_all
next
  case (4 t a)
  then show ?case by (cases k) simp_all
next
  case (8 t element a)
  then show ?case by (cases k) simp_all
next
  case (9 t a)
  then show ?case by (cases k) simp_all
qed

section \<open>Properties\<close>

text \<open>
  C35: Printing shows what is stored: where each \<open>AikeAny\<close> of the array points to a type and to a value of
  this type, the call prints these values in order, separated by spaces and ended by a newline, with the
  fields of tuples and structs, the elements of arrays and the bytes of strings read from where the
  descriptions of the types say. It ends at a depth that is the nesting of the values.
\<close>

theorem print_shows_stored:
  assumes "sint count = int (length vs)"
    "\<And>i. i < length vs \<Longrightarrow>
       stored ti m (any_type m (data + of_nat (16 * i))) (any_value m (data + of_nat (16 * i))) (vs ! i) \<and>
       nesting (vs ! i) < k"
  shows "print_any k fm ti m data count = Inr (sep_list '' '' (map (show_value fm) vs) @ [CHR 0x0A])"
proof -
  have "list_all2 (\<lambda>i v. print_value k fm ti m (any_type m (data + of_nat (16 * i)))
      (any_value m (data + of_nat (16 * i))) = Inr (show_value fm v)) [0..<length vs] vs"
    unfolding list_all2_conv_all_nth using assms(2) by (simp add: print_value_stored)
  from mapR_all2 [OF this] assms(1) show ?thesis by (simp add: print_any_def)
qed

lemma print_shows_stored_witness:
  "print_any 1 \<lparr>fmt_g = (\<lambda>_. []), fmt_p = (\<lambda>_. [])\<rparr> (\<lambda>_. KindInteger) (\<lambda>a. if a = 8 then 16 else if a = 16 then 42 else 0) 0 1
     = Inr [CHR ''4'', CHR ''2'', CHR 0x0A]"
proof -
  let ?m = "\<lambda>a::ptr. if a = 8 then 16 else if a = 16 then 42 else (0 :: 8 word)"
  have "any_value ?m 0 = 16 \<and> read_int ?m 16 = 42" by code_simp
  then have "stored (\<lambda>_. KindInteger) ?m t (any_value ?m 0) (VInt 42)" for t
    using stored.intros(3) [of "\<lambda>_. KindInteger" t ?m 16] by simp
  then have "print_any 1 \<lparr>fmt_g = (\<lambda>_. []), fmt_p = (\<lambda>_. [])\<rparr> (\<lambda>_. KindInteger) ?m 0 1 =
      Inr (sep_list '' '' (map (show_value \<lparr>fmt_g = (\<lambda>_. []), fmt_p = (\<lambda>_. [])\<rparr>) [VInt 42]) @ [CHR 0x0A])"
    by (intro print_shows_stored) simp_all
  also have "sep_list '' '' (map (show_value \<lparr>fmt_g = (\<lambda>_. []), fmt_p = (\<lambda>_. [])\<rparr>) [VInt 42]) = ''42''" by code_simp
  finally show ?thesis by simp
qed

text \<open>
  A struct with an array of structs of its type, whose first element it is itself: an assignment to the
  element makes one. Printing it does not end, at no depth.
\<close>

lemma print_cyclic_struct:
  assumes "ti s = KindStruct name [(fname, t, 0)]" "ti t = KindArray s stride"
    "aike_size m a \<ge> 1" "aike_data m a = a"
  shows "print_value k fm ti m s a = Inl NoFuel \<and> print_value k fm ti m t a = Inl NoFuel"
proof (induction k)
  case (Suc k)
  have "[0..<nat (aike_size m a)] = 0 # [1..<nat (aike_size m a)]" using assms(3) by (simp add: upt_rec)
  with Suc assms show ?case by (simp add: element_at_def)
qed simp

end
