(* ===== verification/Builder.thy ===== *)
theory Builder
  imports Ast Output Mangle
begin

text \<open>
  What the code generator asks of LLVM. LLVM is not part of the repository, so its calls are recorded
  rather than carried out: an instruction is the call of \<open>IRBuilder\<close> that makes it, kept in the basic
  block that is the insertion point at the call, and a value is named by the call it comes from. The
  only facts on LLVM in here are which type the value of a call has and which block a call adds to, as
  its reference states them. The builder may fold a call on constants; the record keeps the call.
\<close>

section \<open>Types and values\<close>

text \<open>A named struct is referred to by its name; its body is kept with the module.\<close>

datatype lty =
    LVoid
  | LInt nat
  | LFloat
  | LPtr lty
  | LStruct "lty list"
  | LArray nat lty
  | LNamed str
  | LFun lty "lty list"

datatype val =
    VUndef lty
  | VInt lty int
  | VFloat str
  | VString str
  | VNull lty
  | VSizeOf lty
  | VStruct "val list"
  | VArray "val list"
  | VGlobal str lty
  | VCast val lty
  | VParam str nat lty
  | VInst nat lty

abbreviation i1 :: lty where "i1 \<equiv> LInt 1"
abbreviation i8p :: lty where "i8p \<equiv> LPtr (LInt 8)"
abbreviation i32 :: lty where "i32 \<equiv> LInt 32"

fun val_type :: "val \<Rightarrow> lty" where
  "val_type (VUndef t) = t"
| "val_type (VInt t i) = t"
| "val_type (VFloat x) = LFloat"
| "val_type (VString s) = i8p"
| "val_type (VNull t) = t"
| "val_type (VSizeOf t) = LInt 64"
| "val_type (VStruct vs) = LStruct (map val_type vs)"
| "val_type (VArray vs) = LArray (length vs) (case vs of v # _ \<Rightarrow> val_type v | [] \<Rightarrow> LVoid)"
| "val_type (VGlobal g t) = t"
| "val_type (VCast v t) = t"
| "val_type (VParam f i t) = t"
| "val_type (VInst i t) = t"

definition vi32 :: "int \<Rightarrow> val" where "vi32 i = VInt i32 i"

datatype cmp_pred = ICmpUGE | ICmpSGT | ICmpSLT

text \<open>
  What \<open>DIBuilder\<close> makes: types, with the type \<open>void\<close> as a null pointer where a type is optional; a struct
  of the program is named by the metadata node that holds it. Scopes, variables and locations.
\<close>

datatype dtype =
    DBasic str nat str
  | DPointer "dtype option" int
  | DStruct str int "(str \<times> int \<times> int \<times> dtype option) list"
  | DSubroutine "dtype option list"
  | DNamed str

type_synonym dmember = "str \<times> int \<times> int \<times> dtype option"

datatype dscope =
    DCompileUnit str bool
  | DSubprogram dscope str str int dtype

datatype dvar =
    DAuto dscope str str int "dtype option"
  | DParam dscope str nat str int "dtype option"

datatype dloc = DLoc (dl_line: int) (dl_column: int) (dl_scope: dscope)

text \<open>The calls of \<open>IRBuilder\<close>, and \<open>insertDeclare\<close> of \<open>DIBuilder\<close>; blocks are numbers.\<close>

datatype op =
    OInsertValue val val nat
  | OExtractValue val nat
  | OLoad val
  | OStore val val
  | OGEP val val
  | OConstGEP1 val nat
  | OConstGEP2 val nat nat
  | OStructGEP val nat
  | OCall val "val list"
  | OICmp cmp_pred val val
  | OAdd val val
  | ONot val
  | OBitCast val lty
  | OPointerCast val lty
  | OIntCast val lty
  | OAlloca lty "val option"
  | OPhi lty
  | ODeclare val dvar
  | OBr nat
  | OCondBr val nat nat
  | ORet val
  | ORetVoid
  | OUnreachable

fun is_term :: "op \<Rightarrow> bool" where
  "is_term (OBr b) = True"
| "is_term (OCondBr v a b) = True"
| "is_term (ORet v) = True"
| "is_term ORetVoid = True"
| "is_term OUnreachable = True"
| "is_term _ = False"

fun targets :: "op \<Rightarrow> nat list" where
  "targets (OBr b) = [b]"
| "targets (OCondBr v a b) = [a, b]"
| "targets _ = []"

section \<open>The state of the generator\<close>

record bblock =
  bb_fun :: "str option"
  bb_body :: "(nat \<times> op) list"

record func =
  fn_name :: str
  fn_type :: lty
  fn_blocks :: "nat list"
  fn_asm :: "str option"
  fn_inline :: bool
  fn_subprogram :: "dscope option"

text \<open>
  \<open>Ast::FnDecl\<close>, with its variable and the address of it; the declaration that the generator makes for
  a module has a variable that is in no store and so has no address.
\<close>

record fn_decl =
  fd_addr :: "addr option"
  fd_name :: str
  fd_type :: "ty option"
  fd_location :: location
  fd_tyargs :: "ty list"
  fd_args :: "addr list"
  fd_attributes :: nat
  fd_body :: "ast option"
  fd_parent :: "addr option"
  fd_module :: "str option"

text \<open>\<open>FunctionInstance\<close>: its function by name and type, the declaration, the parent, the generics.\<close>

datatype fn_inst = FnInst (in_name: str) (in_type: lty) (in_decl: fn_decl) (in_parent: "fn_inst option") (in_generics: "(ty \<times> ty) list")

text \<open>
  \<open>Codegen\<close>, and the module: its named types, the descriptions of types by their symbol, its functions,
  their blocks, the next number of a call and the incoming values of phi nodes. Of debug information: the
  builder's current location, \<open>debugBlocks\<close> (the innermost scope last), the locations of the calls by their
  numbers, the latest first, and the structs by the name of their metadata nodes.
\<close>

record cg =
  cg_output :: outp
  cg_fresh :: addr
  cg_vars :: "(addr \<times> val) list"
  cg_pending :: "fn_inst list"
  cg_types :: "(str \<times> lty list option) list"
  cg_infos :: "(str \<times> val option) list"
  cg_funs :: "func list"
  cg_blocks :: "bblock list"
  cg_insert :: "nat option"
  cg_calls :: nat
  cg_phis :: "(nat \<times> val \<times> nat) list"
  cg_loc :: "dloc option"
  cg_scopes :: "dscope list"
  cg_locs :: "(nat \<times> dloc) list"
  cg_dstructs :: "(str \<times> str \<times> int \<times> dmember list) list"

type_synonym 'a cgm = "cg \<Rightarrow> ('a \<times> cg) result"

definition unitC :: "'a \<Rightarrow> 'a cgm" where
  "unitC x = (\<lambda>s. Inr (x, s))"

definition failC :: "failure \<Rightarrow> 'a cgm" where
  "failC e = (\<lambda>s. Inl e)"

definition bindC :: "'a cgm \<Rightarrow> ('a \<Rightarrow> 'b cgm) \<Rightarrow> 'b cgm" where
  "bindC m f = (\<lambda>s. bindR (m s) (\<lambda>(x, s'). f x s'))"

definition assertC :: "bool \<Rightarrow> unit cgm" where
  "assertC b = (if b then unitC () else failC AssertFail)"

definition liftC :: "'a result \<Rightarrow> 'a cgm" where
  "liftC r = (\<lambda>s. bindR r (\<lambda>x. Inr (x, s)))"

definition getC :: "(cg \<Rightarrow> 'a) \<Rightarrow> 'a cgm" where
  "getC f = (\<lambda>s. Inr (f s, s))"

definition modifyC :: "(cg \<Rightarrow> cg) \<Rightarrow> unit cgm" where
  "modifyC f = (\<lambda>s. Inr ((), f s))"

fun mapC :: "('a \<Rightarrow> 'b cgm) \<Rightarrow> 'a list \<Rightarrow> 'b list cgm" where
  "mapC f [] = unitC []"
| "mapC f (x # xs) = bindC (f x) (\<lambda>y. bindC (mapC f xs) (\<lambda>ys. unitC (y # ys)))"

fun foldC :: "('a \<Rightarrow> 'b \<Rightarrow> 'b cgm) \<Rightarrow> 'a list \<Rightarrow> 'b \<Rightarrow> 'b cgm" where
  "foldC f [] y = unitC y"
| "foldC f (x # xs) y = bindC (f x y) (foldC f xs)"

section \<open>Calls\<close>

text \<open>The types of the parts of an aggregate; of a named struct, those of its body.\<close>

definition parts_of :: "lty \<Rightarrow> lty list cgm" where
  "parts_of t =
     (case t of
        LStruct ts \<Rightarrow> unitC ts
      | LNamed nm \<Rightarrow>
          bindC (getC (\<lambda>s. map_of (cg_types s) nm)) (\<lambda>b.
            case b of Some (Some ts) \<Rightarrow> unitC ts | _ \<Rightarrow> failC AssertFail)
      | _ \<Rightarrow> failC AssertFail)"

definition part_type :: "lty \<Rightarrow> nat \<Rightarrow> lty cgm" where
  "part_type t i = bindC (parts_of t) (\<lambda>ts. bindC (assertC (i < length ts)) (\<lambda>_. unitC (ts ! i)))"

definition pointee :: "lty \<Rightarrow> lty cgm" where
  "pointee t = (case t of LPtr u \<Rightarrow> unitC u | _ \<Rightarrow> failC AssertFail)"

text \<open>The type of the value of a call.\<close>

definition op_type :: "op \<Rightarrow> lty cgm" where
  "op_type c =
     (case c of
        OInsertValue a v i \<Rightarrow> unitC (val_type a)
      | OExtractValue a i \<Rightarrow> part_type (val_type a) i
      | OLoad p \<Rightarrow> pointee (val_type p)
      | OGEP p i \<Rightarrow> unitC (val_type p)
      | OConstGEP1 p i \<Rightarrow> unitC (val_type p)
      | OConstGEP2 p i j \<Rightarrow> bindC (pointee (val_type p)) (\<lambda>t. bindC (part_type t j) (\<lambda>u. unitC (LPtr u)))
      | OStructGEP p i \<Rightarrow> bindC (pointee (val_type p)) (\<lambda>t. bindC (part_type t i) (\<lambda>u. unitC (LPtr u)))
      | OCall f vs \<Rightarrow>
          bindC (pointee (val_type f)) (\<lambda>t. case t of LFun r ts \<Rightarrow> unitC r | _ \<Rightarrow> failC AssertFail)
      | OICmp p a b \<Rightarrow> unitC i1
      | OAdd a b \<Rightarrow> unitC (val_type a)
      | ONot a \<Rightarrow> unitC (val_type a)
      | OBitCast v t \<Rightarrow> unitC t
      | OPointerCast v t \<Rightarrow> unitC t
      | OIntCast v t \<Rightarrow> unitC t
      | OAlloca t n \<Rightarrow> unitC (LPtr t)
      | OPhi t \<Rightarrow> unitC t
      | _ \<Rightarrow> unitC LVoid)"

definition set_block :: "nat \<Rightarrow> (bblock \<Rightarrow> bblock) \<Rightarrow> cg \<Rightarrow> cg" where
  "set_block b f s = s\<lparr>cg_blocks := (cg_blocks s)[b := f (cg_blocks s ! b)]\<rparr>"

definition GetInsertBlock :: "nat cgm" where
  "GetInsertBlock =
     bindC (getC cg_insert) (\<lambda>b. case b of Some b \<Rightarrow> unitC b | None \<Rightarrow> failC NullDeref)"

definition SetInsertPoint :: "nat \<Rightarrow> unit cgm" where
  "SetInsertPoint b = modifyC (cg_insert_update (\<lambda>_. Some b))"

text \<open>An instruction gets the builder's current location, if there is one.\<close>

definition note_loc :: "nat \<Rightarrow> cg \<Rightarrow> cg" where
  "note_loc n s = s\<lparr>cg_locs := (case cg_loc s of Some l \<Rightarrow> (n, l) # cg_locs s | None \<Rightarrow> cg_locs s)\<rparr>"

text \<open>A call that makes an instruction at the end of the insertion point.\<close>

definition emit :: "op \<Rightarrow> val cgm" where
  "emit c =
     bindC GetInsertBlock (\<lambda>b.
     bindC (op_type c) (\<lambda>t.
     bindC (getC cg_calls) (\<lambda>n.
     bindC (modifyC (\<lambda>s. note_loc n ((set_block b (bb_body_update (\<lambda>is. is @ [(n, c)])) s)\<lparr>cg_calls := n + 1\<rparr>))) (\<lambda>_.
       unitC (VInst n t)))))"

definition emitU :: "op \<Rightarrow> unit cgm" where
  "emitU c = bindC (emit c) (\<lambda>_. unitC ())"

text \<open>A block that no function has yet.\<close>

definition CreateBlock :: "nat cgm" where
  "CreateBlock =
     bindC (getC (\<lambda>s. length (cg_blocks s))) (\<lambda>b.
     bindC (modifyC (cg_blocks_update (\<lambda>bs. bs @ [\<lparr>bb_fun = None, bb_body = []\<rparr>]))) (\<lambda>_. unitC b))"

definition parent_of :: "nat \<Rightarrow> str cgm" where
  "parent_of b =
     bindC (getC (\<lambda>s. bb_fun (cg_blocks s ! b))) (\<lambda>f. case f of Some f \<Rightarrow> unitC f | None \<Rightarrow> failC NullDeref)"

definition update_fun :: "str \<Rightarrow> (func \<Rightarrow> func) \<Rightarrow> cg \<Rightarrow> cg" where
  "update_fun nm f s = s\<lparr>cg_funs := map (\<lambda>g. if fn_name g = nm then f g else g) (cg_funs s)\<rparr>"

text \<open>\<open>push_back\<close> on the list of blocks of a function.\<close>

definition push_block :: "str \<Rightarrow> nat \<Rightarrow> unit cgm" where
  "push_block f b =
     modifyC (\<lambda>s. update_fun f (fn_blocks_update (\<lambda>bs. bs @ [b])) (set_block b (bb_fun_update (\<lambda>_. Some f)) s))"

text \<open>The usual two steps: the block goes to the function and becomes the insertion point.\<close>

definition enter_block :: "str \<Rightarrow> nat \<Rightarrow> unit cgm" where
  "enter_block f b = bindC (push_block f b) (\<lambda>_. SetInsertPoint b)"

definition find_fun :: "str \<Rightarrow> cg \<Rightarrow> func option" where
  "find_fun nm s = find (\<lambda>g. fn_name g = nm) (cg_funs s)"

definition CreateFunction :: "str \<Rightarrow> lty \<Rightarrow> val cgm" where
  "CreateFunction nm t =
     bindC (modifyC (cg_funs_update (\<lambda>fs. fs @ [\<lparr>fn_name = nm, fn_type = t, fn_blocks = [], fn_asm = None, fn_inline = False, fn_subprogram = None\<rparr>])))
       (\<lambda>_. unitC (VGlobal nm (LPtr t)))"

definition getOrInsertFunction :: "str \<Rightarrow> lty \<Rightarrow> val cgm" where
  "getOrInsertFunction nm t =
     bindC (getC (find_fun nm)) (\<lambda>f.
       case f of
         Some g \<Rightarrow> unitC (if fn_type g = t then VGlobal nm (LPtr t) else VCast (VGlobal nm (LPtr (fn_type g))) (LPtr t))
       | None \<Rightarrow> CreateFunction nm t)"

text \<open>\<open>addIncoming\<close> on the phi node a value names.\<close>

definition addIncoming :: "val \<Rightarrow> val \<Rightarrow> nat \<Rightarrow> unit cgm" where
  "addIncoming phi v b =
     (case phi of
        VInst n t \<Rightarrow> modifyC (cg_phis_update (\<lambda>ps. ps @ [(n, v, b)]))
      | _ \<Rightarrow> failC AssertFail)"

section \<open>Debug locations\<close>

definition set_loc :: "dloc option \<Rightarrow> unit cgm" where
  "set_loc l = modifyC (cg_loc_update (\<lambda>_. l))"

text \<open>\<open>debugBlocks.back()\<close>.\<close>

definition back_scope :: "dscope cgm" where
  "back_scope = bindC (getC cg_scopes) (\<lambda>ss. if ss = [] then failC NullDeref else unitC (last ss))"

text \<open>A place in the source, as a location in the innermost scope; lines and columns count from one there.\<close>

definition at_location :: "location \<Rightarrow> 'a cgm \<Rightarrow> 'a cgm" where
  "at_location loc m =
     bindC (getC cg_loc) (\<lambda>old.
     bindC back_scope (\<lambda>scope.
     bindC (set_loc (Some (DLoc (l_line loc + 1) (l_column loc + 1) scope))) (\<lambda>_.
     bindC m (\<lambda>x.
     bindC (set_loc old) (\<lambda>_. unitC x)))))"

end
