(* ===== verification/Codegen.thy ===== *)
theory Codegen
  imports Builder
begin

text \<open>
  Code generation: \<open>compiler/codegen.cpp\<close>, over the calls of \<open>Builder\<close>: types, their descriptions for the
  runtime and for the debugger, and the helpers of expressions. Fuel bounds the depth of the recursions over types and over expressions, since a struct's
  fields and the defaults of its literals are found through its definition, and the number of functions
  that are generated, since each may ask for more.
\<close>

section \<open>What does not change while a function is generated\<close>

text \<open>
  \<open>ge_inst\<close> is \<open>currentFunction\<close>. The layout of types, their printing and the parser of LLVM assembly are
  parameters; the parser answers nothing, or an error with the offset, the line and the column it is at.
\<close>

record asm_error =
  ae_offset :: nat
  ae_line :: int
  ae_column :: int
  ae_message :: str

record genv =
  ge_defs :: "addr \<Rightarrow> ast tydef option"
  ge_fns :: "addr \<Rightarrow> fn_decl option"
  ge_vars :: "(addr \<times> variable) list"
  ge_inst :: "fn_inst option"
  ge_offset :: "lty \<Rightarrow> nat \<Rightarrow> int"
  ge_size :: "lty \<Rightarrow> int"
  ge_type_name :: "lty \<Rightarrow> str"
  ge_asm :: "str \<Rightarrow> asm_error option"
  ge_debug :: int
  ge_bits :: "lty \<Rightarrow> int"
  ge_pointer_bits :: int

datatype codegen_kind = KindVal | KindRef

fun getGenericInstance :: "fn_inst option \<Rightarrow> addr \<Rightarrow> ty result" where
  "getGenericInstance None a = Inl (ICE ''Generic type was not instantiated'')"
| "getGenericInstance (Some (FnInst nm t d p gs)) a =
     (case find (\<lambda>g. generic_addr (fst g) = Some a) gs of
        Some g \<Rightarrow> Inr (snd g)
      | None \<Rightarrow> getGenericInstance p a)"

fun getFunctionInstance :: "fn_inst option \<Rightarrow> addr option \<Rightarrow> fn_inst option" where
  "getFunctionInstance None a = None"
| "getFunctionInstance (Some (FnInst nm t d p gs)) a =
     (if a \<noteq> None \<and> fd_addr d = a then Some (FnInst nm t d p gs) else getFunctionInstance p a)"

definition tryGetGenericInstance :: "fn_inst option \<Rightarrow> ty \<Rightarrow> ty option result" where
  "tryGetGenericInstance i t =
     (case t of
        TyInstance a nm loc as df (Some g) \<Rightarrow> bindR (getGenericInstance i g) (\<lambda>u. Inr (Some u))
      | _ \<Rightarrow> Inr None)"

definition any_lty :: lty where "any_lty = LStruct [i8p, i8p]"

definition member_type :: "genv \<Rightarrow> ty \<Rightarrow> nat \<Rightarrow> ty cgm" where
  "member_type g t i =
     (\<lambda>s. bindR (typeMember (ge_defs g) t (int i) (cg_fresh s)) (\<lambda>(u, nxt). Inr (u, s\<lparr>cg_fresh := nxt\<rparr>)))"

definition set_struct_body :: "str \<Rightarrow> lty list option \<Rightarrow> unit cgm" where
  "set_struct_body nm b = modifyC (\<lambda>s. s\<lparr>cg_types := (nm, b) # cg_types s\<rparr>)"

fun codegenType :: "nat \<Rightarrow> genv \<Rightarrow> ty \<Rightarrow> lty cgm" where
  "codegenType 0 g t = failC NoFuel"
| "codegenType (Suc k) g t =
     bindC (liftC (tryGetGenericInstance (ge_inst g) t)) (\<lambda>inst.
       case inst of
         Some u \<Rightarrow> codegenType k g u
       | None \<Rightarrow>
           (case t of
              TyVoid \<Rightarrow> unitC LVoid
            | TyBool \<Rightarrow> unitC i1
            | TyInteger \<Rightarrow> unitC i32
            | TyFloat \<Rightarrow> unitC LFloat
            | TyString \<Rightarrow> unitC (LStruct [i8p, i32])
            | TyTuple fs \<Rightarrow> bindC (mapC (codegenType k g) fs) (\<lambda>ts. unitC (LStruct ts))
            | TyArray e \<Rightarrow> bindC (codegenType k g e) (\<lambda>u. unitC (LStruct [LPtr u, i32]))
            | TyPointer e \<Rightarrow> bindC (codegenType k g e) (\<lambda>u. unitC (LPtr u))
            | TyFunction as r v \<Rightarrow>
                bindC (codegenType k g r) (\<lambda>ret.
                bindC (mapC (codegenType k g) as) (\<lambda>args.
                  unitC (LPtr (LFun ret (args @ (if v then [LPtr any_lty, i32] else []))))))
            | TyInstance a nm loc as df gen \<Rightarrow>
                (case Option.bind df (ge_defs g) of
                   None \<Rightarrow> failC AssertFail
                 | Some d \<Rightarrow>
                     bindC (liftC (mangleType k (getGenericInstance (ge_inst g)) t)) (\<lambda>name.
                     bindC (getC (\<lambda>s. map_of (cg_types s) name)) (\<lambda>known.
                       case known of
                         Some b \<Rightarrow> unitC (LNamed name)
                       | None \<Rightarrow>
                           bindC (set_struct_body name None) (\<lambda>_.
                           bindC (mapC (\<lambda>i. bindC (member_type g t i) (codegenType k g)) [0..<length (sd_fields d)]) (\<lambda>ts.
                           bindC (set_struct_body name (Some ts)) (\<lambda>_. unitC (LNamed name)))))))
            | _ \<Rightarrow> failC (ICE ''Unknown Ty kind'')))"

section \<open>Descriptions of types\<close>

definition set_info :: "str \<Rightarrow> val option \<Rightarrow> unit cgm" where
  "set_info nm d = modifyC (\<lambda>s. s\<lparr>cg_infos := (nm, d) # cg_infos s\<rparr>)"

definition info_ref :: "str \<Rightarrow> val" where "info_ref name = VGlobal name i8p"

definition codegenMakeTypeInfo :: "str \<Rightarrow> val \<Rightarrow> val cgm" where
  "codegenMakeTypeInfo name d = bindC (set_info name (Some d)) (\<lambda>_. unitC (info_ref name))"

fun codegenTypeInfo :: "nat \<Rightarrow> genv \<Rightarrow> ty \<Rightarrow> val cgm" where
  "codegenTypeInfo 0 g t = failC NoFuel"
| "codegenTypeInfo (Suc k) g t =
     bindC (liftC (tryGetGenericInstance (ge_inst g) t)) (\<lambda>inst.
       case inst of
         Some u \<Rightarrow> codegenTypeInfo k g u
       | None \<Rightarrow>
           bindC (liftC (mangleTypeInfo k (getGenericInstance (ge_inst g)) t)) (\<lambda>name.
           bindC (getC (\<lambda>s. map_of (cg_infos s) name)) (\<lambda>known.
             if known \<noteq> None then unitC (info_ref name)
             else case t of
               TyVoid \<Rightarrow> codegenMakeTypeInfo name (VStruct [vi32 0])
             | TyBool \<Rightarrow> codegenMakeTypeInfo name (VStruct [vi32 1])
             | TyInteger \<Rightarrow> codegenMakeTypeInfo name (VStruct [vi32 2])
             | TyFloat \<Rightarrow> codegenMakeTypeInfo name (VStruct [vi32 3])
             | TyString \<Rightarrow> codegenMakeTypeInfo name (VStruct [vi32 4])
             | TyTuple fs \<Rightarrow>
                 bindC (codegenType k g t) (\<lambda>sty.
                 bindC (mapC (\<lambda>i. bindC (codegenTypeInfo k g (fs ! i)) (\<lambda>ft.
                     unitC (VStruct [ft, vi32 (ge_offset g sty i)]))) [0..<length fs]) (\<lambda>cs.
                 bindC (assertC (cs \<noteq> [])) (\<lambda>_.
                   codegenMakeTypeInfo name (VStruct [vi32 5, vi32 (int (length cs)), VArray cs]))))
             | TyArray e \<Rightarrow>
                 bindC (codegenType k g e) (\<lambda>ety.
                 bindC (codegenTypeInfo k g e) (\<lambda>element.
                   codegenMakeTypeInfo name (VStruct [vi32 6, element, vi32 (ge_size g ety)])))
             | TyPointer e \<Rightarrow>
                 bindC (codegenTypeInfo k g e) (\<lambda>element.
                   codegenMakeTypeInfo name (VStruct [vi32 7, element]))
             | TyFunction as r v \<Rightarrow> codegenMakeTypeInfo name (VStruct [vi32 8])
             | TyInstance a nm loc as df gen \<Rightarrow>
                 (case Option.bind df (ge_defs g) of
                    None \<Rightarrow> failC AssertFail
                  | Some d \<Rightarrow>
                      bindC (set_info name None) (\<lambda>_.
                      bindC (codegenType k g t) (\<lambda>sty.
                      bindC (mapC (\<lambda>i. bindC (member_type g t i) (\<lambda>mt.
                          bindC (codegenTypeInfo k g mt) (\<lambda>ft.
                            unitC (VStruct [VString (sf_name (sd_fields d ! i)), ft, vi32 (ge_offset g sty i)]))))
                          [0..<length (sd_fields d)]) (\<lambda>cs.
                      codegenMakeTypeInfo name
                        (VStruct [vi32 9, VString nm, vi32 (int (length cs)), VArray cs])))))
             | _ \<Rightarrow> failC (ICE ''Unknown Ty kind''))))"

section \<open>Types for the debugger\<close>

definition debug_int :: dtype where "debug_int = DBasic ''int'' 32 ''DW_ATE_signed''"

text \<open>\<open>createMemberType\<close> of part \<open>i\<close> of an aggregate: its size and its offset in bits.\<close>

definition debug_member :: "genv \<Rightarrow> lty \<Rightarrow> str \<Rightarrow> nat \<Rightarrow> dtype option \<Rightarrow> dmember cgm" where
  "debug_member g sty nm i dty =
     bindC (part_type sty i) (\<lambda>t. unitC (nm, ge_bits g t, ge_offset g sty i * 8, dty))"

definition set_dstruct :: "str \<Rightarrow> str \<Rightarrow> int \<Rightarrow> dmember list \<Rightarrow> unit cgm" where
  "set_dstruct name nm bits ms = modifyC (\<lambda>s. s\<lparr>cg_dstructs := (name, nm, bits, ms) # cg_dstructs s\<rparr>)"

text \<open>Strings and arrays: a pointer and a size.\<close>

definition debug_slice :: "genv \<Rightarrow> str \<Rightarrow> lty \<Rightarrow> dtype option \<Rightarrow> dtype option cgm" where
  "debug_slice g nm sty ety =
     bindC (debug_member g sty ''data'' 0 (Some (DPointer ety (ge_pointer_bits g)))) (\<lambda>d.
     bindC (debug_member g sty ''size'' 1 (Some debug_int)) (\<lambda>n.
       unitC (Some (DStruct nm (ge_bits g sty) [d, n]))))"

fun codegenTypeDebug :: "nat \<Rightarrow> genv \<Rightarrow> ty \<Rightarrow> dtype option cgm" where
  "codegenTypeDebug 0 g t = failC NoFuel"
| "codegenTypeDebug (Suc k) g t =
     bindC (assertC (ge_debug g \<noteq> 0)) (\<lambda>_.
     bindC (liftC (tryGetGenericInstance (ge_inst g) t)) (\<lambda>inst.
       case inst of
         Some u \<Rightarrow> codegenTypeDebug k g u
       | None \<Rightarrow>
           (case t of
              TyVoid \<Rightarrow> unitC None
            | TyBool \<Rightarrow> unitC (Some (DBasic ''bool'' 8 ''DW_ATE_boolean''))
            | TyInteger \<Rightarrow> unitC (Some debug_int)
            | TyFloat \<Rightarrow> unitC (Some (DBasic ''float'' 32 ''DW_ATE_float''))
            | TyString \<Rightarrow>
                bindC (codegenType k g t) (\<lambda>sty.
                  debug_slice g ''string'' sty (Some (DBasic ''char'' 8 ''DW_ATE_signed_char'')))
            | TyTuple fs \<Rightarrow>
                bindC (codegenType k g t) (\<lambda>sty.
                bindC (mapC (\<lambda>i. bindC (codegenTypeDebug k g (fs ! i)) (debug_member g sty (''_'' @ show_nat i) i))
                    [0..<length fs]) (\<lambda>ms.
                  unitC (Some (DStruct ''tuple'' (ge_bits g sty) ms))))
            | TyArray e \<Rightarrow>
                bindC (codegenTypeDebug k g e) (\<lambda>ety.
                bindC (codegenType k g t) (\<lambda>sty. debug_slice g ''array'' sty ety))
            | TyPointer e \<Rightarrow>
                bindC (codegenTypeDebug k g e) (\<lambda>ety. unitC (Some (DPointer ety (ge_pointer_bits g))))
            | TyFunction as r v \<Rightarrow>
                bindC (codegenTypeDebug k g r) (\<lambda>ret.
                bindC (mapC (codegenTypeDebug k g) as) (\<lambda>args. unitC (Some (DSubroutine (ret # args)))))
            | TyInstance a nm loc as df gen \<Rightarrow>
                (case Option.bind df (ge_defs g) of
                   None \<Rightarrow> failC AssertFail
                 | Some d \<Rightarrow>
                     bindC (liftC (mangleType k (getGenericInstance (ge_inst g)) t)) (\<lambda>symbol.
                     let name = ''dbg.'' @ symbol in
                     bindC (getC (\<lambda>s. map_of (cg_dstructs s) name)) (\<lambda>known.
                       if known \<noteq> None then unitC (Some (DNamed name))
                       else
                         bindC (codegenType k g t) (\<lambda>sty.
                         bindC (set_dstruct name nm (ge_bits g sty) []) (\<lambda>_.
                         bindC (mapC (\<lambda>i. bindC (member_type g t i) (\<lambda>mt.
                             bindC (codegenTypeDebug k g mt) (debug_member g sty (sf_name (sd_fields d ! i)) i)))
                             [0..<length (sd_fields d)]) (\<lambda>ms.
                         bindC (set_dstruct name nm (ge_bits g sty) ms) (\<lambda>_. unitC (Some (DNamed name)))))))))
            | _ \<Rightarrow> failC (ICE ''Unknown Ty kind''))))"

text \<open>\<open>CodegenDebugLocation\<close>: nothing without debug information, for \<open>di\<close> is null.\<close>

definition with_location :: "genv \<Rightarrow> location \<Rightarrow> 'a cgm \<Rightarrow> 'a cgm" where
  "with_location g loc m = (if ge_debug g \<noteq> 0 then at_location loc m else m)"

text \<open>
  A variable of a function for the debugger, with its file: an argument, counted from one, or a local
  variable. The declaration has the place of the variable as its location.
\<close>

definition declare_variable :: "nat \<Rightarrow> genv \<Rightarrow> str \<Rightarrow> nat option \<Rightarrow> variable \<Rightarrow> val \<Rightarrow> unit cgm" where
  "declare_variable k g file arg x storage =
     (if ge_debug g \<ge> 2 then
        bindC (codegenTypeDebug k g (v_type x)) (\<lambda>dty.
        bindC back_scope (\<lambda>scope.
          let line = l_line (v_location x) + 1;
              dv = (case arg of
                      Some n \<Rightarrow> DParam scope (v_name x) n file line dty
                    | None \<Rightarrow> DAuto scope (v_name x) file line dty)
          in at_location (v_location x) (emitU (ODeclare storage dv))))
      else unitC ())"

section \<open>Helpers of expressions\<close>

definition finalType :: "genv \<Rightarrow> ty \<Rightarrow> ty cgm" where
  "finalType g t =
     (\<lambda>s. bindR (typeInstantiate (\<lambda>a. bindR (getGenericInstance (ge_inst g) a) (\<lambda>u. Inr (Some u))) t (cg_fresh s))
        (\<lambda>(u, nxt). Inr (u, s\<lparr>cg_fresh := nxt\<rparr>)))"

definition codegenVoid :: val where "codegenVoid = VUndef LVoid"

definition codegenVariable :: "addr \<Rightarrow> val \<Rightarrow> unit cgm" where
  "codegenVariable a v = modifyC (\<lambda>s. s\<lparr>cg_vars := (a, v) # cg_vars s\<rparr>)"

text \<open>An \<open>alloca\<close> goes to the first block of the function, in front of all but phi nodes.\<close>

definition is_phi :: "nat \<times> op \<Rightarrow> bool" where
  "is_phi i = (case snd i of OPhi t \<Rightarrow> True | _ \<Rightarrow> False)"

definition insert_first :: "nat \<times> op \<Rightarrow> (nat \<times> op) list \<Rightarrow> (nat \<times> op) list" where
  "insert_first i is = takeWhile is_phi is @ i # dropWhile is_phi is"

definition codegenAlloca :: "lty \<Rightarrow> val option \<Rightarrow> val cgm" where
  "codegenAlloca t arraySize =
     bindC GetInsertBlock (\<lambda>ib.
     bindC (parent_of ib) (\<lambda>f.
     bindC (getC (\<lambda>s. Option.bind (find_fun f s) (\<lambda>g. case fn_blocks g of b # _ \<Rightarrow> Some b | [] \<Rightarrow> None))) (\<lambda>entry.
       case entry of
         None \<Rightarrow> failC AssertFail
       | Some bb \<Rightarrow>
           bindC (getC cg_calls) (\<lambda>n.
           bindC (modifyC (\<lambda>s. note_loc n ((set_block bb (bb_body_update (insert_first (n, OAlloca t arraySize))) s)\<lparr>cg_calls := n + 1\<rparr>))) (\<lambda>_.
             unitC (VInst n (LPtr t)))))))"

definition trap_fun :: "bool \<Rightarrow> val" where
  "trap_fun debug = VGlobal (if debug then ''llvm.debugtrap'' else ''llvm.trap'') (LPtr (LFun LVoid []))"

definition codegenTrapIf :: "val \<Rightarrow> bool \<Rightarrow> unit cgm" where
  "codegenTrapIf cond debug =
     bindC GetInsertBlock (\<lambda>ib.
     bindC (parent_of ib) (\<lambda>f.
     bindC CreateBlock (\<lambda>trapbb.
     bindC CreateBlock (\<lambda>afterbb.
     bindC (emitU (OCondBr cond trapbb afterbb)) (\<lambda>_.
     bindC (enter_block f trapbb) (\<lambda>_.
     bindC (emitU (OCall (trap_fun debug) [])) (\<lambda>_.
     bindC (emitU OUnreachable) (\<lambda>_.
       enter_block f afterbb))))))))"

definition runtimeNew :: val where
  "runtimeNew = VGlobal ''gcNew'' (LPtr (LFun i8p [i8p, i32]))"

definition runtimeNewArray :: val where
  "runtimeNewArray = VGlobal ''gcNewArray'' (LPtr (LFun i8p [i8p, i32, i32]))"

definition codegenNew :: "nat \<Rightarrow> genv \<Rightarrow> ty \<Rightarrow> val cgm" where
  "codegenNew k g t =
     bindC (codegenType k g t) (\<lambda>elementType.
     bindC (codegenTypeInfo k g t) (\<lambda>typeInfo.
     bindC (emit (OIntCast (VSizeOf elementType) i32)) (\<lambda>elementSize.
     bindC (emit (OCall runtimeNew [typeInfo, elementSize])) (\<lambda>rawPtr.
       emit (OBitCast rawPtr (LPtr elementType))))))"

definition codegenNewArr :: "nat \<Rightarrow> genv \<Rightarrow> ty \<Rightarrow> val \<Rightarrow> val cgm" where
  "codegenNewArr k g t count =
     bindC (codegenType k g t) (\<lambda>elementType.
     bindC (codegenTypeInfo k g t) (\<lambda>typeInfo.
     bindC (emit (OIntCast (VSizeOf elementType) i32)) (\<lambda>elementSize.
     bindC (emit (OCall runtimeNewArray [typeInfo, count, elementSize])) (\<lambda>rawPtr.
       emit (OBitCast rawPtr (LPtr elementType))))))"

definition codegenNewArrEmpty :: "nat \<Rightarrow> genv \<Rightarrow> ty \<Rightarrow> val cgm" where
  "codegenNewArrEmpty k g t = bindC (codegenType k g t) (\<lambda>elementType. unitC (VNull (LPtr elementType)))"

end
