(* ===== verification/CodegenExpr.thy ===== *)
theory CodegenExpr
  imports Codegen
begin

text \<open>
  Code generation for expressions and functions, the second half of \<open>compiler/codegen.cpp\<close>. The function
  of a node takes the generator of its children as an argument. A generator may answer no value, as the
  code's null pointer.
\<close>

section \<open>Expressions\<close>

type_synonym gen = "ast \<Rightarrow> codegen_kind \<Rightarrow> val option cgm"

definition need :: "val option \<Rightarrow> val cgm" where
  "need v = (case v of Some v \<Rightarrow> unitC v | None \<Rightarrow> failC NullDeref)"

text \<open>The value of a child.\<close>

definition value_of :: "gen \<Rightarrow> ast \<Rightarrow> val cgm" where
  "value_of ce a = bindC (ce a KindVal) need"

definition ref_of :: "gen \<Rightarrow> ast \<Rightarrow> val cgm" where
  "ref_of ce a = bindC (ce a KindRef) need"

definition type_of :: "ast \<Rightarrow> ty cgm" where
  "type_of a = (case astType a of Some t \<Rightarrow> unitC t | None \<Rightarrow> failC NullDeref)"

definition answer :: "val \<Rightarrow> val option cgm" where "answer v = unitC (Some v)"

definition indexed :: "'a list \<Rightarrow> (nat \<times> 'a) list" where "indexed xs = zip [0..<length xs] xs"

definition codegenLiteralInteger :: "int \<Rightarrow> val" where "codegenLiteralInteger i = VInt i32 i"
definition codegenLiteralBool :: "bool \<Rightarrow> val" where "codegenLiteralBool b = VInt i1 (if b then 1 else 0)"

definition codegenLiteralString :: "nat \<Rightarrow> genv \<Rightarrow> str \<Rightarrow> val option cgm" where
  "codegenLiteralString k g x =
     bindC (codegenType k g TyString) (\<lambda>t.
     bindC (emit (OInsertValue (VUndef t) (VString x) 0)) (\<lambda>r.
     bindC (emit (OInsertValue r (vi32 (int (length x))) 1)) answer))"

definition codegenLiteralTuple :: "nat \<Rightarrow> genv \<Rightarrow> gen \<Rightarrow> ast \<Rightarrow> ast list \<Rightarrow> val option cgm" where
  "codegenLiteralTuple k g ce root fs =
     bindC (type_of root) (\<lambda>t.
     bindC (codegenType k g t) (\<lambda>lt.
     bindC (foldC (\<lambda>(i, f) r. bindC (value_of ce f) (\<lambda>v. emit (OInsertValue r v i))) (indexed fs) (VUndef lt)) answer))"

definition codegenLiteralArray :: "nat \<Rightarrow> genv \<Rightarrow> gen \<Rightarrow> ast \<Rightarrow> ast list \<Rightarrow> val option cgm" where
  "codegenLiteralArray k g ce root es =
     bindC (type_of root) (\<lambda>t.
       case t of
         TyArray element \<Rightarrow>
           bindC (if es \<noteq> [] then codegenNewArr k g element (vi32 (int (length es))) else codegenNewArrEmpty k g element) (\<lambda>ptr.
           bindC (mapC (\<lambda>(i, e). bindC (value_of ce e) (\<lambda>v.
               bindC (emit (OConstGEP1 ptr i)) (\<lambda>p. emitU (OStore v p)))) (indexed es)) (\<lambda>_.
           bindC (codegenType k g t) (\<lambda>lt.
           bindC (emit (OInsertValue (VUndef lt) ptr 0)) (\<lambda>r.
           bindC (emit (OInsertValue r (vi32 (int (length es))) 1)) answer))))
       | _ \<Rightarrow> failC AssertFail)"

text \<open>
  The fields a literal gives, then the others with their defaults. \<open>index\<close> is signed and is compared with
  zero only; past the fields it is out of bounds in the code.
\<close>

definition given_fields :: "(field_ref \<times> ast) list \<Rightarrow> nat \<Rightarrow> bool list cgm" where
  "given_fields fs n =
     foldC (\<lambda>f given. bindC (assertC (fr_index (fst f) \<ge> 0)) (\<lambda>_.
         bindC (assertC (nat (fr_index (fst f)) < length given)) (\<lambda>_. unitC (given[nat (fr_index (fst f)) := True]))))
       fs (replicate n False)"

definition default_field :: "gen \<Rightarrow> ast tydef \<Rightarrow> nat \<times> bool \<Rightarrow> val \<Rightarrow> val cgm" where
  "default_field ce d x r =
     (if snd x then unitC r
      else case sf_expr (sd_fields d ! fst x) of
        None \<Rightarrow> failC AssertFail
      | Some e \<Rightarrow> bindC (value_of ce e) (\<lambda>v. emit (OInsertValue r v (fst x))))"

definition codegenLiteralStruct :: "nat \<Rightarrow> genv \<Rightarrow> gen \<Rightarrow> ast \<Rightarrow> (field_ref \<times> ast) list \<Rightarrow> val option cgm" where
  "codegenLiteralStruct k g ce root fs =
     bindC (type_of root) (\<lambda>t.
       case t of
         TyInstance a nm loc as df gen \<Rightarrow>
           (case Option.bind df (ge_defs g) of
              None \<Rightarrow> failC AssertFail
            | Some d \<Rightarrow>
                bindC (codegenType k g t) (\<lambda>lt.
                bindC (given_fields fs (length (sd_fields d))) (\<lambda>given.
                bindC (foldC (default_field ce d) (indexed given) (VUndef lt)) (\<lambda>r.
                bindC (foldC (\<lambda>f r. bindC (assertC (fr_index (fst f) \<ge> 0)) (\<lambda>_.
                    bindC (value_of ce (snd f)) (\<lambda>v. emit (OInsertValue r v (nat (fr_index (fst f)))))))
                  fs r) answer))))
       | _ \<Rightarrow> failC AssertFail)"

definition module_prefix :: "fn_inst option \<Rightarrow> fn_decl \<Rightarrow> str" where
  "module_prefix parent d =
     (case parent of Some p \<Rightarrow> in_name p | None \<Rightarrow> (case fd_module d of Some m \<Rightarrow> mangleModule m | None \<Rightarrow> []))"

definition codegenFunctionDecl :: "nat \<Rightarrow> genv \<Rightarrow> fn_decl \<Rightarrow> int \<Rightarrow> ty \<Rightarrow> ty list \<Rightarrow> val cgm" where
  "codegenFunctionDecl k g d unnamed t tyargs =
     (let parent = getFunctionInstance (ge_inst g) (fd_parent d) in
      bindC (liftC (mangleFn k (getGenericInstance (ge_inst g)) (fd_name d) unnamed t tyargs (module_prefix parent d))) (\<lambda>name.
      bindC (getC (find_fun name)) (\<lambda>f.
        case f of
          Some f \<Rightarrow> unitC (VGlobal name (LPtr (fn_type f)))
        | None \<Rightarrow>
            bindC (codegenType k g t) (\<lambda>pt.
            bindC (pointee pt) (\<lambda>ft.
            bindC (CreateFunction name ft) (\<lambda>fn.
            bindC (assertC (length tyargs = length (fd_tyargs d))) (\<lambda>_.
            bindC (mapC (finalType g) tyargs) (\<lambda>fts.
            bindC (modifyC (\<lambda>s. s\<lparr>cg_pending := cg_pending s @ [FnInst name ft d parent (zip (fd_tyargs d) fts)]\<rparr>)) (\<lambda>_.
              unitC fn)))))))))"

definition codegenIdent :: "nat \<Rightarrow> genv \<Rightarrow> ast \<Rightarrow> ty list \<Rightarrow> addr list \<Rightarrow> codegen_kind \<Rightarrow> val option cgm" where
  "codegenIdent k g root tyargs tgs mode =
     bindC (assertC (length tgs = 1)) (\<lambda>_.
       let target = hd tgs in
       case map_of (ge_vars g) target of
         None \<Rightarrow> failC NullDeref
       | Some v \<Rightarrow>
           (case v_kind v of
              KindFunction \<Rightarrow>
                (case Option.bind (v_fn v) (ge_fns g) of
                   None \<Rightarrow> failC AssertFail
                 | Some d \<Rightarrow>
                     bindC (assertC (fd_addr d = Some target)) (\<lambda>_.
                     bindC (type_of root) (\<lambda>t.
                     bindC (codegenFunctionDecl k g d 0 t tyargs) answer)))
            | KindVariable \<Rightarrow>
                bindC (getC (\<lambda>s. map_of (cg_vars s) target)) (\<lambda>x.
                  case x of
                    None \<Rightarrow> failC AssertFail
                  | Some x \<Rightarrow> if mode \<noteq> KindRef then bindC (emit (OLoad x)) answer else answer x)
            | _ \<Rightarrow>
                bindC (getC (\<lambda>s. map_of (cg_vars s) target)) (\<lambda>x.
                  case x of None \<Rightarrow> failC AssertFail | Some x \<Rightarrow> answer x)))"

definition codegenMember :: "gen \<Rightarrow> ast \<Rightarrow> field_ref \<Rightarrow> codegen_kind \<Rightarrow> val option cgm" where
  "codegenMember ce e f mode =
     bindC (assertC (fr_index f \<ge> 0)) (\<lambda>_.
     bindC (bindC (ce e mode) need) (\<lambda>v.
       if mode = KindRef then bindC (emit (OStructGEP v (nat (fr_index f)))) answer
       else bindC (emit (OExtractValue v (nat (fr_index f)))) answer))"

definition codegenBlock :: "gen \<Rightarrow> ast list \<Rightarrow> val option cgm" where
  "codegenBlock ce body = foldC (\<lambda>e r. ce e KindVal) body (Some codegenVoid)"

definition extra_arg :: "nat \<Rightarrow> genv \<Rightarrow> gen \<Rightarrow> val \<Rightarrow> nat \<times> ast \<Rightarrow> unit cgm" where
  "extra_arg k g ce extraArray x =
     bindC (value_of ce (snd x)) (\<lambda>av.
     bindC (type_of (snd x)) (\<lambda>t.
     bindC (codegenTypeInfo k g t) (\<lambda>at.
     bindC (codegenAlloca (val_type av) None) (\<lambda>ap.
     bindC (emitU (OStore av ap)) (\<lambda>_.
     bindC (emit (OPointerCast ap i8p)) (\<lambda>app.
     bindC (emit (OConstGEP2 extraArray (fst x) 0)) (\<lambda>p0.
     bindC (emitU (OStore at p0)) (\<lambda>_.
     bindC (emit (OConstGEP2 extraArray (fst x) 1)) (\<lambda>p1.
       emitU (OStore app p1))))))))))"

definition call_args :: "nat \<Rightarrow> genv \<Rightarrow> gen \<Rightarrow> ty list \<Rightarrow> bool \<Rightarrow> ast list \<Rightarrow> val list cgm" where
  "call_args k g ce tas varargs args =
     (if varargs then
        bindC (assertC (length args \<ge> length tas)) (\<lambda>_.
        let extraArgs = length args - length tas in
        bindC (codegenAlloca any_lty (Some (vi32 (int extraArgs)))) (\<lambda>extraArray.
        bindC (mapC (value_of ce) (take (length tas) args)) (\<lambda>base.
        bindC (mapC (extra_arg k g ce extraArray) (indexed (drop (length tas) args))) (\<lambda>_.
          unitC (base @ [extraArray, vi32 (int extraArgs)])))))
      else
        bindC (assertC (length args = length tas)) (\<lambda>_. mapC (value_of ce) args))"

definition codegenCall :: "nat \<Rightarrow> genv \<Rightarrow> gen \<Rightarrow> ast \<Rightarrow> ast list \<Rightarrow> val option cgm" where
  "codegenCall k g ce e args =
     bindC (value_of ce e) (\<lambda>f.
     bindC (type_of e) (\<lambda>t.
       case t of
         TyFunction tas r varargs \<Rightarrow>
           bindC (call_args k g ce tas varargs args) (\<lambda>vs.
           bindC (emit (OCall f vs)) (\<lambda>ret.
             answer (if val_type ret = LVoid then codegenVoid else ret)))
       | _ \<Rightarrow> failC AssertFail))"

definition codegenIndex :: "gen \<Rightarrow> ast \<Rightarrow> ast \<Rightarrow> codegen_kind \<Rightarrow> val option cgm" where
  "codegenIndex ce e i mode =
     bindC (value_of ce e) (\<lambda>a.
     bindC (value_of ce i) (\<lambda>idx.
     bindC (emit (OExtractValue a 0)) (\<lambda>ptr.
     bindC (emit (OExtractValue a 1)) (\<lambda>len.
     bindC (emit (OICmp ICmpUGE idx len)) (\<lambda>cond.
     bindC (codegenTrapIf cond False) (\<lambda>_.
     bindC (emit (OGEP ptr idx)) (\<lambda>p.
       if mode = KindRef then answer p else bindC (emit (OLoad p)) answer)))))))"

definition codegenAssign :: "gen \<Rightarrow> ast \<Rightarrow> ast \<Rightarrow> val option cgm" where
  "codegenAssign ce l r =
     bindC (ref_of ce l) (\<lambda>left. bindC (value_of ce r) (\<lambda>right.
       bindC (emitU (OStore right left)) (\<lambda>_. answer codegenVoid)))"

definition codegenUnary :: "nat \<Rightarrow> genv \<Rightarrow> gen \<Rightarrow> unary_op \<Rightarrow> ast \<Rightarrow> codegen_kind \<Rightarrow> val option cgm" where
  "codegenUnary k g ce uop e mode =
     bindC (value_of ce e) (\<lambda>v.
       case uop of
         UnaryOpNot \<Rightarrow> bindC (emit (ONot v)) answer
       | UnaryOpDeref \<Rightarrow> if mode = KindRef then answer v else bindC (emit (OLoad v)) answer
       | UnaryOpNew \<Rightarrow>
           bindC (type_of e) (\<lambda>t.
           bindC (codegenNew k g t) (\<lambda>ptr.
           bindC (emitU (OStore v ptr)) (\<lambda>_. answer ptr)))
       | _ \<Rightarrow> failC (ICE ''Unknown UnaryOp''))"

definition codegenBinaryAndOr :: "gen \<Rightarrow> binary_op \<Rightarrow> ast \<Rightarrow> ast \<Rightarrow> val option cgm" where
  "codegenBinaryAndOr ce bop l r =
     bindC GetInsertBlock (\<lambda>ib.
     bindC (parent_of ib) (\<lambda>f.
     bindC (value_of ce l) (\<lambda>left.
     bindC GetInsertBlock (\<lambda>currentbb.
     bindC CreateBlock (\<lambda>nextbb.
     bindC CreateBlock (\<lambda>afterbb.
     bindC (if bop = BinaryOpAnd then emitU (OCondBr left nextbb afterbb)
            else if bop = BinaryOpOr then emitU (OCondBr left afterbb nextbb)
            else failC (ICE ''Unknown BinaryOp'')) (\<lambda>_.
     bindC (enter_block f nextbb) (\<lambda>_.
     bindC (value_of ce r) (\<lambda>right.
     bindC (emitU (OBr afterbb)) (\<lambda>_.
     bindC GetInsertBlock (\<lambda>nextbb'.
     bindC (enter_block f afterbb) (\<lambda>_.
     bindC (emit (OPhi (val_type left))) (\<lambda>pn.
     bindC (addIncoming pn right nextbb') (\<lambda>_.
     bindC (addIncoming pn left currentbb) (\<lambda>_. answer pn)))))))))))))))"

definition codegenBinary :: "gen \<Rightarrow> binary_op \<Rightarrow> ast \<Rightarrow> ast \<Rightarrow> val option cgm" where
  "codegenBinary ce bop l r =
     bindC (assertC (bop = BinaryOpAnd \<or> bop = BinaryOpOr)) (\<lambda>_. codegenBinaryAndOr ce bop l r)"

definition codegenIf_else :: "gen \<Rightarrow> str \<Rightarrow> val \<Rightarrow> ast \<Rightarrow> ast \<Rightarrow> val option cgm" where
  "codegenIf_else ce f cond t e =
     bindC CreateBlock (\<lambda>thenbb.
     bindC CreateBlock (\<lambda>elsebb.
     bindC CreateBlock (\<lambda>endbb.
     bindC (emitU (OCondBr cond thenbb elsebb)) (\<lambda>_.
     bindC (enter_block f thenbb) (\<lambda>_.
     bindC (value_of ce t) (\<lambda>thenbody.
     bindC (emitU (OBr endbb)) (\<lambda>_.
     bindC GetInsertBlock (\<lambda>thenbb'.
     bindC (enter_block f elsebb) (\<lambda>_.
     bindC (value_of ce e) (\<lambda>elsebody.
     bindC (emitU (OBr endbb)) (\<lambda>_.
     bindC GetInsertBlock (\<lambda>elsebb'.
     bindC (enter_block f endbb) (\<lambda>_.
       if val_type thenbody = LVoid then answer codegenVoid
       else
         bindC (emit (OPhi (val_type thenbody))) (\<lambda>pn.
         bindC (addIncoming pn thenbody thenbb') (\<lambda>_.
         bindC (addIncoming pn elsebody elsebb') (\<lambda>_. answer pn))))))))))))))))"

definition codegenIf :: "gen \<Rightarrow> ast \<Rightarrow> ast \<Rightarrow> ast option \<Rightarrow> val option cgm" where
  "codegenIf ce c t e =
     bindC (value_of ce c) (\<lambda>cond.
     bindC GetInsertBlock (\<lambda>ib.
     bindC (parent_of ib) (\<lambda>f.
       case e of
         Some e \<Rightarrow> codegenIf_else ce f cond t e
       | None \<Rightarrow>
           bindC CreateBlock (\<lambda>thenbb.
           bindC CreateBlock (\<lambda>endbb.
           bindC (emitU (OCondBr cond thenbb endbb)) (\<lambda>_.
           bindC (enter_block f thenbb) (\<lambda>_.
           bindC (ce t KindVal) (\<lambda>_.
           bindC (emitU (OBr endbb)) (\<lambda>_.
           bindC (enter_block f endbb) (\<lambda>_. answer codegenVoid))))))))))"

definition codegenFor :: "gen \<Rightarrow> addr \<Rightarrow> addr option \<Rightarrow> ast \<Rightarrow> ast \<Rightarrow> val option cgm" where
  "codegenFor ce v i e body =
     bindC GetInsertBlock (\<lambda>ib.
     bindC (parent_of ib) (\<lambda>f.
     bindC GetInsertBlock (\<lambda>entrybb.
     bindC CreateBlock (\<lambda>loopbb.
     bindC CreateBlock (\<lambda>endbb.
     bindC (value_of ce e) (\<lambda>arr.
     bindC (emit (OExtractValue arr 1)) (\<lambda>len.
     bindC (emit (OICmp ICmpSGT len (vi32 0))) (\<lambda>some.
     bindC (emitU (OCondBr some loopbb endbb)) (\<lambda>_.
     bindC (enter_block f loopbb) (\<lambda>_.
     bindC (emit (OPhi i32)) (\<lambda>index.
     bindC (addIncoming index (vi32 0) entrybb) (\<lambda>_.
     bindC (emit (OExtractValue arr 0)) (\<lambda>ptr.
     bindC (emit (OGEP ptr index)) (\<lambda>var.
     bindC (codegenVariable v var) (\<lambda>_.
     bindC (case i of Some j \<Rightarrow> codegenVariable j index | None \<Rightarrow> unitC ()) (\<lambda>_.
     bindC (ce body KindVal) (\<lambda>_.
     bindC (emit (OAdd index (vi32 1))) (\<lambda>nxt.
     bindC GetInsertBlock (\<lambda>loopendbb.
     bindC (emit (OICmp ICmpSLT nxt len)) (\<lambda>again.
     bindC (emitU (OCondBr again loopbb endbb)) (\<lambda>_.
     bindC (addIncoming index nxt loopendbb) (\<lambda>_.
     bindC (enter_block f endbb) (\<lambda>_. answer codegenVoid)))))))))))))))))))))))"

definition codegenWhile :: "gen \<Rightarrow> ast \<Rightarrow> ast \<Rightarrow> val option cgm" where
  "codegenWhile ce e body =
     bindC GetInsertBlock (\<lambda>ib.
     bindC (parent_of ib) (\<lambda>f.
     bindC CreateBlock (\<lambda>loopbb.
     bindC CreateBlock (\<lambda>bodybb.
     bindC CreateBlock (\<lambda>endbb.
     bindC (emitU (OBr loopbb)) (\<lambda>_.
     bindC (enter_block f loopbb) (\<lambda>_.
     bindC (value_of ce e) (\<lambda>cond.
     bindC (emitU (OCondBr cond bodybb endbb)) (\<lambda>_.
     bindC (enter_block f bodybb) (\<lambda>_.
     bindC (ce body KindVal) (\<lambda>_.
     bindC (emitU (OBr loopbb)) (\<lambda>_.
     bindC (enter_block f endbb) (\<lambda>_. answer codegenVoid)))))))))))))"

text \<open>A declaration as the generator sees it: a node with what its variable holds.\<close>

definition decl_of :: "(addr \<times> variable) list \<Rightarrow> ast \<Rightarrow> fn_decl option" where
  "decl_of vs a =
     (case ast_node a of
        FnDecl v tyargs args att body parent md \<Rightarrow>
          map_option (\<lambda>x. \<lparr>fd_addr = Some v, fd_name = v_name x, fd_type = Some (v_type x), fd_location = v_location x,
             fd_tyargs = tyargs, fd_args = args, fd_attributes = att, fd_body = body, fd_parent = parent,
             fd_module = md\<rparr>) (map_of vs v)
      | _ \<Rightarrow> None)"

definition codegenFn :: "nat \<Rightarrow> genv \<Rightarrow> int \<Rightarrow> ast \<Rightarrow> val option cgm" where
  "codegenFn k g fnid d =
     (case decl_of (ge_vars g) d of
        Some fd \<Rightarrow>
          (case fd_type fd of
             Some t \<Rightarrow> bindC (codegenFunctionDecl k g fd fnid t []) answer
           | None \<Rightarrow> failC NullDeref)
      | None \<Rightarrow> failC NullDeref)"

definition codegenVarDecl :: "nat \<Rightarrow> genv \<Rightarrow> gen \<Rightarrow> addr \<Rightarrow> ast \<Rightarrow> val option cgm" where
  "codegenVarDecl k g ce v e =
     bindC (value_of ce e) (\<lambda>x.
     bindC (codegenAlloca (val_type x) None) (\<lambda>storage.
     bindC (emitU (OStore x storage)) (\<lambda>_.
     bindC (codegenVariable v storage) (\<lambda>_.
     bindC (case map_of (ge_vars g) v of
              Some var \<Rightarrow> declare_variable k g (l_source (v_location var)) None var storage
            | None \<Rightarrow> failC NullDeref) (\<lambda>_. answer codegenVoid)))))"

definition codegen_node :: "nat \<Rightarrow> genv \<Rightarrow> gen \<Rightarrow> gen" where
  "codegen_node k g ce root mode =
     (case ast_node root of
        Common \<Rightarrow> unitC None
      | LiteralVoid \<Rightarrow> answer codegenVoid
      | LiteralBool b \<Rightarrow> answer (codegenLiteralBool b)
      | LiteralInteger i \<Rightarrow> answer (codegenLiteralInteger i)
      | LiteralFloat x \<Rightarrow> answer (VFloat x)
      | LiteralString x \<Rightarrow> codegenLiteralString k g x
      | LiteralTuple fs \<Rightarrow> codegenLiteralTuple k g ce root fs
      | LiteralArray es \<Rightarrow> codegenLiteralArray k g ce root es
      | LiteralStruct nm fs \<Rightarrow> codegenLiteralStruct k g ce root fs
      | Ident nm tyargs tgs res \<Rightarrow> codegenIdent k g root tyargs tgs mode
      | Member e f \<Rightarrow> codegenMember ce e f mode
      | Block body \<Rightarrow> codegenBlock ce body
      | Module nm b ai \<Rightarrow> ce b KindVal
      | Call e args \<Rightarrow> codegenCall k g ce e args
      | Unary uop e \<Rightarrow> codegenUnary k g ce uop e mode
      | Binary bop l r \<Rightarrow> codegenBinary ce bop l r
      | Index e i \<Rightarrow> codegenIndex ce e i mode
      | Assign l r \<Rightarrow> codegenAssign ce l r
      | If c t e \<Rightarrow> codegenIf ce c t e
      | For v i e b \<Rightarrow> codegenFor ce v i e b
      | While e b \<Rightarrow> codegenWhile ce e b
      | Fn fnid d \<Rightarrow> codegenFn k g fnid d
      | LLVM code \<Rightarrow> unitC None
      | FnDecl v tyargs args att b p m \<Rightarrow> answer codegenVoid
      | VarDecl v e \<Rightarrow> codegenVarDecl k g ce v e
      | TyDecl nm a d \<Rightarrow> answer codegenVoid
      | Import nm \<Rightarrow> answer codegenVoid)"

text \<open>
  The functions of these nodes begin with the location of the node; that of a declaration, with the
  location of the variable.
\<close>

definition located :: "genv \<Rightarrow> ast \<Rightarrow> 'a cgm \<Rightarrow> 'a cgm" where
  "located g root m =
     (case ast_node root of
        LiteralString x \<Rightarrow> with_location g (astLocation root) m
      | LiteralTuple fs \<Rightarrow> with_location g (astLocation root) m
      | LiteralArray es \<Rightarrow> with_location g (astLocation root) m
      | LiteralStruct nm fs \<Rightarrow> with_location g (astLocation root) m
      | Ident nm tyargs tgs res \<Rightarrow> with_location g (astLocation root) m
      | Member e f \<Rightarrow> with_location g (astLocation root) m
      | Call e args \<Rightarrow> with_location g (astLocation root) m
      | Unary uop e \<Rightarrow> with_location g (astLocation root) m
      | Binary bop l r \<Rightarrow> with_location g (astLocation root) m
      | Index e i \<Rightarrow> with_location g (astLocation root) m
      | Assign l r \<Rightarrow> with_location g (astLocation root) m
      | If c t e \<Rightarrow> with_location g (astLocation root) m
      | For v i e b \<Rightarrow> with_location g (astLocation root) m
      | While e b \<Rightarrow> with_location g (astLocation root) m
      | Fn fnid d \<Rightarrow> with_location g (astLocation root) m
      | VarDecl v e \<Rightarrow>
          (case map_of (ge_vars g) v of
             Some x \<Rightarrow> with_location g (v_location x) m
           | None \<Rightarrow> failC NullDeref)
      | _ \<Rightarrow> m)"

fun codegenExpr :: "nat \<Rightarrow> genv \<Rightarrow> gen" where
  "codegenExpr 0 g root mode = failC NoFuel"
| "codegenExpr (Suc k) g root mode = located g root (codegen_node k g (codegenExpr k g) root mode)"

section \<open>Functions\<close>

definition getFunctionArguments :: "fn_inst \<Rightarrow> val list" where
  "getFunctionArguments i =
     (case in_type i of
        LFun r ts \<Rightarrow> map (\<lambda>(n, t). VParam (in_name i) n t) (indexed ts)
      | _ \<Rightarrow> [])"

text \<open>\<open>BasicBlock::Create\<close> with a function, then the insertion point.\<close>

definition entry_block :: "fn_inst \<Rightarrow> unit cgm" where
  "entry_block i = bindC CreateBlock (\<lambda>bb. enter_block (in_name i) bb)"

definition emit_return :: "val \<Rightarrow> unit cgm" where
  "emit_return ret = (if val_type ret = LVoid then emitU ORetVoid else emitU (ORet ret))"

definition codegenFunctionExtern :: "fn_inst \<Rightarrow> unit cgm" where
  "codegenFunctionExtern i =
     bindC (assertC (fd_body (in_decl i) = None)) (\<lambda>_.
     bindC (getOrInsertFunction (fd_name (in_decl i)) (in_type i)) (\<lambda>ext.
     bindC (entry_block i) (\<lambda>_.
     bindC (emit (OCall ext (getFunctionArguments i))) emit_return)))"

definition report :: "location \<Rightarrow> str \<Rightarrow> unit cgm" where
  "report loc msg = (\<lambda>s. bindR (error_at (cg_output s) loc msg) (\<lambda>out. Inr ((), s\<lparr>cg_output := out\<rparr>)))"

definition msg_builtin :: "str \<Rightarrow> str" where
  "msg_builtin name = ''Unknown builtin function '' @ name"

text \<open>The bodies of the builtin functions, by their names.\<close>

definition builtin_code :: "nat \<Rightarrow> genv \<Rightarrow> fn_decl \<Rightarrow> (ty \<times> ty) list \<Rightarrow> val list \<Rightarrow> unit cgm" where
  "builtin_code k g d gs args =
     (let name = fd_name d in
        if name = ''sizeof'' \<and> length gs = 1 \<and> length args = 0 then
          bindC (codegenType k g (snd (hd gs))) (\<lambda>t.
          bindC (emit (OIntCast (VSizeOf t) i32)) (\<lambda>ret. emitU (ORet ret)))
        else if name = ''newarr'' \<and> length gs = 1 \<and> length args = 1 then
          bindC (codegenType k g (TyArray (snd (hd gs)))) (\<lambda>t.
          bindC (codegenNewArr k g (snd (hd gs)) (hd args)) (\<lambda>ptr.
          bindC (emit (OInsertValue (VUndef t) ptr 0)) (\<lambda>r.
          bindC (emit (OInsertValue r (hd args) 1)) (\<lambda>r. emitU (ORet r)))))
        else if name = ''length'' \<and> length gs = 1 \<and> length args = 1 then
          bindC (emit (OExtractValue (hd args) 1)) (\<lambda>ret. emitU (ORet ret))
        else if name = ''assert'' \<and> length args = 1 then
          bindC (emit (ONot (hd args))) (\<lambda>c. bindC (codegenTrapIf c True) (\<lambda>_. emitU ORetVoid))
        else report (fd_location d) (msg_builtin name))"

definition codegenFunctionBuiltin :: "nat \<Rightarrow> genv \<Rightarrow> fn_inst \<Rightarrow> unit cgm" where
  "codegenFunctionBuiltin k g i =
     bindC (assertC (fd_body (in_decl i) = None)) (\<lambda>_.
     bindC (entry_block i) (\<lambda>_. builtin_code k g (in_decl i) (in_generics i) (getFunctionArguments i)))"

text \<open>The lines of \<open>getline\<close>; a last line that is empty is not one.\<close>

function getlines :: "str \<Rightarrow> str list" where
  "getlines [] = []"
| "getlines (c # cs) =
     takeWhile (\<lambda>x. x \<noteq> CHR 0x0A) (c # cs) # getlines (drop 1 (dropWhile (\<lambda>x. x \<noteq> CHR 0x0A) (c # cs)))"
  by pat_completeness auto
termination
proof (relation "measure length")
  fix c :: char and cs :: str
  have "length (dropWhile (\<lambda>x. x \<noteq> CHR 0x0A) cs) \<le> length cs" by (rule length_dropWhile_le)
  then show "(drop 1 (dropWhile (\<lambda>x. x \<noteq> CHR 0x0A) (c # cs)), c # cs) \<in> measure length" by auto
qed simp

declare getlines.simps [simp del]

definition is_declare :: "str \<Rightarrow> bool" where
  "is_declare line =
     (let r = dropWhile (\<lambda>c. c = CHR '' '') line in take 8 (if r = [] then line else r) = ''declare '')"

definition splitDeclarationsFromAssembly :: "str \<Rightarrow> str \<times> str" where
  "splitDeclarationsFromAssembly code =
     (let ls = getlines code; end = (\<lambda>l. l @ [CHR 0x0A]) in
      (concat (map end (filter is_declare ls)), concat (map end (filter (\<lambda>l. \<not> is_declare l) ls))))"

definition asm_header :: "genv \<Rightarrow> str \<Rightarrow> lty \<Rightarrow> lty list \<Rightarrow> str" where
  "asm_header g name r ts =
     ''define internal '' @ ge_type_name g r @ '' @'' @ name @ ''('' @ comma_sep (map (ge_type_name g) ts) @ '') {'' @
     [CHR 0x0A] @ ''entry:'' @ [CHR 0x0A]"

text \<open>Where an error of the parser is in the source; lengths are of type \<open>size_t\<close>.\<close>

definition asm_location :: "nat \<Rightarrow> asm_error \<Rightarrow> location \<Rightarrow> location result" where
  "asm_location prefixLength err loc =
     (if ae_offset err \<ge> prefixLength then
        bindR (assertR (ae_line err \<ge> 2)) (\<lambda>_.
        let d = ae_offset err - prefixLength in
        Inr (loc\<lparr>l_offset := l_offset loc + 1 + d,
                 l_length := nat ((int (l_length loc) - int d) mod 2 ^ 64),
                 l_line := l_line loc + (ae_line err - 2),
                 l_column := (if ae_line err > 2 then ae_column err - 1 else l_column loc)\<rparr>))
      else Inr loc)"

definition msg_asm :: "str \<Rightarrow> str" where
  "msg_asm m = ''Error parsing LLVM: '' @ m"

text \<open>What the parser makes of the code becomes the body of the function; it is kept as text.\<close>

definition codegenFunctionLLVM :: "genv \<Rightarrow> fn_inst \<Rightarrow> unit cgm" where
  "codegenFunctionLLVM g i =
     (case fd_body (in_decl i) of
        None \<Rightarrow> failC AssertFail
      | Some body \<Rightarrow>
          (case (ast_node body, in_type i) of
             (LLVM text, LFun r ts) \<Rightarrow>
               (let (decls, ir) = splitDeclarationsFromAssembly text;
                    pre = decls @ asm_header g (''llvm_'' @ in_name i) r ts;
                    code = pre @ ir @ [CHR 0x0A] @ ''}'' @ [CHR 0x0A]
                in case ge_asm g code of
                     Some err \<Rightarrow>
                       bindC (liftC (asm_location (length pre) err (astLocation body))) (\<lambda>loc.
                         report loc (msg_asm (ae_message err)))
                   | None \<Rightarrow> modifyC (update_fun (in_name i) (fn_asm_update (\<lambda>_. Some code))))
           | _ \<Rightarrow> failC AssertFail))"

definition bind_args :: "addr list \<Rightarrow> val list \<Rightarrow> unit cgm" where
  "bind_args ps vs =
     bindC (assertC (length ps \<le> length vs)) (\<lambda>_.
     bindC (mapC (\<lambda>(a, v). codegenVariable a v) (zip ps vs)) (\<lambda>_. unitC ()))"

text \<open>The arguments for the debugger; the file is that of the function.\<close>

definition declare_args :: "nat \<Rightarrow> genv \<Rightarrow> fn_decl \<Rightarrow> val list \<Rightarrow> unit cgm" where
  "declare_args k g d vs =
     (if ge_debug g \<ge> 2 then
        bindC (mapC (\<lambda>(i, a, v).
            case map_of (ge_vars g) a of
              Some x \<Rightarrow> declare_variable k g (l_source (fd_location d)) (Some (i + 1)) x v
            | None \<Rightarrow> failC NullDeref) (indexed (zip (fd_args d) vs))) (\<lambda>_. unitC ())
      else unitC ())"

definition codegenFunctionBody :: "nat \<Rightarrow> genv \<Rightarrow> fn_inst \<Rightarrow> unit cgm" where
  "codegenFunctionBody k g i =
     (case fd_body (in_decl i) of
        None \<Rightarrow> failC AssertFail
      | Some body \<Rightarrow>
          bindC (bind_args (fd_args (in_decl i)) (getFunctionArguments i)) (\<lambda>_.
          bindC (entry_block i) (\<lambda>_.
          bindC (declare_args k g (in_decl i) (getFunctionArguments i)) (\<lambda>_.
          bindC (bindC (codegenExpr k g body KindVal) need) (\<lambda>ret.
          bindC (set_loc None) (\<lambda>_. emit_return ret))))))"

definition is_llvm :: "ast option \<Rightarrow> bool" where
  "is_llvm b = (case b of Some a \<Rightarrow> (case ast_node a of LLVM c \<Rightarrow> True | _ \<Rightarrow> False) | None \<Rightarrow> False)"

definition codegenFunctionImpl :: "nat \<Rightarrow> genv \<Rightarrow> fn_inst \<Rightarrow> unit cgm" where
  "codegenFunctionImpl k g i =
     (let att = fd_attributes (in_decl i) in
      with_location g (fd_location (in_decl i)) (
      bindC (if and att FnAttributeExtern \<noteq> 0 then codegenFunctionExtern i
             else if and att FnAttributeBuiltin \<noteq> 0 then codegenFunctionBuiltin k g i
             else if is_llvm (fd_body (in_decl i)) then codegenFunctionLLVM g i
             else codegenFunctionBody k g i) (\<lambda>_.
        if and att FnAttributeInline \<noteq> 0 then modifyC (update_fun (in_name i) (fn_inline_update (\<lambda>_. True)))
        else unitC ())))"

text \<open>The type of a function for the debugger: its own with full information, else an empty one.\<close>

definition debug_function_type :: "nat \<Rightarrow> genv \<Rightarrow> ty option \<Rightarrow> dtype cgm" where
  "debug_function_type k g t =
     (case t of
        Some t \<Rightarrow>
          if ge_debug g \<ge> 2 then
            bindC (codegenTypeDebug k g t) (\<lambda>dty.
              case dty of Some (DSubroutine ts) \<Rightarrow> unitC (DSubroutine ts) | _ \<Rightarrow> failC AssertFail)
          else unitC (DSubroutine [])
      | None \<Rightarrow> unitC (DSubroutine []))"

definition push_scope :: "dscope \<Rightarrow> unit cgm" where
  "push_scope sc = modifyC (\<lambda>s. s\<lparr>cg_scopes := cg_scopes s @ [sc]\<rparr>)"

definition pop_scope :: "unit cgm" where
  "pop_scope = modifyC (\<lambda>s. s\<lparr>cg_scopes := butlast (cg_scopes s)\<rparr>)"

definition codegenFunction :: "nat \<Rightarrow> genv \<Rightarrow> fn_inst \<Rightarrow> unit cgm" where
  "codegenFunction k g i =
     bindC (getC (find_fun (in_name i))) (\<lambda>f.
     bindC (assertC (case f of Some f \<Rightarrow> fn_blocks f = [] \<and> fn_asm f = None | None \<Rightarrow> False)) (\<lambda>_.
       if ge_debug g \<noteq> 0 then
         bindC (debug_function_type k g (fd_type (in_decl i))) (\<lambda>fty.
         bindC back_scope (\<lambda>unit.
         let loc = fd_location (in_decl i);
             sub = DSubprogram unit (in_name i) (l_source loc) (l_line loc + 1) fty
         in
         bindC (modifyC (update_fun (in_name i) (fn_subprogram_update (\<lambda>_. Some sub)))) (\<lambda>_.
         bindC (push_scope sub) (\<lambda>_.
         bindC (codegenFunctionImpl k g i) (\<lambda>_. pop_scope)))))
       else codegenFunctionImpl k g i))"

section \<open>Modules\<close>

definition codegenPrepare :: "unit cgm" where
  "codegenPrepare =
     bindC (getOrInsertFunction ''llvm.trap'' (LFun LVoid [])) (\<lambda>_.
     bindC (getOrInsertFunction ''llvm.debugtrap'' (LFun LVoid [])) (\<lambda>_.
     bindC (getOrInsertFunction ''gcNew'' (LFun i8p [i8p, i32])) (\<lambda>_.
     bindC (getOrInsertFunction ''gcNewArray'' (LFun i8p [i8p, i32, i32])) (\<lambda>_. unitC ()))))"

text \<open>The loop over the functions that are asked for, the last one first.\<close>

fun codegen_pending :: "nat \<Rightarrow> nat \<Rightarrow> genv \<Rightarrow> unit cgm" where
  "codegen_pending n k g s =
     (if cg_pending s = [] then Inr ((), s)
      else case n of
        0 \<Rightarrow> Inl NoFuel
      | Suc n' \<Rightarrow>
          let inst = last (cg_pending s)
          in bindR (codegenFunction k (g\<lparr>ge_inst := Some inst\<rparr>) inst (s\<lparr>cg_pending := butlast (cg_pending s)\<rparr>))
               (\<lambda>(_, s'). codegen_pending n' k g s'))"

declare codegen_pending.simps [simp del]

definition entry_decl :: "str \<Rightarrow> location \<Rightarrow> ast \<Rightarrow> fn_decl" where
  "entry_decl name loc root =
     \<lparr>fd_addr = None, fd_name = name, fd_type = None, fd_location = loc, fd_tyargs = [], fd_args = [],
      fd_attributes = 0, fd_body = Some root, fd_parent = None, fd_module = None\<rparr>"

text \<open>One module, into what the modules before it have left; the answer is its entry function.\<close>

definition codegen :: "nat \<Rightarrow> nat \<Rightarrow> genv \<Rightarrow> ast \<Rightarrow> val cgm" where
  "codegen n k g root =
     bindC (modifyC (\<lambda>s. s\<lparr>cg_vars := [], cg_pending := [], cg_insert := None, cg_loc := None, cg_scopes := []\<rparr>)) (\<lambda>_.
     bindC codegenPrepare (\<lambda>_.
       case ast_node root of
         Module nm b ai \<Rightarrow>
           (let name = nm @ ''.entry''; t = LFun LVoid [] in
            bindC (if ge_debug g \<noteq> 0 then push_scope (DCompileUnit (l_source (astLocation root)) (ge_debug g > 1))
                   else unitC ()) (\<lambda>_.
            bindC (CreateFunction name t) (\<lambda>entry.
            bindC (modifyC (\<lambda>s. s\<lparr>cg_pending := [FnInst name t (entry_decl name (astLocation root) root) None []]\<rparr>)) (\<lambda>_.
            bindC (codegen_pending n k g) (\<lambda>_. unitC entry)))))
       | _ \<Rightarrow> failC AssertFail))"

definition codegenMain :: "val list \<Rightarrow> unit cgm" where
  "codegenMain entries =
     (let tmain = LFun LVoid []; tentry = LFun i32 [] in
      bindC (set_loc None) (\<lambda>_.
      bindC (getOrInsertFunction ''aikeMain'' tmain) (\<lambda>main.
      bindC CreateBlock (\<lambda>mainbb.
      bindC (enter_block ''aikeMain'' mainbb) (\<lambda>_.
      bindC (mapC (\<lambda>e. emitU (OCall e [])) entries) (\<lambda>_.
      bindC (emitU ORetVoid) (\<lambda>_.
      bindC (getOrInsertFunction ''main'' tentry) (\<lambda>entry.
      bindC CreateBlock (\<lambda>entrybb.
      bindC (enter_block ''main'' entrybb) (\<lambda>_.
      bindC (getOrInsertFunction ''aikeEntry'' (LFun i32 [LPtr tmain])) (\<lambda>runtimeEntry.
      bindC (emit (OCall runtimeEntry [main])) (\<lambda>ret.
        emitU (ORet ret)))))))))))))"

end
