(* ===== verification/CodegenCorrect.thy ===== *)
theory CodegenCorrect
  imports CodegenExpr
begin

text \<open>
  The control flow that code generation builds: every block that a function has ends in its only
  terminator and branches to blocks of the same function.
\<close>

section \<open>Relations between the states before and after\<close>

definition steps_in :: "(cg \<Rightarrow> cg \<Rightarrow> bool) \<Rightarrow> 'a cgm \<Rightarrow> bool" where
  "steps_in R m = (\<forall>s x s'. m s = Inr (x, s') \<longrightarrow> R s s')"

locale cg_rel =
  fixes R :: "cg \<Rightarrow> cg \<Rightarrow> bool"
  assumes refl: "R s s"
    and trans: "R s s1 \<Longrightarrow> R s1 s2 \<Longrightarrow> R s s2"
begin

lemma unit: "steps_in R (unitC x)" "steps_in R (answer v)" "steps_in R (failC e)" "steps_in R (assertC b)"
  "steps_in R (liftC r)" "steps_in R (getC h)" "steps_in R (need w)"
  by (auto simp: steps_in_def unitC_def answer_def failC_def assertC_def liftC_def getC_def need_def bindR_eq_Inr refl
      split: option.splits)

lemma bind: "steps_in R m \<Longrightarrow> (\<And>x. steps_in R (h x)) \<Longrightarrow> steps_in R (bindC m h)"
  unfolding steps_in_def bindC_def by (fastforce simp: bindR_eq_Inr intro: trans)

lemma map: "(\<And>x. x \<in> set xs \<Longrightarrow> steps_in R (h x)) \<Longrightarrow> steps_in R (mapC h xs)"
  by (induction xs) (auto intro!: bind unit)

lemma fold: "(\<And>x y. x \<in> set xs \<Longrightarrow> steps_in R (h x y)) \<Longrightarrow> steps_in R (foldC h xs y)"
  by (induction xs arbitrary: y) (auto intro!: bind unit)

lemma pointee: "steps_in R (pointee t)"
  by (auto simp: pointee_def unit split: lty.splits)

lemma type_of: "steps_in R (type_of a)"
  by (auto simp: type_of_def unit split: option.splits)

lemma insert_block: "steps_in R GetInsertBlock" "steps_in R (parent_of b)"
  by (auto simp: GetInsertBlock_def parent_of_def intro!: bind unit split: option.splits)

lemma child: "(\<And>a m. steps_in R (ce a m)) \<Longrightarrow> steps_in R (value_of ce a)"
  "(\<And>a m. steps_in R (ce a m)) \<Longrightarrow> steps_in R (ref_of ce a)"
  by (auto simp: value_of_def ref_of_def intro!: bind unit)

lemmas basic = unit bind map fold pointee type_of insert_block child

end

text \<open>Most of the generator leaves the blocks, the insertion point and the output alone.\<close>

definition fblocks :: "cg \<Rightarrow> nat set" where
  "fblocks s = (\<Union>g \<in> set (cg_funs s). set (fn_blocks g))"

definition same_blocks :: "cg \<Rightarrow> cg \<Rightarrow> bool" where
  "same_blocks s s' =
     (cg_blocks s' = cg_blocks s \<and> cg_insert s' = cg_insert s \<and> cg_output s' = cg_output s \<and> fblocks s' = fblocks s \<and>
      cg_loc s' = cg_loc s \<and> cg_scopes s' = cg_scopes s \<and> cg_locs s' = cg_locs s \<and> cg_calls s' = cg_calls s)"

interpretation quiet: cg_rel same_blocks
  by unfold_locales (auto simp: same_blocks_def)

lemma quiet_modify: "(\<And>s. same_blocks s (h s)) \<Longrightarrow> steps_in same_blocks (modifyC h)"
  by (simp add: steps_in_def modifyC_def)

lemma quiet_updates:
  "steps_in same_blocks (set_struct_body nm b)" "steps_in same_blocks (set_info nm d)"
  "steps_in same_blocks (codegenVariable a v)" "steps_in same_blocks (CreateFunction nm t)"
  "steps_in same_blocks (member_type g ty i)" "steps_in same_blocks (finalType g ty)"
  "steps_in same_blocks (addIncoming p v bb)" "steps_in same_blocks (set_dstruct nm n' bits ms)"
  by (auto simp: set_struct_body_def set_info_def set_dstruct_def codegenVariable_def CreateFunction_def member_type_def finalType_def
      addIncoming_def same_blocks_def fblocks_def steps_in_def modifyC_def bindC_def unitC_def failC_def bindR_eq_Inr split: val.splits)

lemma quiet_getOrInsert: "steps_in same_blocks (getOrInsertFunction nm t)"
  by (auto simp: getOrInsertFunction_def intro!: quiet.basic quiet_updates split: option.splits)

lemma quiet_codegenType: "steps_in same_blocks (codegenType k g t)"
proof (induction k arbitrary: t)
  case (Suc k)
  note [intro!] = quiet.basic quiet_updates
  show ?case by (auto split: option.splits ty.splits intro!: Suc)
qed (simp add: quiet.unit)

lemma quiet_codegenTypeInfo: "steps_in same_blocks (codegenTypeInfo k g t)"
proof (induction k arbitrary: t)
  case (Suc k)
  note [intro!] = quiet.basic quiet_updates quiet_codegenType
  show ?case
    by (auto simp: codegenMakeTypeInfo_def split: option.splits ty.splits intro!: Suc)
qed (simp add: quiet.unit)

lemma quiet_parts: "steps_in same_blocks (part_type t i)"
  by (auto simp: part_type_def parts_of_def intro!: quiet.basic split: lty.splits option.splits)

lemma quiet_back_scope: "steps_in same_blocks back_scope"
  by (auto simp: back_scope_def intro!: quiet.basic)

lemma quiet_codegenTypeDebug: "steps_in same_blocks (codegenTypeDebug k g t)"
proof (induction k arbitrary: t)
  case (Suc k)
  note [intro!] = quiet.basic quiet_updates quiet_codegenType quiet_parts
  show ?case
    by (auto simp: debug_slice_def debug_member_def Let_def split: option.splits ty.splits intro!: Suc)
qed (simp add: quiet.unit)

lemma quiet_functionDecl: "steps_in same_blocks (codegenFunctionDecl k g d u t tyargs)"
  by (auto simp: codegenFunctionDecl_def Let_def intro!: quiet.basic quiet_updates quiet_codegenType quiet_modify
      split: option.splits) (simp add: same_blocks_def fblocks_def)

lemma quiet_codegenFn: "steps_in same_blocks (codegenFn k g n d)"
  by (auto simp: codegenFn_def intro!: quiet.basic quiet_functionDecl split: option.splits)

lemma quiet_newArrEmpty: "steps_in same_blocks (codegenNewArrEmpty k g t)"
  by (auto simp: codegenNewArrEmpty_def intro!: quiet.basic quiet_codegenType)

lemma quiet_given: "steps_in same_blocks (given_fields fs n)"
  by (auto simp: given_fields_def intro!: quiet.basic)

lemmas quiet_ops = quiet_updates quiet_getOrInsert quiet_codegenType quiet_codegenTypeInfo quiet_functionDecl
  quiet_codegenFn quiet_newArrEmpty quiet_given quiet_codegenTypeDebug quiet_back_scope

section \<open>Expressions\<close>

text \<open>
  What is enough for a relation to hold over the generation of any expression: that it holds over calls,
  and over the constructs that make blocks, if it holds over their parts.
\<close>

locale cg_frame = cg_rel +
  assumes quiet: "same_blocks s s' \<Longrightarrow> R s s'"
    and emit: "\<not> is_term c \<Longrightarrow> steps_in R (emit c)"
    and alloca: "steps_in R (codegenAlloca t n)"
    and trap: "steps_in R (codegenTrapIf cond d)"
    and andor: "(\<And>a m. steps_in R (ce a m)) \<Longrightarrow> steps_in R (codegenBinaryAndOr ce bop l r)"
    and ifelse: "(\<And>a m. steps_in R (ce a m)) \<Longrightarrow> steps_in R (codegenIf ce c' t' e')"
    and for_loop: "(\<And>a m. steps_in R (ce a m)) \<Longrightarrow> steps_in R (codegenFor ce v i e body)"
    and while_loop: "(\<And>a m. steps_in R (ce a m)) \<Longrightarrow> steps_in R (codegenWhile ce e body)"
    and at_loc: "steps_in R m \<Longrightarrow> steps_in R (at_location loc (m :: val option cgm))"
    and at_loc_unit: "steps_in R m' \<Longrightarrow> steps_in R (at_location loc (m' :: unit cgm))"
begin

lemma lift: "steps_in same_blocks m \<Longrightarrow> steps_in R m"
  using quiet by (auto simp: steps_in_def)

lemma emitU: "\<not> is_term c \<Longrightarrow> steps_in R (emitU c)"
  by (auto simp: emitU_def intro!: basic emit)

lemmas ops = basic quiet_ops [THEN lift] emit emitU alloca trap

lemma new: "steps_in R (codegenNew k g t)" "steps_in R (codegenNewArr k g t n)"
  by (auto simp: codegenNew_def codegenNewArr_def intro!: ops)

lemma declared: "steps_in R (declare_variable k g file arg x v)"
  by (auto simp: declare_variable_def Let_def intro!: ops at_loc_unit)

lemma declared_args: "steps_in R (declare_args k g d vs)"
  by (auto simp: declare_args_def intro!: ops declared split: option.splits)

lemma located: "steps_in R m \<Longrightarrow> steps_in R (located g root (m :: val option cgm))"
  by (auto simp: located_def with_location_def intro!: at_loc unit split: node.splits option.splits)

lemma node:
  assumes ce: "\<And>a m. steps_in R (ce a m)"
  shows "steps_in R (codegen_node k g ce root mode)"
proof -
  note [intro!] = ops new ce declared
  show ?thesis
  proof (cases "ast_node root")
    case (LiteralStruct nm fs)
    then show ?thesis
      by (auto simp: codegen_node_def codegenLiteralStruct_def default_field_def split: ty.splits option.splits)
  next
    case (Ident nm tyargs tgs res)
    then show ?thesis
      by (auto simp: codegen_node_def codegenIdent_def Let_def split: option.splits variable_kind.splits)
  next
    case (Call e args)
    then show ?thesis
      by (auto simp: codegen_node_def codegenCall_def call_args_def extra_arg_def Let_def split: ty.splits)
  next
    case (Binary bop l r)
    then show ?thesis by (auto simp: codegen_node_def codegenBinary_def intro!: andor)
  next
    case (If c t e)
    then show ?thesis by (auto simp: codegen_node_def intro!: ifelse)
  next
    case (For v i e b)
    then show ?thesis by (auto simp: codegen_node_def intro!: for_loop)
  next
    case (While e b)
    then show ?thesis by (auto simp: codegen_node_def intro!: while_loop)
  qed (auto simp: codegen_node_def codegenLiteralString_def codegenLiteralTuple_def codegenLiteralArray_def
      codegenMember_def codegenBlock_def codegenUnary_def codegenIndex_def codegenAssign_def codegenVarDecl_def
      split: ty.splits unary_op.splits option.splits)
qed

lemma expr: "steps_in R (codegenExpr k g root mode)"
proof (induction k arbitrary: root mode)
  case (Suc k)
  from located [OF node [OF Suc]] show ?case by simp
qed (simp add: unit)

end

section \<open>Blocks\<close>

definition open_body :: "(nat \<times> op) list \<Rightarrow> bool" where
  "open_body is = list_all (\<lambda>i. \<not> is_term (snd i)) is"

definition closed_body :: "(nat \<times> op) list \<Rightarrow> bool" where
  "closed_body is = (is \<noteq> [] \<and> is_term (snd (last is)) \<and> open_body (butlast is))"

definition jumps :: "(nat \<times> op) list \<Rightarrow> nat set" where
  "jumps is = (\<Union>i \<in> set is. set (targets (snd i)))"

definition owner :: "cg \<Rightarrow> nat \<Rightarrow> str option" where
  "owner s b = (if b < length (cg_blocks s) then bb_fun (cg_blocks s ! b) else None)"

definition body_of :: "cg \<Rightarrow> nat \<Rightarrow> (nat \<times> op) list" where
  "body_of s b = bb_body (cg_blocks s ! b)"

text \<open>
  Blocks that are no function's yet but will be of \<open>f\<close> are in \<open>P\<close>; those in \<open>Q\<close> are of \<open>f\<close>. A block
  branches to blocks of its own function or, in \<open>f\<close>, to those in \<open>P\<close>.
\<close>

definition flow :: "str \<Rightarrow> nat set \<Rightarrow> nat set \<Rightarrow> cg \<Rightarrow> bool" where
  "flow f P Q s =
     (fblocks s \<subseteq> {b. owner s b \<noteq> None} \<and>
      (\<forall>p \<in> P. p < length (cg_blocks s) \<and> owner s p = None \<and> body_of s p = []) \<and>
      (\<forall>q \<in> Q. owner s q = Some f) \<and>
      (\<forall>b h. owner s b = Some h \<longrightarrow>
         (\<forall>c \<in> jumps (body_of s b). owner s c = Some h \<or> (h = f \<and> c \<in> P))))"

definition shut :: "str \<Rightarrow> nat set \<Rightarrow> nat set \<Rightarrow> cg \<Rightarrow> bool" where
  "shut f P Q s = (flow f P Q s \<and> (\<forall>b. owner s b \<noteq> None \<longrightarrow> closed_body (body_of s b)))"

definition frag :: "str \<Rightarrow> nat set \<Rightarrow> nat set \<Rightarrow> cg \<Rightarrow> bool" where
  "frag f P Q s =
     (flow f P Q s \<and>
      (\<exists>cur. cg_insert s = Some cur \<and> owner s cur = Some f \<and> open_body (body_of s cur) \<and>
         (\<forall>b. b \<noteq> cur \<longrightarrow> owner s b \<noteq> None \<longrightarrow> closed_body (body_of s b))))"

definition triple :: "(cg \<Rightarrow> bool) \<Rightarrow> 'a cgm \<Rightarrow> (cg \<Rightarrow> bool) \<Rightarrow> bool" where
  "triple A m B = (\<forall>s x s'. A s \<longrightarrow> m s = Inr (x, s') \<longrightarrow> B s')"

definition keeps :: "str \<Rightarrow> cg \<Rightarrow> cg \<Rightarrow> bool" where
  "keeps f s s' = (\<forall>P Q. frag f P Q s \<longrightarrow> frag f P Q s')"

lemma keeps_triple: "steps_in (keeps f) m \<longleftrightarrow> (\<forall>P Q. triple (frag f P Q) m (frag f P Q))"
  by (auto simp: steps_in_def keeps_def triple_def)

interpretation kept: cg_rel "keeps f"
  by unfold_locales (auto simp: keeps_def)

lemma owner_length: "owner s b = Some h \<Longrightarrow> b < length (cg_blocks s)"
  by (simp add: owner_def split: if_splits)

lemma nth_update: "xs[i := v] ! j = (if i = j \<and> j < length xs then v else xs ! j)"
  by (cases "i = j"; cases "j < length xs") (simp_all add: list_update_beyond)

lemma frag_cong:
  assumes "cg_blocks s' = cg_blocks s" "cg_insert s' = cg_insert s" "fblocks s' = fblocks s"
  shows "frag f P Q s' = frag f P Q s"
  using assms unfolding frag_def flow_def owner_def body_of_def by (simp only:)

lemma same_blocks_keeps: "same_blocks s s' \<Longrightarrow> keeps f s s'"
  by (simp add: keeps_def same_blocks_def frag_cong [of s' s])

lemma owner_set_block [simp]:
  "owner (set_block b (bb_body_update h) s) c = owner s c"
  by (simp add: owner_def set_block_def nth_update)

lemma body_set_block:
  "body_of (set_block b (bb_body_update h) s) c =
     (if c = b \<and> b < length (cg_blocks s) then h (body_of s b) else body_of s c)"
  by (simp add: body_of_def set_block_def nth_update)

lemma frag_note_loc [simp]: "frag f P Q (note_loc n s) = frag f P Q s"
  by (rule frag_cong) (simp_all add: note_loc_def fblocks_def)

text \<open>A change of one body that adds no terminator and no jump.\<close>

lemma frag_set_block:
  assumes "frag f P Q s" "owner s b \<noteq> None"
    and "\<And>is. jumps (h is) = jumps is" "\<And>is. open_body is \<Longrightarrow> open_body (h is)"
    and "\<And>is. b \<noteq> the (cg_insert s) \<Longrightarrow> closed_body is \<Longrightarrow> closed_body (h is)"
  shows "frag f P Q ((set_block b (bb_body_update h) s)\<lparr>cg_calls := n\<rparr>)"
proof -
  let ?s = "(set_block b (bb_body_update h) s)\<lparr>cg_calls := n\<rparr>"
  have o: "owner ?s c = owner s c" "length (cg_blocks ?s) = length (cg_blocks s)" "cg_insert ?s = cg_insert s" for c
    by (simp_all add: owner_def set_block_def nth_update)
  have body: "body_of ?s c = (if c = b then h (body_of s b) else body_of s c)" for c
    using assms(2) by (auto simp: body_of_def set_block_def nth_update owner_def)
  have j: "jumps (body_of ?s c) = jumps (body_of s c)" for c by (simp add: body assms(3))
  from assms(1) obtain cur where fl: "flow f P Q s" and cur: "cg_insert s = Some cur" "owner s cur = Some f"
    "open_body (body_of s cur)" "\<forall>c. c \<noteq> cur \<longrightarrow> owner s c \<noteq> None \<longrightarrow> closed_body (body_of s c)"
    by (auto simp: frag_def)
  have len: "length (cg_blocks (set_block b (bb_body_update h) s)) = length (cg_blocks s)"
    by (simp add: set_block_def)
  have fb: "fblocks ?s = fblocks s" by (simp add: fblocks_def set_block_def)
  from fl assms(2) have "flow f P Q ?s" by (auto simp: flow_def fb o len body assms(3))
  moreover have "open_body (body_of ?s cur)" using cur(3) assms(4) [of "body_of s cur"] by (auto simp: body)
  moreover have "\<forall>c. c \<noteq> cur \<longrightarrow> owner ?s c \<noteq> None \<longrightarrow> closed_body (body_of ?s c)"
    using cur(1,4) assms(5) by (auto simp: o body)
  ultimately show ?thesis using cur(1,2) unfolding frag_def o by blast
qed

lemma jumps_snoc: "jumps (is @ [i]) = jumps is \<union> set (targets (snd i))"
  by (auto simp: jumps_def)

lemma term_targets: "\<not> is_term c \<Longrightarrow> targets c = []"
  by (cases c) simp_all

lemma quiet_op_type: "steps_in same_blocks (op_type c)"
  by (auto simp: op_type_def part_type_def parts_of_def intro!: quiet.basic split: op.splits lty.splits option.splits)

text \<open>A call at the end of the insertion point.\<close>

lemma emit_cases:
  assumes "emit c s = Inr (x, s')"
  obtains cur s1 where "cg_insert s = Some cur" "same_blocks s s1"
    "s' = note_loc (cg_calls s1) ((set_block cur (bb_body_update (\<lambda>is. is @ [(cg_calls s1, c)])) s1)\<lparr>cg_calls := cg_calls s1 + 1\<rparr>)"
proof -
  from assms obtain cur t s1 where "cg_insert s = Some cur" and t: "op_type c s = Inr (t, s1)"
    and s': "s' = note_loc (cg_calls s1) ((set_block cur (bb_body_update (\<lambda>is. is @ [(cg_calls s1, c)])) s1)\<lparr>cg_calls := cg_calls s1 + 1\<rparr>)"
    by (auto simp: emit_def GetInsertBlock_def bindC_def getC_def unitC_def failC_def modifyC_def bindR_eq_Inr
        split: option.splits)
  moreover have "same_blocks s s1" using quiet_op_type [of c] t by (auto simp: steps_in_def)
  ultimately show ?thesis using that by blast
qed

lemma kept_emit: "\<not> is_term c \<Longrightarrow> steps_in (keeps f) (emit c)"
  unfolding keeps_triple triple_def
proof (intro allI impI)
  fix P Q s x s'
  assume c: "\<not> is_term c" and s: "frag f P Q s" and e: "emit c s = Inr (x, s')"
  from e show "frag f P Q s'"
  proof (cases rule: emit_cases)
    case (1 cur s1)
    from s have s1: "frag f P Q s1" using same_blocks_keeps [OF 1(2)] by (simp add: keeps_def)
    with 1 have cur: "cg_insert s1 = Some cur" "owner s1 cur \<noteq> None"
      by (auto simp: frag_def same_blocks_def)
    show ?thesis unfolding 1(3) frag_note_loc
      by (rule frag_set_block [OF s1 cur(2)])
        (use c cur(1) in \<open>auto simp: jumps_snoc term_targets open_body_def\<close>)
  qed
qed

lemma shut_term:
  assumes "is_term c" "set (targets c) \<subseteq> P \<union> Q"
  shows "triple (frag f P Q) (emit c) (shut f P Q)"
  unfolding triple_def
proof (intro allI impI)
  fix s x s'
  assume s: "frag f P Q s" and e: "emit c s = Inr (x, s')"
  from e show "shut f P Q s'"
  proof (cases rule: emit_cases)
    case (1 cur s1)
    from s have "frag f P Q s1" using same_blocks_keeps [OF 1(2)] by (simp add: keeps_def)
    with 1 have fl: "flow f P Q s1" and cur: "owner s1 cur = Some f" "open_body (body_of s1 cur)"
      "\<forall>c. c \<noteq> cur \<longrightarrow> owner s1 c \<noteq> None \<longrightarrow> closed_body (body_of s1 c)"
      by (auto simp: frag_def same_blocks_def)
    have o: "owner s' b = owner s1 b" "length (cg_blocks s') = length (cg_blocks s1)" for b
      using 1(3) by (simp_all add: owner_def set_block_def nth_update note_loc_def)
    have body: "body_of s' b = (if b = cur then body_of s1 cur @ [(cg_calls s1, c)] else body_of s1 b)" for b
      using 1(3) owner_length [OF cur(1)] by (auto simp: body_of_def set_block_def nth_update note_loc_def)
    have fb: "fblocks s' = fblocks s1" using 1(3) by (simp add: fblocks_def set_block_def note_loc_def)
    have "closed_body (body_of s' cur)" using cur(2) assms(1) by (simp add: body closed_body_def)
    moreover have "flow f P Q s'"
      using fl assms(2) cur(1) by (auto simp: flow_def fb o body jumps_snoc) blast+
    ultimately show ?thesis using cur(3) by (auto simp: shut_def o body)
  qed
qed

lemma set_insert_first: "set (insert_first i is) = insert i (set is)"
proof -
  have "set (takeWhile is_phi is) \<union> set (dropWhile is_phi is) = set is"
    by (metis set_append takeWhile_dropWhile_id)
  then show ?thesis by (auto simp: insert_first_def)
qed

lemma jumps_insert_first: "targets (snd i) = [] \<Longrightarrow> jumps (insert_first i is) = jumps is"
  by (simp add: jumps_def set_insert_first)

lemma open_insert_first: "\<not> is_term (snd i) \<Longrightarrow> open_body is \<Longrightarrow> open_body (insert_first i is)"
  by (simp add: open_body_def list_all_iff set_insert_first)

lemma closed_insert_first:
  assumes "\<not> is_term (snd i)" "closed_body is"
  shows "closed_body (insert_first i is)"
proof -
  have last: "is \<noteq> []" "is_term (snd (last is))" using assms(2) by (auto simp: closed_body_def)
  then have "\<not> is_phi (last is)" by (cases "snd (last is)") (simp_all add: is_phi_def)
  then have d: "dropWhile is_phi is \<noteq> []" using last(1) by (metis dropWhile_eq_Nil_conv last_in_set)
  have "is = takeWhile is_phi is @ dropWhile is_phi is" by simp
  with d have split: "last is = last (dropWhile is_phi is)"
    "butlast is = takeWhile is_phi is @ butlast (dropWhile is_phi is)"
    by (metis last_appendR, metis butlast_append)
  with assms d show ?thesis
    by (simp add: closed_body_def insert_first_def open_body_def butlast_append)
qed

lemma kept_alloca: "steps_in (keeps f) (codegenAlloca t n)"
  unfolding steps_in_def keeps_def
proof (intro allI impI)
  fix s x s' P Q
  assume a: "codegenAlloca t n s = Inr (x, s')" and s: "frag f P Q s"
  from a obtain bb g where s': "s' = note_loc (cg_calls s) ((set_block bb (bb_body_update (insert_first (cg_calls s, OAlloca t n))) s)\<lparr>cg_calls := cg_calls s + 1\<rparr>)"
    and g: "g \<in> set (cg_funs s)" "bb \<in> set (fn_blocks g)"
    by (auto simp: codegenAlloca_def GetInsertBlock_def parent_of_def bindC_def getC_def unitC_def failC_def modifyC_def
        bindR_eq_Inr find_fun_def find_Some_iff split: option.splits list.splits bind_splits)
      (metis list.set_intros(1) nth_mem)
  from g s have "owner s bb \<noteq> None" by (auto simp: frag_def flow_def fblocks_def)
  show "frag f P Q s'" unfolding s' frag_note_loc
    by (rule frag_set_block [OF s \<open>owner s bb \<noteq> None\<close>])
      (simp_all add: jumps_insert_first open_insert_first closed_insert_first)
qed

section \<open>Rules in the order of the code\<close>

text \<open>Each rule takes the first step of a sequence; what is left is a triple for the others.\<close>

lemma triple_bind: "triple A m B \<Longrightarrow> (\<And>x. triple B (h x) C) \<Longrightarrow> triple A (bindC m h) C"
  unfolding triple_def bindC_def by (fastforce simp: bindR_eq_Inr)

lemma triple_kept: "steps_in (keeps f) m \<Longrightarrow> triple (frag f P Q) m (frag f P Q)"
  by (simp add: keeps_triple)

lemma step_kept:
  "steps_in (keeps f) m \<Longrightarrow> (\<And>x. triple (frag f P Q) (h x) C) \<Longrightarrow> triple (frag f P Q) (bindC m h) C"
  by (rule triple_bind [OF triple_kept])

lemma step_parent:
  assumes "triple (frag f P Q) (h f) C"
  shows "triple (frag f P Q) (bindC GetInsertBlock (\<lambda>ib. bindC (parent_of ib) h)) C"
  unfolding triple_def
proof (intro allI impI)
  fix s x s'
  assume s: "frag f P Q s" and r: "bindC GetInsertBlock (\<lambda>ib. bindC (parent_of ib) h) s = Inr (x, s')"
  from s obtain cur where "cg_insert s = Some cur" "bb_fun (cg_blocks s ! cur) = Some f"
    by (auto simp: frag_def owner_def split: if_splits)
  with r have "h f s = Inr (x, s')"
    by (simp add: bindC_def GetInsertBlock_def parent_of_def getC_def unitC_def)
  with s assms show "C s'" by (auto simp: triple_def)
qed

lemma emitU_eq: "bindC (emitU c) h = bindC (emit c) (\<lambda>_. h ())"
  by (rule ext) (simp add: emitU_def bindC_def unitC_def bindR_assoc case_prod_unfold)

lemma step_term:
  "is_term c \<Longrightarrow> set (targets c) \<subseteq> P \<union> Q \<Longrightarrow> triple (shut f P Q) (h ()) C \<Longrightarrow>
   triple (frag f P Q) (bindC (emitU c) h) C"
  unfolding emitU_eq by (rule triple_bind [OF shut_term])

lemma end_term: "is_term c \<Longrightarrow> set (targets c) \<subseteq> P \<union> Q \<Longrightarrow> triple (frag f P Q) (emitU c) (shut f P Q)"
  unfolding emitU_def by (rule triple_bind [OF shut_term]) (auto simp: triple_def unitC_def)

text \<open>A new block.\<close>

lemma owner_create:
  "owner (s\<lparr>cg_blocks := cg_blocks s @ [\<lparr>bb_fun = None, bb_body = []\<rparr>]\<rparr>) b = owner s b"
  by (auto simp: owner_def nth_append less_Suc_eq)

lemma create_flow:
  assumes "flow f P Q s"
  shows "flow f (insert (length (cg_blocks s)) P) Q (s\<lparr>cg_blocks := cg_blocks s @ [\<lparr>bb_fun = None, bb_body = []\<rparr>]\<rparr>)"
proof -
  let ?s = "s\<lparr>cg_blocks := cg_blocks s @ [\<lparr>bb_fun = None, bb_body = []\<rparr>]\<rparr>"
  have body: "body_of ?s b = body_of s b" if "b < length (cg_blocks s)" for b
    using that by (simp add: body_of_def nth_append)
  have last: "body_of ?s (length (cg_blocks s)) = []" "owner s (length (cg_blocks s)) = None"
    by (simp_all add: body_of_def owner_def)
  have fb: "fblocks ?s = fblocks s" by (simp add: fblocks_def)
  have jump: "owner s c = Some h \<or> (h = f \<and> c \<in> insert (length (cg_blocks s)) P)"
    if "owner s b = Some h" "c \<in> jumps (body_of ?s b)" for b h c
  proof -
    have "c \<in> jumps (body_of s b)" using that body [OF owner_length [OF that(1)]] by simp
    with assms that(1) show ?thesis unfolding flow_def by blast
  qed
  show ?thesis
    using assms jump unfolding flow_def owner_create fb by (auto simp: body last)
qed

lemma create_bodies:
  assumes "owner s b \<noteq> None"
  shows "body_of (s\<lparr>cg_blocks := cg_blocks s @ [\<lparr>bb_fun = None, bb_body = []\<rparr>]\<rparr>) b = body_of s b"
  using assms by (auto simp: body_of_def nth_append owner_def split: if_splits)

lemma CreateBlock_eq:
  "CreateBlock s = Inr (length (cg_blocks s), s\<lparr>cg_blocks := cg_blocks s @ [\<lparr>bb_fun = None, bb_body = []\<rparr>]\<rparr>)"
  by (simp add: CreateBlock_def bindC_def getC_def modifyC_def unitC_def)

lemma flow_fresh: "flow f P Q s \<Longrightarrow> length (cg_blocks s) \<notin> P \<union> Q"
  by (auto simp: flow_def dest: owner_length)

lemma step_create:
  assumes "\<And>b. b \<notin> P \<union> Q \<Longrightarrow> triple (frag f (insert b P) Q) (h b) C"
  shows "triple (frag f P Q) (bindC CreateBlock h) C"
  unfolding triple_def
proof (intro allI impI)
  fix s x s'
  assume s: "frag f P Q s" and r: "bindC CreateBlock h s = Inr (x, s')"
  let ?s = "s\<lparr>cg_blocks := cg_blocks s @ [\<lparr>bb_fun = None, bb_body = []\<rparr>]\<rparr>"
  from s have fl: "flow f P Q s" by (simp add: frag_def)
  have "frag f (insert (length (cg_blocks s)) P) Q ?s"
    using s create_flow [OF fl] unfolding frag_def owner_create by (auto simp: create_bodies)
  with assms [OF flow_fresh [OF fl]] r show "C s'"
    by (simp add: triple_def bindC_def CreateBlock_eq)
qed

lemma shut_create:
  assumes "\<And>b. b \<notin> P \<union> Q \<Longrightarrow> triple (shut f (insert b P) Q) (h b) C"
  shows "triple (shut f P Q) (bindC CreateBlock h) C"
  unfolding triple_def
proof (intro allI impI)
  fix s x s'
  assume s: "shut f P Q s" and r: "bindC CreateBlock h s = Inr (x, s')"
  let ?s = "s\<lparr>cg_blocks := cg_blocks s @ [\<lparr>bb_fun = None, bb_body = []\<rparr>]\<rparr>"
  from s have fl: "flow f P Q s" by (simp add: shut_def)
  have "shut f (insert (length (cg_blocks s)) P) Q ?s"
    using s create_flow [OF fl] unfolding shut_def owner_create by (auto simp: create_bodies)
  with assms [OF flow_fresh [OF fl]] r show "C s'"
    by (simp add: triple_def bindC_def CreateBlock_eq)
qed

text \<open>A block goes to the function and becomes the insertion point.\<close>

lemma enter_eq:
  "enter_block f b s = Inr ((),
     (update_fun f (fn_blocks_update (\<lambda>bs. bs @ [b])) (set_block b (bb_fun_update (\<lambda>_. Some f)) s))\<lparr>cg_insert := Some b\<rparr>)"
  by (simp add: enter_block_def push_block_def SetInsertPoint_def bindC_def modifyC_def)

lemma end_enter:
  assumes "b \<in> P"
  shows "triple (shut f P Q) (enter_block f b) (frag f (P - {b}) (insert b Q))"
  unfolding triple_def
proof (intro allI impI)
  fix s x s'
  assume s: "shut f P Q s" and r: "enter_block f b s = Inr (x, s')"
  then have s': "s' = (update_fun f (fn_blocks_update (\<lambda>bs. bs @ [b])) (set_block b (bb_fun_update (\<lambda>_. Some f)) s))\<lparr>cg_insert := Some b\<rparr>"
    by (simp add: enter_eq)
  from s assms have fl: "flow f P Q s" and b: "b < length (cg_blocks s)" "owner s b = None" "body_of s b = []"
    by (auto simp: shut_def flow_def)
  have len: "length (cg_blocks s') = length (cg_blocks s)" by (simp add: s' update_fun_def set_block_def)
  have o: "owner s' c = (if c = b then Some f else owner s c)" for c
    using b(1) by (auto simp: owner_def len) (auto simp: s' update_fun_def set_block_def nth_update)
  have body: "body_of s' c = body_of s c" for c
    by (simp add: s' body_of_def update_fun_def set_block_def nth_update)
  have fb: "fblocks s' \<subseteq> insert b (fblocks s)"
    by (auto simp: s' fblocks_def update_fun_def set_block_def split: if_splits)
  have "flow f (P - {b}) (insert b Q) s'"
    unfolding flow_def
  proof (intro conjI)
    show "fblocks s' \<subseteq> {c. owner s' c \<noteq> None}" using fb fl by (auto simp: flow_def o)
    show "\<forall>p \<in> P - {b}. p < length (cg_blocks s') \<and> owner s' p = None \<and> body_of s' p = []"
      using fl by (auto simp: flow_def o len body)
    show "\<forall>q \<in> insert b Q. owner s' q = Some f" using fl by (auto simp: flow_def o)
    show "\<forall>c h. owner s' c = Some h \<longrightarrow>
        (\<forall>d \<in> jumps (body_of s' c). owner s' d = Some h \<or> (h = f \<and> d \<in> P - {b}))"
    proof (intro allI impI ballI)
      fix c h d
      assume c: "owner s' c = Some h" and d: "d \<in> jumps (body_of s' c)"
      show "owner s' d = Some h \<or> (h = f \<and> d \<in> P - {b})"
      proof (cases "c = b")
        case True
        with d b(3) show ?thesis by (simp add: body jumps_def)
      next
        case False
        with c have "owner s c = Some h" by (simp add: o)
        with fl d have "owner s d = Some h \<or> (h = f \<and> d \<in> P)" unfolding flow_def body by blast
        with b(2) show ?thesis by (auto simp: o)
      qed
    qed
  qed
  moreover have "cg_insert s' = Some b" by (simp add: s')
  ultimately show "frag f (P - {b}) (insert b Q) s'"
    using s b(3) by (auto simp: frag_def shut_def o body open_body_def)
qed

lemma step_enter:
  "b \<in> P \<Longrightarrow> triple (frag f (P - {b}) (insert b Q)) (h ()) C \<Longrightarrow> triple (shut f P Q) (bindC (enter_block f b) h) C"
  by (rule triple_bind [OF end_enter]) simp_all

lemma frag_mono: "frag f P Q' s \<Longrightarrow> Q \<subseteq> Q' \<Longrightarrow> frag f P Q s"
  by (auto simp: frag_def flow_def)

lemma end_kept: "steps_in (keeps f) m \<Longrightarrow> P' = P \<Longrightarrow> Q \<subseteq> Q' \<Longrightarrow> triple (frag f P' Q') m (frag f P Q)"
  unfolding keeps_triple triple_def by (meson frag_mono)

lemma end_enter_kept:
  assumes "b \<in> P'" "P' - {b} = P" "Q \<subseteq> Q'"
  shows "triple (shut f P' Q') (enter_block f b) (frag f P Q)"
proof -
  have "Q \<subseteq> insert b Q'" using assms(3) by auto
  with end_enter [OF assms(1), of f Q'] assms(2) show ?thesis
    unfolding triple_def by (blast intro: frag_mono)
qed

section \<open>The constructs that make blocks\<close>

lemma kept_emitU: "\<not> is_term c \<Longrightarrow> steps_in (keeps f) (emitU c)"
  by (auto simp: emitU_def intro!: kept.basic kept_emit)

lemma step_condbr:
  "a \<in> P \<union> Q \<Longrightarrow> b \<in> P \<union> Q \<Longrightarrow> triple (shut f P Q) (h ()) C \<Longrightarrow> triple (frag f P Q) (bindC (emitU (OCondBr v a b)) h) C"
  by (rule step_term) simp_all

lemma step_br: "a \<in> P \<union> Q \<Longrightarrow> triple (shut f P Q) (h ()) C \<Longrightarrow> triple (frag f P Q) (bindC (emitU (OBr a)) h) C"
  by (rule step_term) simp_all

lemma step_unreachable: "triple (shut f P Q) (h ()) C \<Longrightarrow> triple (frag f P Q) (bindC (emitU OUnreachable) h) C"
  by (rule step_term) simp_all

lemma step_call: "triple (frag f P Q) (h ()) C \<Longrightarrow> triple (frag f P Q) (bindC (emitU (OCall g vs)) h) C"
  by (rule step_kept) (simp_all add: kept_emitU)

lemma step_emit: "\<not> is_term c \<Longrightarrow> (\<And>x. triple (frag f P Q) (h x) C) \<Longrightarrow> triple (frag f P Q) (bindC (emit c) h) C"
  by (rule step_kept) (simp_all add: kept_emit)

lemma step_insert: "(\<And>b. triple (frag f P Q) (h b) C) \<Longrightarrow> triple (frag f P Q) (bindC GetInsertBlock h) C"
  by (rule step_kept) (rule kept.insert_block)

lemma quiet_keeps: "steps_in same_blocks m \<Longrightarrow> steps_in (keeps f) m"
  using same_blocks_keeps by (auto simp: steps_in_def)

lemma step_incoming: "triple (frag f P Q) (h ()) C \<Longrightarrow> triple (frag f P Q) (bindC (addIncoming p v b) h) C"
  by (rule step_kept) (simp_all add: quiet_keeps quiet_updates)

lemma step_variable: "triple (frag f P Q) (h ()) C \<Longrightarrow> triple (frag f P Q) (bindC (codegenVariable a v) h) C"
  by (rule step_kept) (simp_all add: quiet_keeps quiet_updates)

lemma end_answer: "P' = P \<Longrightarrow> Q \<subseteq> Q' \<Longrightarrow> triple (frag f P' Q') (answer v) (frag f P Q)"
  by (rule end_kept) (rule kept.unit)

lemmas step_flow = step_create step_condbr step_br step_unreachable step_call step_emit step_incoming step_variable
  step_enter end_answer end_enter_kept

lemma kept_trap: "steps_in (keeps f) (codegenTrapIf c d)"
  unfolding keeps_triple codegenTrapIf_def by (intro allI step_parent) (intro step_flow; auto)

lemma step_child:
  "(\<And>a m. steps_in (keeps f) (ce a m)) \<Longrightarrow> (\<And>x. triple (frag f P Q) (h x) C) \<Longrightarrow>
   triple (frag f P Q) (bindC (value_of ce e) h) C"
  by (rule step_kept [OF kept.child(1)])

lemma step_body:
  "(\<And>a m. steps_in (keeps f) (ce a m)) \<Longrightarrow> (\<And>x. triple (frag f P Q) (h x) C) \<Longrightarrow>
   triple (frag f P Q) (bindC (ce e m) h) C"
  by (rule step_kept)

lemma step_if:
  "(p \<Longrightarrow> triple A (bindC m h) C) \<Longrightarrow> (\<not> p \<Longrightarrow> triple A (bindC m' h) C) \<Longrightarrow> triple A (bindC (if p then m else m') h) C"
  by simp

lemma step_fail: "triple A (bindC (failC e) h) C"
  by (simp add: triple_def bindC_def failC_def)

lemma shut_insert: "(\<And>b. triple (shut f P Q) (h b) C) \<Longrightarrow> triple (shut f P Q) (bindC GetInsertBlock h) C"
  by (auto simp: triple_def bindC_def GetInsertBlock_def getC_def unitC_def failC_def bindR_eq_Inr split: option.splits)

lemma same_blocks_shut:
  assumes "same_blocks s s'"
  shows "shut f P Q s' = shut f P Q s"
proof -
  have "cg_blocks s' = cg_blocks s" "fblocks s' = fblocks s" using assms by (simp_all add: same_blocks_def)
  then show ?thesis unfolding shut_def flow_def owner_def body_of_def by (simp only:)
qed

lemma triple_quiet: "steps_in same_blocks m \<Longrightarrow> triple (shut f P Q) m (shut f P Q)"
  unfolding triple_def steps_in_def using same_blocks_shut by blast

lemma shut_quiet:
  "steps_in same_blocks m \<Longrightarrow> (\<And>x. triple (shut f P Q) (h x) C) \<Longrightarrow> triple (shut f P Q) (bindC m h) C"
  by (rule triple_bind [OF triple_quiet])

lemma shut_incoming: "triple (shut f P Q) (h ()) C \<Longrightarrow> triple (shut f P Q) (bindC (addIncoming p v b) h) C"
  by (rule shut_quiet) (simp_all add: quiet_updates)

lemma step_index:
  "triple (frag f P Q) (h ()) C \<Longrightarrow>
   triple (frag f P Q) (bindC (case i of Some j \<Rightarrow> codegenVariable j x | None \<Rightarrow> unitC ()) h) C"
  by (rule step_kept) (auto simp: quiet_keeps quiet_updates kept.unit split: option.splits)

lemmas step_blocks = step_flow step_insert shut_insert shut_incoming step_if step_fail step_index

lemma kept_andor:
  assumes ce: "\<And>a m. steps_in (keeps f) (ce a m)"
  shows "steps_in (keeps f) (codegenBinaryAndOr ce bop l r)"
  unfolding keeps_triple codegenBinaryAndOr_def
  by (intro allI step_parent) (intro step_blocks step_child [OF ce]; auto)

lemma kept_for:
  assumes ce: "\<And>a m. steps_in (keeps f) (ce a m)"
  shows "steps_in (keeps f) (codegenFor ce v i e body)"
  unfolding keeps_triple codegenFor_def
  by (intro allI step_parent) (intro step_blocks step_child [OF ce] step_body [OF ce]; auto)

lemma kept_while:
  assumes ce: "\<And>a m. steps_in (keeps f) (ce a m)"
  shows "steps_in (keeps f) (codegenWhile ce e body)"
  unfolding keeps_triple codegenWhile_def
  by (intro allI step_parent) (intro step_blocks step_child [OF ce] step_body [OF ce]; auto)

lemma kept_if_else:
  assumes ce: "\<And>a m. steps_in (keeps f) (ce a m)"
  shows "triple (frag f P Q) (codegenIf_else ce f cond t e) (frag f P Q)"
proof -
  have phi: "triple (frag f P' Q') (if val_type x = LVoid then answer codegenVoid
      else bindC (emit (OPhi (val_type x))) (\<lambda>pn. bindC (addIncoming pn x b) (\<lambda>_. bindC (addIncoming pn y c) (\<lambda>_. answer pn))))
      (frag f P Q)" if "P' = P" "Q \<subseteq> Q'" for P' Q' x y b c
    using that by (auto intro!: step_flow)
  show ?thesis
    unfolding codegenIf_else_def
    by (intro step_blocks step_child [OF ce] phi; auto)
qed

lemma kept_if:
  assumes ce: "\<And>a m. steps_in (keeps f) (ce a m)"
  shows "steps_in (keeps f) (codegenIf ce c t e)"
  unfolding keeps_triple codegenIf_def
proof (intro allI step_child [OF ce] step_parent)
  fix P Q cond
  show "triple (frag f P Q)
      (case e of
         Some e \<Rightarrow> codegenIf_else ce f cond t e
       | None \<Rightarrow> bindC CreateBlock (\<lambda>thenbb. bindC CreateBlock (\<lambda>endbb.
           bindC (emitU (OCondBr cond thenbb endbb)) (\<lambda>_. bindC (enter_block f thenbb) (\<lambda>_.
           bindC (ce t KindVal) (\<lambda>_. bindC (emitU (OBr endbb)) (\<lambda>_.
           bindC (enter_block f endbb) (\<lambda>_. answer codegenVoid)))))))) (frag f P Q)"
  proof (cases e)
    case None
    then show ?thesis by simp (intro step_blocks step_body [OF ce]; auto)
  qed (simp add: kept_if_else [OF ce])
qed

lemma kept_set_loc: "steps_in (keeps f) (set_loc l)"
proof -
  have "frag f P Q (cg_loc_update (\<lambda>_. l) s) = frag f P Q s" for P Q s
    by (rule frag_cong) (simp_all add: fblocks_def)
  then show ?thesis by (simp add: steps_in_def set_loc_def modifyC_def keeps_def)
qed

lemma kept_at_location: "steps_in (keeps f) m \<Longrightarrow> steps_in (keeps f) (at_location loc m)"
  by (auto simp: at_location_def intro!: kept.basic kept_set_loc quiet_keeps [OF quiet_back_scope])

interpretation kept_expr: cg_frame "keeps f"
  by unfold_locales
    (auto simp: same_blocks_keeps kept_emit kept_alloca kept_trap kept_andor kept_if kept_for kept_while kept_at_location)

section \<open>Expressions report nothing\<close>

definition same_output :: "cg \<Rightarrow> cg \<Rightarrow> bool" where
  "same_output s s' = (cg_output s' = cg_output s)"

interpretation silent: cg_rel same_output
  by unfold_locales (auto simp: same_output_def)

lemma silent_quiet: "steps_in same_blocks m \<Longrightarrow> steps_in same_output m"
  by (auto simp: steps_in_def same_blocks_def same_output_def)

lemma silent_emit: "steps_in same_output (emit c)" "steps_in same_output (emitU c)"
proof -
  show "steps_in same_output (emit c)"
    unfolding steps_in_def
  proof (intro allI impI)
    fix s x s' assume "emit c s = Inr (x, s')"
    then show "same_output s s'"
      by (cases rule: emit_cases) (simp add: same_output_def same_blocks_def set_block_def note_loc_def)
  qed
  then show "steps_in same_output (emitU c)" by (auto simp: emitU_def intro!: silent.basic)
qed

lemma silent_blocks:
  "steps_in same_output CreateBlock" "steps_in same_output (enter_block f b)"
  by (simp_all add: steps_in_def CreateBlock_eq enter_eq same_output_def update_fun_def set_block_def)

lemma silent_modify: "(\<And>s. cg_output (h s) = cg_output s) \<Longrightarrow> steps_in same_output (modifyC h)"
  by (simp add: steps_in_def modifyC_def same_output_def)

lemma silent_alloca: "steps_in same_output (codegenAlloca t n)"
  by (auto simp: codegenAlloca_def set_block_def note_loc_def intro!: silent.basic silent_modify split: option.splits)

lemmas silent_ops = silent.basic silent_emit silent_blocks silent_quiet [OF quiet_updates(3)]
  silent_quiet [OF quiet_updates(7)]

lemma silent_set_loc: "steps_in same_output (set_loc l)"
  by (simp add: set_loc_def silent_modify)

lemma silent_at_location: "steps_in same_output m \<Longrightarrow> steps_in same_output (at_location loc m)"
  by (auto simp: at_location_def intro!: silent.basic silent_set_loc silent_quiet [OF quiet_back_scope])

interpretation silent_expr: cg_frame same_output
proof unfold_locales
  fix ce :: gen and bop l r c' t' e' v i e body
  assume [intro!]: "\<And>a m. steps_in same_output (ce a m)"
  note [intro!] = silent_ops
  show "steps_in same_output (codegenBinaryAndOr ce bop l r)" by (auto simp: codegenBinaryAndOr_def)
  show "steps_in same_output (codegenIf ce c' t' e')"
    by (auto simp: codegenIf_def codegenIf_else_def split: option.splits)
  show "steps_in same_output (codegenFor ce v i e body)" by (auto simp: codegenFor_def split: option.splits)
  show "steps_in same_output (codegenWhile ce e body)" by (auto simp: codegenWhile_def)
next
  note [intro!] = silent_ops
  show "steps_in same_output (codegenTrapIf c d)" for c d by (auto simp: codegenTrapIf_def)
qed (auto simp: same_blocks_def same_output_def silent_emit silent_alloca silent_at_location)

section \<open>Functions\<close>

definition complete :: "cg \<Rightarrow> bool" where
  "complete s =
     (fblocks s \<subseteq> {b. owner s b \<noteq> None} \<and>
      (\<forall>b h. owner s b = Some h \<longrightarrow>
         closed_body (body_of s b) \<and> (\<forall>c \<in> jumps (body_of s b). owner s c = Some h)))"

lemma complete_shut: "complete s \<longleftrightarrow> shut f {} {} s"
  unfolding complete_def shut_def flow_def by (simp, blast)

abbreviation errs :: "cg \<Rightarrow> int" where "errs s \<equiv> errors (cg_output s)"

lemma triple_entry: "triple (shut f {} {}) (entry_block (FnInst f t d p gs)) (frag f {} {})"
  unfolding entry_block_def fn_inst.sel by (intro shut_create end_enter_kept) auto

lemma triple_return: "triple (frag f {} {}) (emit_return v) (shut f {} {})"
  unfolding emit_return_def by (auto intro!: end_term)

lemma triple_need: "triple (frag f {} {}) (bindC (codegenExpr k g a m) need) (frag f {} {})"
  by (intro triple_kept kept_expr.ops kept_expr.expr)

lemma triple_assert: "triple A (h ()) C \<Longrightarrow> triple A (bindC (assertC b) h) C"
  by (simp add: triple_def bindC_def assertC_def unitC_def failC_def)

lemma quiet_args: "steps_in same_blocks (bind_args ps vs)"
  by (auto simp: bind_args_def intro!: quiet.basic quiet_updates)

lemma triple_body:
  "triple (shut (in_name i) {} {}) (codegenFunctionBody k g i) (shut (in_name i) {} {})"
proof (cases i)
  case (FnInst nm t d p gs)
  show ?thesis
  proof (cases "fd_body d")
    case None
    with FnInst show ?thesis by (simp add: codegenFunctionBody_def triple_def failC_def)
  next
    case (Some body)
    have "triple (shut nm {} {}) (bindC (bind_args (fd_args d) (getFunctionArguments i)) (\<lambda>_.
          bindC (entry_block i) (\<lambda>_. bindC (declare_args k g d (getFunctionArguments i)) (\<lambda>_.
          bindC (bindC (codegenExpr k g body KindVal) need) (\<lambda>ret. bindC (set_loc None) (\<lambda>_. emit_return ret)))))) (shut nm {} {})"
      unfolding FnInst
      by (intro shut_quiet [OF quiet_args] triple_bind [OF triple_entry] step_kept [OF kept_expr.declared_args]
          triple_bind [OF triple_need] step_kept [OF kept_set_loc] triple_return)
    with Some FnInst show ?thesis by (simp add: codegenFunctionBody_def)
  qed
qed

lemma triple_extern:
  "triple (shut (in_name i) {} {}) (codegenFunctionExtern i) (shut (in_name i) {} {})"
proof (cases i)
  case (FnInst nm t d p gs)
  show ?thesis
    unfolding codegenFunctionExtern_def FnInst fn_inst.sel
    by (intro triple_assert shut_quiet [OF quiet_getOrInsert] triple_bind [OF triple_entry] step_emit triple_return) simp
qed

text \<open>
  What a function leaves: either it is complete with all the others, or an error was reported. Errors
  are never taken back.
\<close>

definition settles :: "cg \<Rightarrow> cg \<Rightarrow> bool" where
  "settles s s' = (errs s \<le> errs s' \<and> (complete s \<longrightarrow> complete s' \<or> errs s < errs s'))"

interpretation settling: cg_rel settles
  by unfold_locales (auto simp: settles_def)

lemma settles_triple:
  "triple (shut f {} {}) m (shut f {} {}) \<Longrightarrow> steps_in same_output m \<Longrightarrow> steps_in settles m"
  by (auto simp: steps_in_def triple_def settles_def same_output_def complete_shut [of _ f])

lemma complete_cong:
  assumes "cg_blocks s' = cg_blocks s" "fblocks s' = fblocks s"
  shows "complete s' = complete s"
  unfolding complete_def owner_def body_of_def assms ..

lemma settles_change:
  assumes "\<And>s. cg_blocks (h s) = cg_blocks s" "\<And>s. cg_funs (h s) = cg_funs s" "\<And>s. cg_output (h s) = cg_output s"
  shows "steps_in settles (modifyC h)"
proof -
  have "complete (h s) = complete s" for s by (rule complete_cong) (simp_all add: assms fblocks_def)
  then show ?thesis by (simp add: steps_in_def modifyC_def settles_def assms)
qed

lemma same_blocks_settles: "same_blocks s s' \<Longrightarrow> settles s s'"
proof -
  assume *: "same_blocks s s'"
  then have "complete s' = complete s"
    using same_blocks_shut [OF *, of "[]" "{}" "{}"] by (simp only: complete_shut [of _ "[]"])
  with * show ?thesis by (simp add: settles_def same_blocks_def)
qed

lemma settles_quiet: "steps_in same_blocks m \<Longrightarrow> steps_in settles m"
  using same_blocks_settles unfolding steps_in_def by blast

lemma report_settles: "steps_in settles (report loc msg)"
  by (auto simp: steps_in_def report_def settles_def bindR_eq_Inr dest: error_at_counts)

lemma silent_entry: "steps_in same_output (entry_block i)"
  by (auto simp: entry_block_def intro!: silent_ops)

lemma silent_return: "steps_in same_output (emit_return v)"
  by (auto simp: emit_return_def intro!: silent_ops)

lemma settles_body: "steps_in settles (codegenFunctionBody k g i)"
  by (rule settles_triple [OF triple_body])
    (auto simp: codegenFunctionBody_def silent_quiet quiet_args silent_entry silent_return silent_expr.expr
        silent_expr.declared_args silent_set_loc
      intro!: silent.basic split: option.splits)

lemma settles_extern: "steps_in settles (codegenFunctionExtern i)"
  by (rule settles_triple [OF triple_extern])
    (auto simp: codegenFunctionExtern_def silent_quiet quiet_getOrInsert silent_entry silent_return silent_emit
      intro!: silent.basic)

lemma quiet_update_fun:
  "(\<And>g. fn_blocks (h g) = fn_blocks g) \<Longrightarrow> steps_in same_blocks (modifyC (update_fun nm h))"
  by (rule quiet_modify) (auto simp: same_blocks_def update_fun_def fblocks_def split: if_splits)

lemma settles_llvm: "steps_in settles (codegenFunctionLLVM g i)"
  by (auto simp: codegenFunctionLLVM_def Let_def
      intro!: settling.basic report_settles settles_quiet [OF quiet_update_fun]
      split: option.splits node.splits lty.splits prod.splits)

text \<open>A builtin function that is known ends in a return; the others are reported after their entry block.\<close>

lemma triple_ret: "triple (frag f {} {}) (emitU (ORet v)) (shut f {} {})" "triple (frag f {} {}) (emitU ORetVoid) (shut f {} {})"
  by (rule end_term; simp)+

lemma settles_report:
  assumes "steps_in same_output m"
  shows "steps_in settles (bindC m (\<lambda>_. report loc msg))"
  using assms
  by (fastforce simp: steps_in_def bindC_def bindR_eq_Inr report_def settles_def same_output_def dest: error_at_counts)

lemma settles_builtin: "steps_in settles (codegenFunctionBuiltin k g i)"
proof (cases i)
  case (FnInst nm t d p gs)
  have known: "steps_in settles (bindC (assertC b) (\<lambda>_. bindC (entry_block i) (\<lambda>_. m)))"
    if "triple (frag nm {} {}) m (shut nm {} {})" "steps_in same_output m" for b m
  proof (rule settles_triple)
    show "triple (shut nm {} {}) (bindC (assertC b) (\<lambda>_. bindC (entry_block i) (\<lambda>_. m))) (shut nm {} {})"
      unfolding FnInst by (intro triple_assert triple_bind [OF triple_entry] that(1))
    show "steps_in same_output (bindC (assertC b) (\<lambda>_. bindC (entry_block i) (\<lambda>_. m)))"
      by (intro silent.basic silent_entry that(2))
  qed
  define fine where "fine m = (triple (frag nm {} {}) m (shut nm {} {}) \<and> steps_in same_output m)" for m :: "unit cgm"
  note step = step_kept [OF kept_expr.lift [OF quiet_codegenType]] step_kept [OF kept_expr.new(2)] step_emit
    step_kept [OF kept_trap] triple_ret silent_ops silent_quiet [OF quiet_codegenType] silent_expr.new silent_expr.trap
  have "fine (bindC (codegenType k g t) (\<lambda>t. bindC (emit (OIntCast (VSizeOf t) i32)) (\<lambda>ret. emitU (ORet ret))))" for t
    unfolding fine_def by (intro conjI step) simp_all
  moreover have "fine (bindC (codegenType k g (TyArray e)) (\<lambda>t. bindC (codegenNewArr k g e n) (\<lambda>ptr.
      bindC (emit (OInsertValue (VUndef t) ptr 0)) (\<lambda>r. bindC (emit (OInsertValue r n 1)) (\<lambda>r. emitU (ORet r))))))" for e n
    unfolding fine_def by (intro conjI step) simp_all
  moreover have "fine (bindC (emit (OExtractValue a 1)) (\<lambda>ret. emitU (ORet ret)))" for a
    unfolding fine_def by (intro conjI step) simp_all
  moreover have "fine (bindC (emit (ONot a)) (\<lambda>c. bindC (codegenTrapIf c True) (\<lambda>_. emitU ORetVoid)))" for a
    unfolding fine_def by (intro conjI step) simp_all
  ultimately have code: "fine (builtin_code k g d gs as) \<or> (\<exists>loc msg. builtin_code k g d gs as = report loc msg)" for as
    unfolding builtin_code_def Let_def by (simp split: if_split) blast
  show ?thesis
  proof (cases "\<exists>loc msg. builtin_code k g d gs (getFunctionArguments i) = report loc msg")
    case True
    then obtain loc msg where m: "builtin_code k g d gs (getFunctionArguments i) = report loc msg" by blast
    have "bindC (assertC b) (\<lambda>_. bindC (entry_block i) (\<lambda>_. report loc msg)) =
        bindC (bindC (assertC b) (\<lambda>_. entry_block i)) (\<lambda>_. report loc msg)" for b
      by (rule ext) (simp add: bindC_def bindR_assoc case_prod_unfold)
    moreover have "steps_in same_output (bindC (assertC b) (\<lambda>_. entry_block i))" for b
      by (intro silent.basic silent_entry)
    ultimately have "steps_in settles (bindC (assertC b) (\<lambda>_. bindC (entry_block i) (\<lambda>_. report loc msg)))" for b
      using settles_report by metis
    with FnInst m show ?thesis by (simp add: codegenFunctionBuiltin_def)
  next
    case False
    have "steps_in settles (bindC (assertC b) (\<lambda>_. bindC (entry_block i) (\<lambda>_.
        builtin_code k g d gs (getFunctionArguments i))))" for b
      by (rule known) (use code [of "getFunctionArguments i"] False in \<open>simp_all add: fine_def\<close>)
    with FnInst show ?thesis by (simp add: codegenFunctionBuiltin_def)
  qed
qed

lemma settles_loc: "steps_in settles (set_loc l)" "steps_in settles (push_scope sc)" "steps_in settles pop_scope"
  unfolding set_loc_def push_scope_def pop_scope_def by (rule settles_change; simp)+

lemma settles_located: "steps_in settles m \<Longrightarrow> steps_in settles (with_location g loc m)"
  by (auto simp: with_location_def at_location_def intro!: settling.basic settles_loc settles_quiet [OF quiet_back_scope])

lemma settles_impl: "steps_in settles (codegenFunctionImpl k g i)"
  unfolding codegenFunctionImpl_def Let_def
  by (intro settles_located settling.bind) (auto simp: settles_extern settles_builtin settles_llvm settles_body settling.unit
      intro!: settles_quiet [OF quiet_update_fun])

lemma quiet_function_type: "steps_in same_blocks (debug_function_type k g t)"
  by (auto simp: debug_function_type_def intro!: quiet.basic quiet_codegenTypeDebug split: option.splits dtype.splits)

lemma settles_function: "steps_in settles (codegenFunction k g i)"
  unfolding codegenFunction_def Let_def
  by (auto intro!: settling.basic settles_impl settles_loc settles_quiet [OF quiet_function_type]
      settles_quiet [OF quiet_back_scope] settles_quiet [OF quiet_update_fun])

section \<open>Modules\<close>

lemma settles_pending: "steps_in settles (codegen_pending n k g)"
proof (induction n)
  case 0
  then show ?case by (auto simp: steps_in_def codegen_pending.simps settling.refl split: if_splits)
next
  case (Suc n)
  show ?case
    unfolding steps_in_def
  proof (intro allI impI)
    fix s x s'
    assume r: "codegen_pending (Suc n) k g s = Inr (x, s')"
    show "settles s s'"
    proof (cases "cg_pending s = []")
      case True
      with r show ?thesis by (simp add: codegen_pending.simps settling.refl)
    next
      case False
      let ?s = "s\<lparr>cg_pending := butlast (cg_pending s)\<rparr>" and ?i = "last (cg_pending s)"
      from r False obtain y s1 where f: "codegenFunction k (g\<lparr>ge_inst := Some ?i\<rparr>) ?i ?s = Inr (y, s1)"
        and p: "codegen_pending n k g s1 = Inr (x, s')"
        by (auto simp: codegen_pending.simps [of "Suc n"] Let_def bindR_eq_Inr)
      have "settles s ?s" by (rule same_blocks_settles) (simp add: same_blocks_def fblocks_def)
      moreover have "settles ?s s1" using settles_function f by (auto simp: steps_in_def)
      moreover have "settles s1 s'" using Suc p by (auto simp: steps_in_def)
      ultimately show ?thesis by (blast intro: settling.trans)
    qed
  qed
qed

lemma quiet_prepare: "steps_in same_blocks codegenPrepare"
  by (auto simp: codegenPrepare_def intro!: quiet.basic quiet_getOrInsert)

lemma settles_modify: "(\<And>s. same_blocks s (h s)) \<Longrightarrow> steps_in settles (modifyC h)"
  by (rule settles_quiet [OF quiet_modify])

lemma settles_codegen: "steps_in settles (codegen n k g root)"
proof -
  have pending: "steps_in settles (modifyC (cg_pending_update (\<lambda>_. ps)))" for ps by (rule settles_change) simp_all
  note [intro!] = settling.bind settles_loc settles_quiet [OF quiet_updates(4)] pending settles_pending settling.unit
    settles_quiet [OF quiet_prepare]
  have reset: "steps_in settles (modifyC (\<lambda>s. s\<lparr>cg_vars := [], cg_pending := [], cg_insert := None, cg_loc := None, cg_scopes := []\<rparr>))"
    by (rule settles_change) simp_all
  have node: "steps_in settles (case ast_node root of
      Module nm b ai \<Rightarrow>
        bindC (if ge_debug g \<noteq> 0 then push_scope sc else unitC ()) (\<lambda>_.
        bindC (CreateFunction (nm @ ''.entry'') (LFun LVoid [])) (\<lambda>entry.
        bindC (modifyC (cg_pending_update (\<lambda>_. ps nm))) (\<lambda>_.
        bindC (codegen_pending n k g) (\<lambda>_. unitC entry))))
    | _ \<Rightarrow> failC AssertFail)" for sc ps
    by (cases "ast_node root") auto
  show ?thesis
    unfolding codegen_def Let_def
    by (rule settling.bind [OF reset], rule settling.bind [OF settles_quiet [OF quiet_prepare]], rule node)
qed

section \<open>Properties\<close>

text \<open>
  C5: Code generation builds well-formed control flow. Where every block of the module was complete and
  generating the code of a module reports no error, every block is complete after it: a block that a
  function has ends in a terminator, has no other, and branches only to blocks of the same function. This
  covers the blocks of conditions, loops, \<open>and\<close> and \<open>or\<close>, bounds checks, assertions and builtin
  functions, nested in any way.
\<close>

theorem codegen_complete:
  assumes "codegen n k g root s = Inr (v, s')" "complete s" "errors (cg_output s') = errors (cg_output s)"
  shows "complete s'"
proof -
  have "settles s s'" using settles_codegen assms(1) unfolding steps_in_def by blast
  with assms(2,3) show ?thesis by (simp add: settles_def)
qed

definition empty_module :: cg where
  "empty_module =
     \<lparr>cg_output = Output0, cg_fresh = 0, cg_vars = [], cg_pending = [], cg_types = [], cg_infos = [], cg_funs = [],
      cg_blocks = [], cg_insert = None, cg_calls = 0, cg_phis = [],
      cg_loc = None, cg_scopes = [], cg_locs = [], cg_dstructs = []\<rparr>"

definition plain_env :: genv where
  "plain_env =
     \<lparr>ge_defs = (\<lambda>_. None), ge_fns = (\<lambda>_. None), ge_vars = [], ge_inst = None, ge_offset = (\<lambda>_ _. 0),
      ge_size = (\<lambda>_. 0), ge_type_name = (\<lambda>_. []), ge_asm = (\<lambda>_. None),
      ge_debug = 0, ge_bits = (\<lambda>_. 0), ge_pointer_bits = 64\<rparr>"

definition lit :: "bool \<Rightarrow> ast" where
  "lit b = Node (Some TyBool) Location0 (LiteralBool b)"

lemma codegen_complete_witness:
  "case codegen 1 4 plain_env
       (Node None Location0 (Module ''m'' (Node None Location0 (While (lit True)
         (Node (Some TyBool) Location0 (Binary BinaryOpAnd (lit True) (lit False))))) [])) empty_module of
     Inr (v, s') \<Rightarrow> complete s' \<and> length (cg_blocks s') = 6
   | Inl _ \<Rightarrow> False"
proof -
  let ?root = "Node None Location0 (Module ''m'' (Node None Location0 (While (lit True)
         (Node (Some TyBool) Location0 (Binary BinaryOpAnd (lit True) (lit False))))) [])"
  let ?r = "codegen 1 4 plain_env ?root empty_module"
  have "case ?r of Inr (v, s') \<Rightarrow> errors (cg_output s') = errors (cg_output empty_module) \<and> length (cg_blocks s') = 6
      | Inl _ \<Rightarrow> False"
    by code_simp
  then obtain v s' where r: "?r = Inr (v, s')" "errors (cg_output s') = errors (cg_output empty_module)"
    "length (cg_blocks s') = 6"
    by (cases ?r) (auto simp only: sum.case split: prod.splits)
  have "complete empty_module" by (simp add: complete_def fblocks_def owner_def empty_module_def)
  from codegen_complete [OF r(1) this r(2)] r show ?thesis by simp
qed

section \<open>A loop over an indexed array\<close>

text \<open>
  A phi node must name the blocks that branch to its own: which block has the phi node of a number, and
  whether one of its incoming values comes from a block that does not branch there.
\<close>

definition phi_block :: "cg \<Rightarrow> nat \<Rightarrow> nat option" where
  "phi_block s n = find (\<lambda>b. \<exists>i \<in> set (body_of s b). fst i = n \<and> is_phi i) [0..<length (cg_blocks s)]"

definition phi_wrong :: "cg \<Rightarrow> nat \<times> val \<times> nat \<Rightarrow> bool" where
  "phi_wrong s x =
     (case phi_block s (fst x) of
        Some b \<Rightarrow> list_all (\<lambda>i. b \<notin> set (targets (snd i))) (body_of s (snd (snd x)))
      | None \<Rightarrow> False)"

definition loop_program :: ast where
  "loop_program =
     (let arr = TyArray TyInteger; no = Node (Some (TyArray arr)) Location0 (LiteralArray []) in
      Node None Location0 (Module ''m'' (Node None Location0 (For 0 None
        (Node (Some arr) Location0 (Index no (Node (Some TyInteger) Location0 (LiteralInteger 0))))
        (Node (Some TyVoid) Location0 (Block [])))) []))"


end
