(* ===== verification/CodegenDebug.thy ===== *)
theory CodegenDebug
  imports CodegenCorrect
begin

text \<open>
  The debug locations that code generation gives to instructions: each is in the scope of the function
  that is generated, and scopes are left as they were found.
\<close>

section \<open>Locations in scope\<close>

definition in_scope :: "cg \<Rightarrow> bool" where
  "in_scope s = (\<forall>l. cg_loc s = Some l \<longrightarrow> dl_scope l = last (cg_scopes s))"

text \<open>
  A step leaves the scopes, numbers its calls after the old ones, and, where the current location is in the
  innermost scope, keeps it there and so gives that scope to all it makes.
\<close>

definition new_locs :: "cg \<Rightarrow> cg \<Rightarrow> (nat \<times> dloc) list \<Rightarrow> bool" where
  "new_locs s s' new =
     (cg_locs s' = new @ cg_locs s \<and> (\<forall>x \<in> set new. cg_calls s \<le> fst x \<and> fst x < cg_calls s'))"

definition scoped :: "cg \<Rightarrow> cg \<Rightarrow> bool" where
  "scoped s s' =
     (cg_scopes s' = cg_scopes s \<and> cg_calls s \<le> cg_calls s' \<and> (in_scope s \<longrightarrow> in_scope s') \<and>
      (\<exists>new. new_locs s s' new \<and> (in_scope s \<longrightarrow> (\<forall>x \<in> set new. dl_scope (snd x) = last (cg_scopes s)))))"

lemma scopedI:
  assumes "cg_scopes s' = cg_scopes s" "cg_calls s \<le> cg_calls s'" "in_scope s \<Longrightarrow> in_scope s'" "new_locs s s' new"
    "in_scope s \<Longrightarrow> \<forall>x \<in> set new. dl_scope (snd x) = last (cg_scopes s)"
  shows "scoped s s'"
  using assms unfolding scoped_def by blast

lemma scopedE:
  assumes "scoped s s'"
  obtains new where "cg_scopes s' = cg_scopes s" "cg_calls s \<le> cg_calls s'" "in_scope s \<Longrightarrow> in_scope s'"
    "new_locs s s' new" "in_scope s \<Longrightarrow> \<forall>x \<in> set new. dl_scope (snd x) = last (cg_scopes s)"
  using assms unfolding scoped_def by blast

lemma scoped_quiet: "same_blocks s s' \<Longrightarrow> scoped s s'"
  by (rule scopedI [of _ _ "[]"]) (simp_all add: same_blocks_def in_scope_def new_locs_def)

lemma new_locs_trans:
  "new_locs s s1 new1 \<Longrightarrow> new_locs s1 s2 new2 \<Longrightarrow> cg_calls s \<le> cg_calls s1 \<Longrightarrow> cg_calls s1 \<le> cg_calls s2 \<Longrightarrow>
   new_locs s s2 (new2 @ new1)"
  by (auto simp: new_locs_def)

interpretation scoping: cg_rel scoped
proof
  show "scoped s s" for s by (rule scoped_quiet) (rule quiet.refl)
next
  fix s s1 s2
  assume "scoped s s1" "scoped s1 s2"
  then show "scoped s s2"
    by (elim scopedE) (rule scopedI [OF _ _ _ new_locs_trans], auto)
qed

text \<open>An instruction, with the number of its call.\<close>

lemma scoped_instruction:
  assumes "cg_scopes s' = cg_scopes s" "cg_loc s' = cg_loc s" "cg_calls s' = cg_calls s" "cg_locs s' = cg_locs s"
  shows "scoped s (note_loc (cg_calls s) (s'\<lparr>cg_calls := cg_calls s + 1\<rparr>))"
proof (rule scopedI)
  let ?new = "case cg_loc s of Some l \<Rightarrow> [(cg_calls s, l)] | None \<Rightarrow> []"
  show "new_locs s (note_loc (cg_calls s) (s'\<lparr>cg_calls := cg_calls s + 1\<rparr>)) ?new"
    using assms by (auto simp: new_locs_def note_loc_def split: option.splits)
  show "\<forall>x \<in> set ?new. dl_scope (snd x) = last (cg_scopes s)" if "in_scope s"
    using that by (auto simp: in_scope_def split: option.splits)
qed (use assms in \<open>auto simp: note_loc_def in_scope_def\<close>)

lemma scoped_emit: "steps_in scoped (emit c)"
  unfolding steps_in_def
proof (intro allI impI)
  fix s x s' assume "emit c s = Inr (x, s')"
  then show "scoped s s'"
  proof (cases rule: emit_cases)
    case (1 cur s1)
    have "scoped s1 s'" unfolding 1(3) by (rule scoped_instruction) (simp_all add: set_block_def)
    with scoped_quiet [OF 1(2)] show ?thesis by (rule scoping.trans)
  qed
qed

lemma scoped_alloca: "steps_in scoped (codegenAlloca t n)"
  unfolding steps_in_def
proof (intro allI impI)
  fix s x s' assume "codegenAlloca t n s = Inr (x, s')"
  then obtain bb where "s' = note_loc (cg_calls s)
      ((set_block bb (bb_body_update (insert_first (cg_calls s, OAlloca t n))) s)\<lparr>cg_calls := cg_calls s + 1\<rparr>)"
    by (auto simp: codegenAlloca_def GetInsertBlock_def parent_of_def bindC_def getC_def unitC_def failC_def modifyC_def
        bindR_eq_Inr split: option.splits)
  then show "scoped s s'" by (simp only:) (rule scoped_instruction; simp add: set_block_def)
qed

lemma scoped_same:
  assumes "\<And>s. cg_scopes (h s) = cg_scopes s" "\<And>s. cg_loc (h s) = cg_loc s" "\<And>s. cg_calls (h s) = cg_calls s"
    "\<And>s. cg_locs (h s) = cg_locs s"
  shows "steps_in scoped (modifyC h)"
  unfolding steps_in_def modifyC_def
  by (auto intro!: scopedI [of _ _ "[]"] simp: assms new_locs_def in_scope_def)

lemma scoped_blocks: "steps_in scoped CreateBlock" "steps_in scoped (enter_block f b)" "steps_in scoped (SetInsertPoint b)"
  unfolding CreateBlock_def enter_block_def push_block_def SetInsertPoint_def
  by (auto intro!: scoping.basic scoped_same simp: set_block_def update_fun_def)

lemma scoped_emitU: "steps_in scoped (emitU c)"
  by (auto simp: emitU_def intro!: scoping.basic scoped_emit)

lemma scoped_lift: "steps_in same_blocks m \<Longrightarrow> steps_in scoped m"
  using scoped_quiet by (auto simp: steps_in_def)

text \<open>What a construct makes at a place in the source is in scope whatever the location was before.\<close>

lemma at_location_new:
  assumes "steps_in scoped m" "at_location loc m s = Inr (x, s')"
  obtains new where "cg_scopes s' = cg_scopes s" "cg_loc s' = cg_loc s" "cg_calls s \<le> cg_calls s'" "new_locs s s' new"
    "\<forall>x \<in> set new. dl_scope (snd x) = last (cg_scopes s)"
proof -
  let ?s = "s\<lparr>cg_loc := Some (DLoc (l_line loc + 1) (l_column loc + 1) (last (cg_scopes s)))\<rparr>"
  from assms(2) obtain s1 where m: "m ?s = Inr (x, s1)" and s': "s' = s1\<lparr>cg_loc := cg_loc s\<rparr>"
    by (auto simp: at_location_def back_scope_def set_loc_def bindC_def getC_def unitC_def failC_def modifyC_def
        bindR_eq_Inr split: if_splits)
  from assms(1) m have "scoped ?s s1" by (auto simp: steps_in_def)
  moreover have "in_scope ?s" by (simp add: in_scope_def)
  ultimately obtain new where "cg_scopes s1 = cg_scopes s" "cg_calls s \<le> cg_calls s1" "new_locs ?s s1 new"
    "\<forall>x \<in> set new. dl_scope (snd x) = last (cg_scopes s)"
    by (auto elim: scopedE)
  then show ?thesis using that [of new] s' by (simp add: new_locs_def)
qed

lemma scoped_at_location: "steps_in scoped m \<Longrightarrow> steps_in scoped (at_location loc m)"
  unfolding steps_in_def [of scoped "at_location loc m"]
  by (auto elim!: at_location_new intro!: scopedI simp: in_scope_def)

lemmas scoped_ops = scoping.basic scoped_emit scoped_emitU scoped_blocks scoped_lift [OF quiet_updates(3)]
  scoped_lift [OF quiet_updates(7)]

interpretation scoped_expr: cg_frame scoped
proof unfold_locales
  fix ce :: gen and bop l r c' t' e' v i e body
  assume [intro!]: "\<And>a m. steps_in scoped (ce a m)"
  note [intro!] = scoped_ops
  show "steps_in scoped (codegenBinaryAndOr ce bop l r)" by (auto simp: codegenBinaryAndOr_def)
  show "steps_in scoped (codegenIf ce c' t' e')"
    by (auto simp: codegenIf_def codegenIf_else_def split: option.splits)
  show "steps_in scoped (codegenFor ce v i e body)" by (auto simp: codegenFor_def split: option.splits)
  show "steps_in scoped (codegenWhile ce e body)" by (auto simp: codegenWhile_def)
next
  note [intro!] = scoped_ops
  show "steps_in scoped (codegenTrapIf c d)" for c d by (auto simp: codegenTrapIf_def)
qed (auto simp: scoped_quiet scoped_emit scoped_alloca scoped_at_location)

section \<open>Functions\<close>

lemma scoped_no_loc: "steps_in scoped (set_loc None)"
  by (auto simp: steps_in_def set_loc_def modifyC_def in_scope_def new_locs_def intro!: scopedI [of _ _ "[]"])

lemma scoped_entry: "steps_in scoped (entry_block i)"
  by (auto simp: entry_block_def intro!: scoped_ops)

lemma scoped_return: "steps_in scoped (emit_return v)"
  by (auto simp: emit_return_def intro!: scoped_ops)

lemma scoped_report: "steps_in scoped (report loc msg)"
  by (auto simp: steps_in_def report_def bindR_eq_Inr in_scope_def new_locs_def intro!: scopedI [of _ _ "[]"])

lemma scoped_update_fun: "steps_in scoped (modifyC (update_fun nm h))"
  by (rule scoped_same) (simp_all add: update_fun_def)

lemma scoped_body: "steps_in scoped (codegenFunctionBody k g i)"
  by (auto simp: codegenFunctionBody_def scoped_lift [OF quiet_args] scoped_entry scoped_return scoped_expr.expr
      scoped_expr.declared_args scoped_no_loc intro!: scoping.basic split: option.splits)

lemma scoped_extern: "steps_in scoped (codegenFunctionExtern i)"
  by (auto simp: codegenFunctionExtern_def scoped_lift [OF quiet_getOrInsert] scoped_entry scoped_return scoped_emit
      intro!: scoping.basic)

lemma scoped_llvm: "steps_in scoped (codegenFunctionLLVM g i)"
  by (auto simp: codegenFunctionLLVM_def Let_def intro!: scoping.basic scoped_report scoped_update_fun
      split: option.splits node.splits lty.splits prod.splits)

lemma scoped_builtin: "steps_in scoped (codegenFunctionBuiltin k g i)"
  by (auto simp: codegenFunctionBuiltin_def builtin_code_def Let_def
      intro!: scoped_ops scoped_entry scoped_lift [OF quiet_codegenType] scoped_expr.new scoped_expr.trap scoped_report)

lemma impl_new:
  assumes "codegenFunctionImpl k g i s = Inr ((), s')" "ge_debug g \<noteq> 0"
  obtains new where "cg_scopes s' = cg_scopes s" "cg_calls s \<le> cg_calls s'" "new_locs s s' new"
    "\<forall>x \<in> set new. dl_scope (snd x) = last (cg_scopes s)"
proof -
  let ?att = "fd_attributes (in_decl i)"
  let ?m = "bindC (if and ?att FnAttributeExtern \<noteq> 0 then codegenFunctionExtern i
             else if and ?att FnAttributeBuiltin \<noteq> 0 then codegenFunctionBuiltin k g i
             else if is_llvm (fd_body (in_decl i)) then codegenFunctionLLVM g i
             else codegenFunctionBody k g i) (\<lambda>_.
        if and ?att FnAttributeInline \<noteq> 0 then modifyC (update_fun (in_name i) (fn_inline_update (\<lambda>_. True)))
        else unitC ())"
  have "steps_in scoped ?m"
    by (intro scoping.bind) (auto simp: scoped_extern scoped_builtin scoped_llvm scoped_body scoped_update_fun scoping.unit)
  moreover from assms have "at_location (fd_location (in_decl i)) ?m s = Inr ((), s')"
    by (simp add: codegenFunctionImpl_def with_location_def Let_def)
  ultimately show ?thesis by (rule at_location_new) (rule that)
qed

text \<open>The subprogram of a function, but for its type.\<close>

definition subprogram_of :: "dscope \<Rightarrow> fn_inst \<Rightarrow> dscope \<Rightarrow> bool" where
  "subprogram_of parent i sc =
     (\<exists>ty. sc = DSubprogram parent (in_name i) (l_source (fd_location (in_decl i))) (l_line (fd_location (in_decl i)) + 1) ty)"

lemma codegenFunction_new:
  assumes "codegenFunction k g i s = Inr ((), s')" "ge_debug g \<noteq> 0"
  obtains new where "cg_scopes s' = cg_scopes s" "cg_calls s \<le> cg_calls s'" "new_locs s s' new"
    "\<forall>x \<in> set new. subprogram_of (last (cg_scopes s)) i (dl_scope (snd x))"
proof -
  let ?loc = "fd_location (in_decl i)"
  define sub where "sub ty sc = DSubprogram sc (in_name i) (l_source ?loc) (l_line ?loc + 1) ty" for ty sc
  from assms obtain s1 ty s3 where t: "debug_function_type k g (fd_type (in_decl i)) s = Inr (ty, s1)"
    and imp: "codegenFunctionImpl k g i
        ((update_fun (in_name i) (fn_subprogram_update (\<lambda>_. Some (sub ty (last (cg_scopes s1))))) s1)
           \<lparr>cg_scopes := cg_scopes s1 @ [sub ty (last (cg_scopes s1))]\<rparr>) = Inr ((), s3)"
    and s': "s' = s3\<lparr>cg_scopes := butlast (cg_scopes s3)\<rparr>"
    by (auto simp: codegenFunction_def back_scope_def push_scope_def pop_scope_def bindC_def getC_def unitC_def failC_def
        modifyC_def assertC_def bindR_eq_Inr Let_def sub_def update_fun_def split: if_splits)
  have same: "same_blocks s s1" using quiet_function_type t by (auto simp: steps_in_def)
  from imp assms(2) show ?thesis
  proof (rule impl_new)
    fix new
    assume *: "cg_scopes s3 = cg_scopes ((update_fun (in_name i)
          (fn_subprogram_update (\<lambda>_. Some (sub ty (last (cg_scopes s1))))) s1)
           \<lparr>cg_scopes := cg_scopes s1 @ [sub ty (last (cg_scopes s1))]\<rparr>)"
      "cg_calls ((update_fun (in_name i) (fn_subprogram_update (\<lambda>_. Some (sub ty (last (cg_scopes s1))))) s1)
           \<lparr>cg_scopes := cg_scopes s1 @ [sub ty (last (cg_scopes s1))]\<rparr>) \<le> cg_calls s3"
      "new_locs ((update_fun (in_name i) (fn_subprogram_update (\<lambda>_. Some (sub ty (last (cg_scopes s1))))) s1)
           \<lparr>cg_scopes := cg_scopes s1 @ [sub ty (last (cg_scopes s1))]\<rparr>) s3 new"
      "\<forall>x \<in> set new. dl_scope (snd x) = last (cg_scopes ((update_fun (in_name i)
          (fn_subprogram_update (\<lambda>_. Some (sub ty (last (cg_scopes s1))))) s1)
           \<lparr>cg_scopes := cg_scopes s1 @ [sub ty (last (cg_scopes s1))]\<rparr>))"
    show thesis
      by (rule that [of new])
        (use * same s' in \<open>auto simp: same_blocks_def new_locs_def update_fun_def subprogram_of_def sub_def\<close>)
  qed
qed

section \<open>Modules\<close>

lemma pending_new:
  assumes "codegen_pending n k g s = Inr ((), s')" "ge_debug g \<noteq> 0"
  obtains new where "cg_scopes s' = cg_scopes s" "cg_calls s \<le> cg_calls s'" "new_locs s s' new"
    "\<forall>x \<in> set new. \<exists>i. subprogram_of (last (cg_scopes s)) i (dl_scope (snd x))"
  using assms(1)
proof (induction n arbitrary: s thesis)
  case 0
  then show ?case
    by (auto simp: codegen_pending.simps new_locs_def split: if_splits)
next
  case (Suc n)
  show ?case
  proof (cases "cg_pending s = []")
    case True
    with Suc.prems show ?thesis by (auto simp: codegen_pending.simps new_locs_def)
  next
    case False
    let ?s = "s\<lparr>cg_pending := butlast (cg_pending s)\<rparr>" and ?i = "last (cg_pending s)"
    from Suc.prems(2) False obtain s1 where f: "codegenFunction k (g\<lparr>ge_inst := Some ?i\<rparr>) ?i ?s = Inr ((), s1)"
      and p: "codegen_pending n k g s1 = Inr ((), s')"
      by (auto simp: codegen_pending.simps [of "Suc n"] Let_def bindR_eq_Inr)
    from f obtain new1 where n1: "cg_scopes s1 = cg_scopes s" "cg_calls s \<le> cg_calls s1" "new_locs s s1 new1"
      "\<forall>x \<in> set new1. subprogram_of (last (cg_scopes s)) ?i (dl_scope (snd x))"
      by (rule codegenFunction_new) (use assms(2) in \<open>auto simp: new_locs_def\<close>)
    from Suc.IH [OF _ p] obtain new2 where n2: "cg_scopes s' = cg_scopes s1" "cg_calls s1 \<le> cg_calls s'" "new_locs s1 s' new2"
      "\<forall>x \<in> set new2. \<exists>i. subprogram_of (last (cg_scopes s1)) i (dl_scope (snd x))"
      by blast
    show ?thesis
      by (rule Suc.prems(1) [OF _ _ new_locs_trans [OF n1(3) n2(3)]]) (use n1 n2 in auto)
  qed
qed


definition debug_program :: ast where
  "debug_program =
     Node None (Location0\<lparr>l_source := ''m.aike''\<rparr>) (Module ''m'' (Node None Location0 (Block
       [Node None Location0 (VarDecl 0 (lit True))])) [])"

definition debug_env :: genv where
  "debug_env = plain_env\<lparr>ge_debug := 2,
     ge_vars := [(0, \<lparr>v_kind = KindVariable, v_name = ''x'', v_type = TyBool, v_location = Location0\<lparr>l_line := 4\<rparr>,
       v_fn = None\<rparr>)]\<rparr>"


end
