(* ===== verification/Target.thy ===== *)
theory Target
  imports Ast Output
begin

text \<open>
  Around the code generator of LLVM: the command line of the linker and the names of the files it
  reads (\<open>compiler/target.cpp\<close>), the merging of debug information and the settings of the passes
  (\<open>compiler/transform.cpp\<close>), and the timer of the passes (\<open>compiler/timer.cpp\<close>). What LLVM and the operating system do is left out.
\<close>

section \<open>Linking\<close>

datatype opt_level = OptNone | OptLess | OptDefault | OptAggressive

text \<open>The levels are ordered as LLVM's enumeration has them.\<close>

instantiation opt_level :: linorder
begin

fun level_index :: "opt_level \<Rightarrow> nat" where
  "level_index OptNone = 0"
| "level_index OptLess = 1"
| "level_index OptDefault = 2"
| "level_index OptAggressive = 3"

definition less_eq_opt_level :: "opt_level \<Rightarrow> opt_level \<Rightarrow> bool" where
  "less_eq_opt_level a b = (level_index a \<le> level_index b)"

definition less_opt_level :: "opt_level \<Rightarrow> opt_level \<Rightarrow> bool" where
  "less_opt_level a b = (level_index a < level_index b)"

lemma level_index_inject: "level_index a = level_index b \<Longrightarrow> a = b"
  by (cases a; cases b) simp_all

instance
  by standard (auto simp: less_eq_opt_level_def less_opt_level_def intro: level_index_inject)

end

definition getCodeGenOptLevel :: "int \<Rightarrow> opt_level" where
  "getCodeGenOptLevel optimizationLevel =
     (if optimizationLevel \<ge> 3 then OptAggressive
      else if optimizationLevel \<ge> 2 then OptDefault
      else if optimizationLevel \<ge> 1 then OptLess
      else OptNone)"

lemma getCodeGenOptLevel_mono: "mono getCodeGenOptLevel"
  by (rule monoI) (auto simp: getCodeGenOptLevel_def less_eq_opt_level_def)

text \<open>
  A machine of LLVM for a triple and a level. The registry of targets is a parameter: the target, or the
  error it reports. So is what a machine emits for a module.
\<close>

datatype file_type = ObjectFile | AssemblyFile

definition msg_target :: "str \<Rightarrow> str \<Rightarrow> str" where
  "msg_target triple error = ''Can't find target for triple '' @ triple @ '': '' @ error"

definition createTargetMachine :: "(str \<Rightarrow> str + 't) \<Rightarrow> str \<Rightarrow> opt_level \<Rightarrow> ('t \<times> str \<times> opt_level) result" where
  "createTargetMachine lookup triple l =
     (case lookup triple of
        Inl error \<Rightarrow> Inl (Panic Location0 (msg_target triple error))
      | Inr target \<Rightarrow> Inr (target, triple, l))"

text \<open>On Linux.\<close>

definition targetHostTriple :: str where
  "targetHostTriple = ''x86_64-pc-linux-gnu''"

definition targetDataLayout :: "(str \<Rightarrow> str + 't) \<Rightarrow> ('t \<times> str \<times> opt_level \<Rightarrow> 'd) \<Rightarrow> str \<Rightarrow> 'd result" where
  "targetDataLayout lookup layout triple =
     bindR (createTargetMachine lookup triple OptDefault) (\<lambda>machine. Inr (layout machine))"

definition assemble ::
    "(str \<Rightarrow> str + 't) \<Rightarrow> ('t \<times> str \<times> opt_level \<Rightarrow> 'm \<Rightarrow> file_type \<Rightarrow> str) \<Rightarrow> str \<Rightarrow> 'm \<Rightarrow> int \<Rightarrow> file_type \<Rightarrow> str result" where
  "assemble lookup emitFile triple md optimizationLevel ft =
     bindR (createTargetMachine lookup triple (getCodeGenOptLevel optimizationLevel)) (\<lambda>machine.
       Inr (emitFile machine md ft))"

definition targetAssembleBinary where
  "targetAssembleBinary lookup emitFile triple md l = assemble lookup emitFile triple md l ObjectFile"

definition targetAssembleText where
  "targetAssembleText lookup emitFile triple md l = assemble lookup emitFile triple md l AssemblyFile"

datatype os = Linux | Darwin | OtherOS

text \<open>The part of a path after its last slash.\<close>

definition file_name :: "str \<Rightarrow> str" where
  "file_name path = rev (takeWhile (\<lambda>c. c \<noteq> CHR ''/'') (rev path))"

text \<open>
  The template that \<open>mkdtemp\<close>, the parameter, makes a folder of. Where it answers null, a string is made
  of the null pointer.
\<close>

definition targetMakeFolder :: "(str \<Rightarrow> str option) \<Rightarrow> str \<Rightarrow> str result" where
  "targetMakeFolder mkdtemp outputPath =
     (case mkdtemp (''/tmp/aikec-'' @ file_name outputPath @ ''-XXXXXX'') of
        Some path \<Rightarrow> Inr path
      | None \<Rightarrow> Inl NullDeref)"

text \<open>The files that are written, with what is in them; the code returns their names.\<close>

definition targetDumpObjects :: "(str \<Rightarrow> str option) \<Rightarrow> str \<Rightarrow> str list \<Rightarrow> (str \<times> str) list result" where
  "targetDumpObjects mkdtemp outputPath inputs =
     bindR (targetMakeFolder mkdtemp outputPath) (\<lambda>tempPath.
       Inr (map (\<lambda>i. (tempPath @ ''/input'' @ show_nat i @ ''.o'', inputs ! i)) [0..<length inputs]))"

definition targetLinkFillArgs :: "os \<Rightarrow> str list" where
  "targetLinkFillArgs os =
     (case os of
        Linux \<Rightarrow> [''-dynamic-linker'', ''/lib64/ld-linux-x86-64.so.2'', ''/usr/lib/x86_64-linux-gnu/crt1.o'', ''-lc'']
      | Darwin \<Rightarrow> [''-arch'', ''x86_64'', ''-sdk_version'', ''10.10'', ''-macosx_version_min'', ''10.10'', ''-lSystem'']
      | OtherOS \<Rightarrow> [])"

definition link_args :: "os \<Rightarrow> str \<Rightarrow> str list \<Rightarrow> str \<Rightarrow> str list" where
  "link_args os outputPath files runtimePath =
     targetLinkFillArgs os @ [''-o'', outputPath] @ files @ [runtimePath]"

text \<open>The command that is run; nothing in it is quoted.\<close>

definition link_command :: "str \<Rightarrow> str list \<Rightarrow> str" where
  "link_command ld args = ld @ concat (map (\<lambda>a. '' '' @ a) args)"

definition msg_link :: "str \<Rightarrow> int \<Rightarrow> str" where
  "msg_link command rc = ''Error linking output: '' @ command @ '' returned '' @ show_int rc"

text \<open>\<open>system\<close> is a parameter: the code that a command returns.\<close>

definition targetLinkLD ::
    "(str \<Rightarrow> str option) \<Rightarrow> (str \<Rightarrow> int) \<Rightarrow> os \<Rightarrow> str \<Rightarrow> str \<Rightarrow> str list \<Rightarrow> str \<Rightarrow> (str \<times> str) list result" where
  "targetLinkLD mkdtemp system os ld outputPath inputs runtimePath =
     bindR (targetDumpObjects mkdtemp outputPath inputs) (\<lambda>objects.
       let command = link_command ld (link_args os outputPath (map fst objects) runtimePath);
           rc = system command
       in if rc \<noteq> 0 then Inl (Panic Location0 (msg_link command rc)) else Inr objects)"

definition getSystemLinker :: "(str \<Rightarrow> bool) \<Rightarrow> str" where
  "getSystemLinker executable =
     (if executable ''/usr/bin/ld.gold'' then ''/usr/bin/ld.gold'' else ''/usr/bin/ld'')"

text \<open>Without the option to build in another linker.\<close>

definition targetLink ::
    "(str \<Rightarrow> str option) \<Rightarrow> (str \<Rightarrow> int) \<Rightarrow> (str \<Rightarrow> bool) \<Rightarrow> (str \<Rightarrow> os) \<Rightarrow> str \<Rightarrow> str \<Rightarrow> str list \<Rightarrow> str \<Rightarrow>
      (str \<times> str) list result" where
  "targetLink mkdtemp system executable os_of triple outputPath inputs runtimePath =
     targetLinkLD mkdtemp system (os_of triple) (getSystemLinker executable) outputPath inputs runtimePath"

section \<open>Lists of debug information\<close>

text \<open>The loop of \<open>getArray\<close>: each element once, where it is met first.\<close>

fun unique_from :: "'a list \<Rightarrow> 'a list \<Rightarrow> 'a list \<Rightarrow> 'a list" where
  "unique_from [] visited result = result"
| "unique_from (m # ms) visited result =
     (if m \<in> set visited then unique_from ms visited result
      else unique_from ms (m # visited) (result @ [m]))"

definition getArray :: "'a list \<Rightarrow> 'a list option" where
  "getArray data = (if data = [] then None else Some (unique_from data [] []))"

lemma unique_from_spec:
  assumes "set visited = set result" "distinct result"
  shows "set (unique_from data visited result) = set result \<union> set data \<and> distinct (unique_from data visited result)"
  using assms by (induction data visited result rule: unique_from.induct) auto

lemma getArray_spec:
  "getArray data = Some xs \<Longrightarrow> set xs = set data \<and> distinct xs"
  using unique_from_spec [of "[]" "[]" data] by (auto simp: getArray_def split: if_splits)

text \<open>
  The compile units of a module, with the six lists of each as \<open>null\<close> or a list, and what identifies
  the unit. All become one unit, which takes its identity from the last.
\<close>

record ('h, 'm) compile_unit =
  cu_header :: 'h
  cu_enumTypes :: "'m list option"
  cu_retainedTypes :: "'m list option"
  cu_subprograms :: "'m list option"
  cu_globalVariables :: "'m list option"
  cu_importedEntities :: "'m list option"
  cu_macros :: "'m list option"

text \<open>\<open>mergeArray\<close> for each unit: the wrapper of a null list has no elements.\<close>

definition merge_arrays :: "('u \<Rightarrow> 'm list option) \<Rightarrow> 'u list \<Rightarrow> 'm list option" where
  "merge_arrays sel cus = getArray (concat (map (\<lambda>cu. case sel cu of Some xs \<Rightarrow> xs | None \<Rightarrow> []) cus))"

definition transformMergeDebugInfo :: "('h, 'm) compile_unit list \<Rightarrow> ('h, 'm) compile_unit list" where
  "transformMergeDebugInfo culist =
     (if culist = [] then culist
      else [\<lparr>cu_header = cu_header (last culist),
             cu_enumTypes = merge_arrays cu_enumTypes culist,
             cu_retainedTypes = merge_arrays cu_retainedTypes culist,
             cu_subprograms = merge_arrays cu_subprograms culist,
             cu_globalVariables = merge_arrays cu_globalVariables culist,
             cu_importedEntities = merge_arrays cu_importedEntities culist,
             cu_macros = merge_arrays cu_macros culist\<rparr>])"

definition listed :: "'m list option \<Rightarrow> 'm set" where
  "listed xs = (case xs of Some xs \<Rightarrow> set xs | None \<Rightarrow> {})"

lemma getArray_listed: "listed (getArray xs) = set xs"
proof (cases "xs = []")
  case False
  then obtain ys where "getArray xs = Some ys" by (simp add: getArray_def)
  with getArray_spec [OF this] show ?thesis by (simp add: listed_def)
qed (simp add: getArray_def listed_def)

lemma merge_arrays_listed: "listed (merge_arrays sel cus) = (\<Union>cu \<in> set cus. listed (sel cu))"
proof -
  have "set (case sel cu of Some xs \<Rightarrow> xs | None \<Rightarrow> []) = listed (sel cu)" for cu
    by (cases "sel cu") (simp_all add: listed_def)
  then show ?thesis by (simp add: merge_arrays_def getArray_listed)
qed

lemma merged_subprograms:
  "\<forall>cu \<in> set (transformMergeDebugInfo cus). listed (cu_subprograms cu) = (\<Union>cu \<in> set cus. listed (cu_subprograms cu))"
  by (auto simp: transformMergeDebugInfo_def merge_arrays_listed)

section \<open>Passes\<close>

text \<open>What the builders of LLVM's passes are set to.\<close>

datatype inliner = AlwaysInliner | FunctionInliner int

record pipeline =
  pl_level :: int
  pl_inliner :: inliner
  pl_loopVectorize :: bool
  pl_slpVectorize :: bool

definition transformOptimize :: "int \<Rightarrow> pipeline" where
  "transformOptimize l =
     \<lparr>pl_level = l, pl_inliner = (if l > 1 then FunctionInliner l else AlwaysInliner),
      pl_loopVectorize = (l > 2), pl_slpVectorize = (l > 2)\<rparr>"

record gcov_options =
  gc_version :: str
  gc_cfgChecksum :: bool
  gc_namesInData :: bool

text \<open>From LLVM's defaults, for the system of the target.\<close>

definition transformCoverage :: "os \<Rightarrow> gcov_options \<Rightarrow> gcov_options" where
  "transformCoverage os defaults =
     (let options = defaults\<lparr>gc_version := ''404*'', gc_cfgChecksum := True\<rparr>
      in if os = Linux then options\<lparr>gc_namesInData := False\<rparr> else options)"

section \<open>The timer\<close>

record pass =
  ps_index :: nat
  ps_count :: nat
  ps_time :: "64 word"

record timer =
  tm_passes :: "(str \<times> pass) list"
  tm_last :: "64 word"

text \<open>The clock is an argument: the nanoseconds it shows at the call.\<close>

definition checkpoint :: "64 word \<Rightarrow> timer \<Rightarrow> timer" where
  "checkpoint now t = t\<lparr>tm_last := now\<rparr>"

definition Timer0 :: "64 word \<Rightarrow> timer" where
  "Timer0 now = checkpoint now \<lparr>tm_passes = [], tm_last = 0\<rparr>"

definition checkpoint_pass :: "64 word \<Rightarrow> str \<Rightarrow> timer \<Rightarrow> timer" where
  "checkpoint_pass now name t =
     (let (passes, p) =
        (case map_of (tm_passes t) name of
           Some p \<Rightarrow> (tm_passes t, p)
         | None \<Rightarrow> let p = \<lparr>ps_index = 0, ps_count = 0, ps_time = 0\<rparr> in (tm_passes t @ [(name, p)], p));
          p' = \<lparr>ps_index = (if ps_index p = 0 then length passes else ps_index p),
                ps_count = ps_count p + 1, ps_time = ps_time p + (now - tm_last t)\<rparr>
      in t\<lparr>tm_passes := map (\<lambda>(n, q). if n = name then (n, p') else (n, q)) passes, tm_last := now\<rparr>)"

text \<open>The names of \<open>dump\<close> in the order in which it prints them, a vector filled by index.\<close>

fun fill_indices :: "(str \<times> pass) list \<Rightarrow> str option list \<Rightarrow> str option list result" where
  "fill_indices [] ns = Inr ns"
| "fill_indices ((n, p) # ps) ns =
     bindR (assertR (0 < ps_index p \<and> ps_index p \<le> length ns)) (\<lambda>_. fill_indices ps (ns[ps_index p - 1 := Some n]))"

definition pad20 :: "str \<Rightarrow> str" where
  "pad20 s = s @ replicate (20 - length s) (CHR '' '')"

definition dump_line :: "timer \<Rightarrow> str option \<Rightarrow> str result" where
  "dump_line t n =
     (case n of
        None \<Rightarrow> Inl NullDeref
      | Some n \<Rightarrow>
          (case map_of (tm_passes t) n of
             None \<Rightarrow> Inl AssertFail
           | Some p \<Rightarrow>
               Inr (pad20 n @ '' '' @ show_nat (ps_count p) @ '' calls, '' @
                    show_int (sint (ucast (ps_time p div 1000000) :: 32 word)) @ '' msec'' @ [CHR 0x0A])))"

definition dump_timer :: "timer \<Rightarrow> str result" where
  "dump_timer t =
     bindR (fill_indices (tm_passes t) (replicate (length (tm_passes t)) None)) (\<lambda>ns.
       bindR (mapR (dump_line t) ns) (\<lambda>ls. Inr (concat ls)))"

text \<open>
  The passes are numbered from one in the order of their first checkpoint, which is the order of the
  list, so the vector of the names has no gap and the dump succeeds.
\<close>

definition timer_ok :: "timer \<Rightarrow> bool" where
  "timer_ok t =
     (distinct (map fst (tm_passes t)) \<and> map (ps_index \<circ> snd) (tm_passes t) = [1..<Suc (length (tm_passes t))])"

lemma index_of_pass:
  assumes "map (ps_index \<circ> snd) ps = [1..<Suc (length ps)]" "(n, p) \<in> set ps"
  shows "0 < ps_index p"
proof -
  have "ps_index p \<in> set (map (ps_index \<circ> snd) ps)" using assms(2) by force
  then show ?thesis unfolding assms(1) by auto
qed

lemma update_pass:
  assumes "\<And>q. (name, q) \<in> set ps \<Longrightarrow> ps_index p' = ps_index q"
  shows "map fst (map (\<lambda>(n, q). if n = name then (n, p') else (n, q)) ps) = map fst ps"
    "map (ps_index \<circ> snd) (map (\<lambda>(n, q). if n = name then (n, p') else (n, q)) ps) = map (ps_index \<circ> snd) ps"
  using assms by (auto split: prod.splits)

lemma timer_ok_eq:
  assumes "map fst (tm_passes t') = map fst ps" "map (ps_index \<circ> snd) (tm_passes t') = map (ps_index \<circ> snd) ps"
    "distinct (map fst ps)" "map (ps_index \<circ> snd) ps = [1..<Suc (length ps)]"
  shows "timer_ok t'"
proof -
  have "length (tm_passes t') = length ps" using assms(1) by (rule map_eq_imp_length_eq)
  with assms show ?thesis unfolding timer_ok_def by metis
qed

lemma checkpoint_pass_ok:
  assumes "timer_ok t"
  shows "timer_ok (checkpoint_pass now name t)"
proof (cases "map_of (tm_passes t) name")
  case (Some p)
  let ?p' = "\<lparr>ps_index = ps_index p, ps_count = ps_count p + 1, ps_time = ps_time p + (now - tm_last t)\<rparr>"
  from Some have p: "(name, p) \<in> set (tm_passes t)" by (rule map_of_SomeD)
  have uniq: "ps_index ?p' = ps_index q" if "(name, q) \<in> set (tm_passes t)" for q
    using eq_key_imp_eq_value [OF _ that p] assms by (simp add: timer_ok_def)
  have "0 < ps_index p" by (rule index_of_pass [OF _ p]) (use assms in \<open>simp add: timer_ok_def\<close>)
  with Some have "tm_passes (checkpoint_pass now name t) =
      map (\<lambda>(n, q). if n = name then (n, ?p') else (n, q)) (tm_passes t)"
    by (auto simp: checkpoint_pass_def Let_def)
  with update_pass [of name "tm_passes t" ?p', OF uniq] assms show ?thesis
    by (intro timer_ok_eq [of _ "tm_passes t"]) (simp_all only: timer_ok_def)
next
  case None
  then have new: "name \<notin> fst ` set (tm_passes t)" by (simp add: map_of_eq_None_iff)
  then have "map (\<lambda>(n, q). if n = name then (n, p') else (n, q)) (tm_passes t) = tm_passes t" for p'
    by (intro map_idI) force
  with None new assms show ?thesis by (auto simp: timer_ok_def checkpoint_pass_def Let_def)
qed

lemma fill_indices_from:
  "map (ps_index \<circ> snd) ps = [Suc (length ns)..<Suc (length ns + length ps)] \<Longrightarrow>
   fill_indices ps (ns @ replicate (length ps) None) = Inr (ns @ map (Some \<circ> fst) ps)"
proof (induction ps arbitrary: ns)
  case (Cons x ps)
  obtain n p where x: "x = (n, p)" by (cases x)
  have "[Suc (length ns)..<Suc (length ns + length (x # ps))] =
      Suc (length ns) # [Suc (Suc (length ns))..<Suc (Suc (length ns) + length ps)]"
    by (subst upt_conv_Cons) simp_all
  with Cons.prems x have p: "ps_index p = Suc (length ns)"
    and "map (ps_index \<circ> snd) ps = [Suc (length (ns @ [Some n]))..<Suc (length (ns @ [Some n]) + length ps)]"
    by (simp_all add: comp_def del: upt_Suc)
  from Cons.IH [OF this(2)] p x show ?case by (simp add: list_update_append)
qed simp

lemma dump_timer_ok:
  assumes "timer_ok t"
  shows "isRight (dump_timer t)"
proof -
  have "fill_indices (tm_passes t) ([] @ replicate (length (tm_passes t)) None) =
      Inr ([] @ map (Some \<circ> fst) (tm_passes t))"
    by (rule fill_indices_from) (use assms in \<open>simp_all add: timer_ok_def\<close>)
  moreover have "isRight (dump_line t n)" if "n \<in> set (map (Some \<circ> fst) (tm_passes t))" for n
    using that assms by (auto simp: dump_line_def timer_ok_def)
  then have "isRight (mapR (dump_line t) ns)" if "set ns \<subseteq> set (map (Some \<circ> fst) (tm_passes t))" for ns
    using that
  proof (induction ns)
    case (Cons n ns)
    then show ?case by (cases "dump_line t n"; cases "mapR (dump_line t) ns") (fastforce)+
  qed simp
  then have "isRight (mapR (dump_line t) (map (Some \<circ> fst) (tm_passes t)))" by blast
  ultimately show ?thesis by (cases "mapR (dump_line t) (map (Some \<circ> fst) (tm_passes t))") (simp_all add: dump_timer_def)
qed

end
