(* ===== verification/Compiler.thy ===== *)
theory Compiler
  imports Driver CodegenExpr Target
begin

text \<open>
  The compiler as a whole: \<open>main\<close> of \<open>compiler/compiler.cpp\<close>, with the generation of code in its place in
  the driver. What LLVM does with the module is a list of stages, with the settings the code gives them.
\<close>

section \<open>The generator of the driver\<close>

text \<open>
  LLVM for a target: the layout of types, their printing, the parser of assembly, and the verifier of
  modules.
\<close>

record backend =
  bk_offset :: "lty \<Rightarrow> nat \<Rightarrow> int"
  bk_size :: "lty \<Rightarrow> int"
  bk_bits :: "lty \<Rightarrow> int"
  bk_pointer_bits :: int
  bk_type_name :: "lty \<Rightarrow> str"
  bk_asm :: "str \<Rightarrow> asm_error option"
  bk_verify :: "cg \<Rightarrow> bool"

definition fn_decl_of :: "var_store \<Rightarrow> addr \<Rightarrow> ast \<Rightarrow> fn_decl option" where
  "fn_decl_of vs a n =
     (case decl_of vs n of
        Some d \<Rightarrow> if fd_addr d = Some a then Some d else None
      | None \<Rightarrow> None)"

definition genv_of :: "backend \<Rightarrow> int \<Rightarrow> ast list \<Rightarrow> var_store \<Rightarrow> genv" where
  "genv_of bk debug trees vs =
     \<lparr>ge_defs = pr_defs (program_of trees),
      ge_fns = (\<lambda>a. first_some (fn_decl_of vs a) (concat (map nodes_of trees))),
      ge_vars = vs, ge_inst = None, ge_offset = bk_offset bk, ge_size = bk_size bk,
      ge_type_name = bk_type_name bk, ge_asm = bk_asm bk, ge_debug = debug, ge_bits = bk_bits bk,
      ge_pointer_bits = bk_pointer_bits bk\<rparr>"

definition module0 :: cg where
  "module0 =
     \<lparr>cg_output = Output0, cg_fresh = 0, cg_vars = [], cg_pending = [], cg_types = [], cg_infos = [], cg_funs = [],
      cg_blocks = [], cg_insert = None, cg_calls = 0, cg_phis = [], cg_loc = None, cg_scopes = [], cg_locs = [],
      cg_dstructs = []\<rparr>"

text \<open>
  The bounds: rounds of loading, sorting and inference, depth of rewriting, number of functions and depth
  of types in code generation.
\<close>

record bounds =
  bd_load :: nat
  bd_sort :: nat
  bd_infer :: nat
  bd_rewrite :: nat
  bd_functions :: nat
  bd_depth :: nat

text \<open>The module of LLVM goes with the entry points that the driver collects.\<close>

definition generate :: "bounds \<Rightarrow> backend \<Rightarrow> int \<Rightarrow> (cg \<times> val list) generator" where
  "generate bd bk debug trees u md =
     (let (c, entries) = md in
      bindR (codegen (bd_functions bd) (bd_depth bd) (genv_of bk debug trees (u_vars u)) (u_root u)
          (c\<lparr>cg_output := u_output u, cg_fresh := u_next u\<rparr>)) (\<lambda>(entry, c').
        Inr (cg_fresh c', cg_output c', c', entries @ [entry])))"

section \<open>The stages after code generation\<close>

datatype stage =
    VerifyModule
  | Optimize pipeline
  | KeepFramePointers
  | MergeDebugInfo
  | CoverageCounters
  | PrintModule
  | PrintAssembly opt_level
  | AssembleObject opt_level
  | WriteObject str
  | LinkProgram str str

definition stages :: "str \<Rightarrow> options \<Rightarrow> stage list" where
  "stages argv0 opts =
     [VerifyModule, Optimize (transformOptimize (o_optimize opts)), KeepFramePointers] @
     (if o_debugInfo opts \<noteq> 0 then [MergeDebugInfo] else []) @
     (if o_coverage opts then [CoverageCounters] else []) @
     (if o_dumpLLVM opts then [PrintModule] else []) @
     (if o_dumpAsm opts then [PrintAssembly (getCodeGenOptLevel (o_optimize opts))] else []) @
     (if o_output opts \<noteq> [] then
        AssembleObject (getCodeGenOptLevel (o_optimize opts)) #
        (if o_compileOnly opts then [WriteObject (o_output opts)]
         else [LinkProgram (o_output opts) (getRuntimePath argv0)])
      else [])"

text \<open>The flags of the module; the version of debug metadata is LLVM's.\<close>

definition module_flags :: "nat \<Rightarrow> bool \<Rightarrow> options \<Rightarrow> (str \<times> nat) list" where
  "module_flags version darwin opts =
     (if o_debugInfo opts \<noteq> 0 then
        (''Debug Info Version'', version) # (if darwin then [(''Dwarf Version'', 2)] else [])
      else [])"

definition target_triple :: "str \<Rightarrow> options \<Rightarrow> str" where
  "target_triple host opts = (if o_triple opts = [] then host else o_triple opts)"

section \<open>The program\<close>

text \<open>
  What a run comes to: the exit code, what was reported, the stages, the module, and the trees that code
  was generated for. The verifier is called in an assertion.
\<close>

record outcome =
  oc_code :: int
  oc_output :: outp
  oc_stages :: "stage list"
  oc_module :: cg
  oc_entries :: "(ast \<times> var_store) list"

definition aikec :: "bounds \<Rightarrow> (str \<Rightarrow> str option) \<Rightarrow> backend \<Rightarrow> str \<Rightarrow> str list \<Rightarrow> outcome result" where
  "aikec bd readFile bk argv0 args =
     (case parseOptions args of
        Inl msg \<Rightarrow> Inl (Panic Location0 msg)
      | Inr opts \<Rightarrow>
          bindR (compileModules (bd_load bd) (bd_sort bd) (bd_infer bd) (bd_rewrite bd) readFile
              (generate bd bk (o_debugInfo opts)) opts Output0 (module0, [])) (\<lambda>(ok, es, s, c, entries).
            if \<not> ok then
              Inr \<lparr>oc_code = 1, oc_output = ld_output s, oc_stages = [], oc_module = c, oc_entries = es\<rparr>
            else
              bindR (codegenMain entries c) (\<lambda>(_, c').
              bindR (assertR (bk_verify bk c')) (\<lambda>_.
                Inr \<lparr>oc_code = 0, oc_output = ld_output s, oc_stages = stages argv0 opts, oc_module = c',
                     oc_entries = es\<rparr>))))"

end
