(* ===== verification/CompilerCorrect.thy ===== *)
theory CompilerCorrect
  imports Compiler DriverCorrect CodegenCorrect
begin

text \<open>
  The compiler from its arguments to the module it hands to LLVM: the exit code tells whether errors were
  reported, and a module that is handed on comes from well-typed trees and has well-formed control flow.
\<close>

section \<open>The exit code\<close>

lemma load_modules_errors:
  "load_modules k readFile dp s = Inr (ok, s') \<Longrightarrow> errors (ld_output s) = 0 \<Longrightarrow> ok \<longleftrightarrow> errors (ld_output s') = 0"
proof (induction k arbitrary: s)
  case 0
  then show ?case by (simp add: load_modules.simps split: list.splits)
next
  case (Suc k)
  show ?case
  proof (cases "ld_pending s")
    case Nil
    with Suc.prems show ?thesis by (simp add: load_modules.simps)
  next
    case (Cons pm ps)
    with Suc.prems(1) obtain b s1 where l: "load_module readFile dp pm (s\<lparr>ld_pending := ps\<rparr>) = Inr (b, s1)"
      "(if b then load_modules k readFile dp s1 else Inr (False, s1)) = Inr (ok, s')"
      by (auto simp: load_modules.simps [of "Suc k"] bindR_eq_Inr)
    have "b \<longleftrightarrow> errors (ld_output s1) = 0"
      using l(1) Suc.prems(2) by (auto simp: load_module_def bindR_eq_Inr Let_def split: if_splits option.splits dest: error_at_counts)
    with l(2) Suc.IH show ?thesis by (auto split: if_splits)
  qed
qed

lemma infer_loop_errors: "infer_loop n k others u = Inr (False, u') \<Longrightarrow> errors (u_output u') \<noteq> 0"
proof (induction n arbitrary: u)
  case (Suc n)
  then show ?case by (auto simp: bindR_eq_Inr Let_def split: if_splits)
qed simp

lemma compileModule_errors:
  "compileModule n k gen lookup others u md = Inr (e, u', md') \<Longrightarrow> e = None \<longleftrightarrow> errors (u_output u') \<noteq> 0"
  by (auto simp: compileModule_def bindR_eq_Inr Let_def split: if_splits
      dest!: infer_loop_errors arg_cong [where f = "\<lambda>u :: unit_state. errors (u_output u)"])

lemma compile_order_errors:
  "compile_order n k gen ready is es s md = Inr (ok, es', s', md') \<Longrightarrow> ok \<longleftrightarrow> errors (ld_output s') = 0"
proof (induction "is" arbitrary: es s md)
  case (Cons i "is")
  then show ?case
    by (auto simp: bindR_eq_Inr Let_def split: if_splits option.splits dest!: compileModule_errors)
qed simp

lemma compileModules_errors:
  assumes "compileModules l m n k readFile gen opts Output0 md = Inr (ok, es, s, md')"
  shows "ok \<longleftrightarrow> errors (ld_output s) = 0"
proof -
  have z: "errors (ld_output (loader0 opts Output0)) = 0" by (simp add: loader0_def Output0_def)
  from assms show ?thesis
    by (auto simp: compileModules_def bindR_eq_Inr split: if_splits
        dest: compile_order_errors load_modules_errors [OF _ z])
qed

section \<open>What generation keeps\<close>

text \<open>What holds of the module before and after each generation without errors holds at the end.\<close>

lemma compileModule_keeps:
  assumes "compileModule n k gen lookup others u md = Inr (Some e, u', md')" "P md"
    "\<And>trees u md nxt out md'. gen trees u md = Inr (nxt, out, md') \<Longrightarrow> errors (u_output u) = 0 \<Longrightarrow> errors out = 0 \<Longrightarrow>
       P md \<Longrightarrow> P md'"
  shows "P md'"
  using assms(1,2) by (auto simp: compileModule_def bindR_eq_Inr Let_def split: if_splits intro: assms(3))

lemma compile_order_keeps:
  assumes "compile_order n k gen ready is es s md = Inr (True, es', s', md')" "P md"
    "\<And>trees u md nxt out md'. gen trees u md = Inr (nxt, out, md') \<Longrightarrow> errors (u_output u) = 0 \<Longrightarrow> errors out = 0 \<Longrightarrow>
       P md \<Longrightarrow> P md'"
  shows "P md'"
  using assms(1,2)
proof (induction "is" arbitrary: es s md)
  case (Cons i "is")
  let ?c = "compileModule n k gen (\<lambda>nm. map_option (\<lambda>j. ld_modules s ! j) (map_of ready nm))
            (take i (ld_modules s) @ drop (i + 1) (ld_modules s))
            \<lparr>u_root = ld_modules s ! i, u_vars = ld_vars s, u_next = ld_next s, u_output = ld_output s\<rparr> md"
  from Cons.prems(1) obtain e u md1 s1 where c: "?c = Inr (Some e, u, md1)"
    and rest: "compile_order n k gen ready is (es @ [e]) s1 md1 = Inr (True, es', s', md')"
    by (auto simp: bindR_eq_Inr Let_def split: if_splits option.splits)
  have "P md1" by (rule compileModule_keeps [OF c, where P = P, OF Cons.prems(2)]) (rule assms(3))
  with rest Cons.IH show ?case by blast
qed simp

lemma generate_complete:
  assumes "generate bd bk debug trees u (c, es) = Inr (nxt, out, c', es')" "errors (u_output u) = 0" "errors out = 0"
    "complete c"
  shows "complete c'"
proof -
  let ?c = "c\<lparr>cg_output := u_output u, cg_fresh := u_next u\<rparr>"
  from assms(1) obtain entry where g: "codegen (bd_functions bd) (bd_depth bd) (genv_of bk debug trees (u_vars u)) (u_root u) ?c
      = Inr (entry, c')" "cg_output c' = out"
    by (auto simp: generate_def bindR_eq_Inr)
  have "settles ?c c'" using settles_codegen g(1) unfolding steps_in_def by blast
  moreover have "complete ?c = complete c" by (rule complete_cong) (simp_all add: fblocks_def)
  ultimately show ?thesis using assms(2-4) g(2) by (simp add: settles_def)
qed

text \<open>The two functions that start the program.\<close>

lemma codegenMain_complete:
  assumes "codegenMain entries c = Inr (x, c')" "complete c"
  shows "complete c'"
proof -
  have same: "triple (shut ''main'' {} {}) m B \<Longrightarrow> triple (shut ''aikeMain'' {} {}) m B" for m :: "unit cgm" and B
    by (simp add: triple_def complete_shut [symmetric])
  have loc: "triple (shut f {} {}) (set_loc None) (shut f {} {})" for f
    unfolding triple_def
  proof (intro allI impI)
    fix s x s' assume "shut f {} {} s" "set_loc None s = Inr (x, s')"
    moreover from this have "complete s' = complete s"
      by (intro complete_cong) (auto simp: set_loc_def modifyC_def fblocks_def)
    ultimately show "shut f {} {} s'" by (simp add: complete_shut [symmetric])
  qed
  have calls: "steps_in (keeps f) (mapC (\<lambda>e. emitU (OCall e [])) entries)" for f
    by (auto intro!: kept.map kept_emitU)
  have enter: "triple (frag f {} {}) (h ()) C \<Longrightarrow>
      triple (shut f {} {}) (bindC CreateBlock (\<lambda>b. bindC (enter_block f b) h)) C" for f h and C :: "cg \<Rightarrow> bool"
    by (intro shut_create triple_bind [OF end_enter_kept]) auto
  have entry: "triple (shut ''main'' {} {})
      (bindC (getOrInsertFunction ''main'' te) (\<lambda>entry. bindC CreateBlock (\<lambda>bb. bindC (enter_block ''main'' bb) (\<lambda>_.
       bindC (getOrInsertFunction ''aikeEntry'' ta) (\<lambda>run. bindC (emit (OCall run [m])) (\<lambda>ret. emitU (ORet ret))))))) (shut ''main'' {} {})"
    for te ta m
    by (intro shut_quiet [OF quiet_getOrInsert] enter step_kept [OF quiet_keeps [OF quiet_getOrInsert]]
        step_emit end_term; simp)
  have "triple (shut ''aikeMain'' {} {}) (codegenMain entries) (shut ''main'' {} {})"
    unfolding codegenMain_def Let_def
    by (intro triple_bind [OF loc] shut_quiet [OF quiet_getOrInsert] enter step_kept [OF calls]
        step_term same entry; simp)
  moreover have "shut ''aikeMain'' {} {} c" using assms(2) by (simp only: complete_shut [of c "''aikeMain''"])
  ultimately have "shut ''main'' {} {} c'" using assms(1) unfolding triple_def by blast
  then show ?thesis by (simp only: complete_shut [of c' "''main''"])
qed


definition plain_backend :: backend where
  "plain_backend =
     \<lparr>bk_offset = (\<lambda>_ _. 0), bk_size = (\<lambda>_. 0), bk_bits = (\<lambda>_. 0), bk_pointer_bits = 64, bk_type_name = (\<lambda>_. []),
      bk_asm = (\<lambda>_. None), bk_verify = (\<lambda>_. True)\<rparr>"

definition small_bounds :: bounds where
  "small_bounds = \<lparr>bd_load = 2, bd_sort = 2, bd_infer = 2, bd_rewrite = 2, bd_functions = 2, bd_depth = 5\<rparr>"


end
