(* ===== verification/TestRunner.thy ===== *)
theory TestRunner
  imports Prelude
begin

text \<open>
  The test runner, \<open>tests/runner.cpp\<close>: how it collects what a process prints, what it reads from the
  comments of a test, when a test passes, and the threads that share the list of tests. Processes, files
  and directories are parameters: what \<open>select\<close> and \<open>read\<close> report of a process, the contents of a file,
  the tree of a directory. A path is a string without a zero byte.
\<close>

section \<open>Processes\<close>

text \<open>
  One return of \<open>select\<close> on both pipes: for each, \<open>None\<close> when there is nothing to read, else what the
  \<open>read\<close> that follows gets, at most 4096 bytes, and nothing at the end of the stream or on an error.
\<close>

record readiness =
  r_out :: "string option"
  r_err :: "string option"

text \<open>
  One of the two blocks after \<open>select\<close>: \<open>select\<close> has removed the pipe from the set when it was not
  ready; the block removes it at the end of the stream. The set is the next call's argument as it is.
\<close>

definition pump_one :: "string option \<Rightarrow> bool \<Rightarrow> string \<Rightarrow> bool \<times> string" where
  "pump_one r isset acc =
     (case r of
        None \<Rightarrow> (False, acc)
      | Some buf \<Rightarrow> if isset then if buf = [] then (False, acc) else (True, acc @ buf) else (False, acc))"

text \<open>The loop of \<open>select\<close>; the list ends where \<open>select\<close> fails.\<close>

fun pump :: "readiness list \<Rightarrow> bool \<Rightarrow> bool \<Rightarrow> string \<Rightarrow> string \<Rightarrow> string \<times> string" where
  "pump [] so se out err = (out, err)"
| "pump (r # rs) so se out err =
     (if so \<or> se then
        let (so', out') = pump_one (r_out r) so out; (se', err') = pump_one (r_err r) se err
        in pump rs so' se' out' err'
      else (out, err))"

text \<open>
  \<open>system\<close>: the status, and what was collected. The parameter runs a process in the state of the world;
  \<open>None\<close> when there is no pipe or no process.
\<close>

type_synonym 'w exec = "string \<Rightarrow> string list \<Rightarrow> 'w \<Rightarrow> (int \<times> readiness list) option \<times> 'w"

definition run_process :: "'w exec \<Rightarrow> string \<Rightarrow> string list \<Rightarrow> 'w \<Rightarrow> (int \<times> string \<times> string) \<times> 'w" where
  "run_process ex file args w =
     (case ex file args w of
        (None, w') \<Rightarrow> ((-1, [], []), w')
      | (Some (status, rs), w') \<Rightarrow> ((status, pump rs True True [] []), w'))"

section \<open>What a test expects\<close>

datatype test_type = TestUnknown | TestOk | TestError | TestXFail

abbreviation newline :: char where "newline \<equiv> CHR 0x0A"

text \<open>\<open>fgets\<close> with room for \<open>n\<close> bytes: what it reads, and what is left.\<close>

definition fgets :: "nat \<Rightarrow> string \<Rightarrow> string \<times> string" where
  "fgets n s =
     (let k = length (takeWhile (\<lambda>c. c \<noteq> newline) (take n s)); m = (if k < length (take n s) then Suc k else k)
      in (take m s, drop m s))"

lemma fgets_shrinks: "0 < n \<Longrightarrow> s \<noteq> [] \<Longrightarrow> length (snd (fgets n s)) < length s"
  by (cases s; cases n) (auto simp: fgets_def Let_def)

text \<open>The buffer as a string of C, which a zero byte ends, without the newline at its end.\<close>

definition trim_line :: "string \<Rightarrow> string" where
  "trim_line s =
     (let line = takeWhile (\<lambda>c. c \<noteq> CHR 0x00) s
      in if line \<noteq> [] \<and> last line = newline then butlast line else line)"

text \<open>The words of the list of flags, which single spaces or more separate.\<close>

function split_flags :: "string \<Rightarrow> string list" where
  "split_flags [] = []"
| "split_flags (c # s) =
     (let start = dropWhile (\<lambda>x. x = CHR '' '') (c # s); word = takeWhile (\<lambda>x. x \<noteq> CHR '' '') start
      in (if word = [] then [] else [word]) @ split_flags (dropWhile (\<lambda>x. x \<noteq> CHR '' '') start))"
  by pat_completeness auto
termination
  by (relation "measure length")
    (simp_all add: less_Suc_eq_le length_dropWhile_le le_trans [OF length_dropWhile_le length_dropWhile_le])

record expectation =
  e_type :: test_type
  e_error :: bool
  e_output :: string
  e_flags :: "string list"

definition set_type :: "test_type \<Rightarrow> expectation \<Rightarrow> expectation" where
  "set_type t e = e\<lparr>e_error := e_error e \<or> e_type e \<noteq> TestUnknown, e_type := t\<rparr>"

definition parse_line :: "string \<Rightarrow> expectation \<Rightarrow> expectation" where
  "parse_line line e =
     (if take 2 line = ''##'' then
        if line = ''## OK'' then set_type TestOk e
        else if line = ''## ERROR'' then set_type TestError e
        else if line = ''## XFAIL'' then set_type TestXFail e
        else if take 9 line = ''## FLAGS '' then e\<lparr>e_flags := e_flags e @ split_flags (drop 8 line)\<rparr>
        else e\<lparr>e_error := True\<rparr>
      else if take 2 line = ''# '' \<and> e_type e \<noteq> TestUnknown then
        e\<lparr>e_output := e_output e @ drop 2 line @ [newline]\<rparr>
      else e)"

text \<open>The size of the buffer less the zero byte at its end.\<close>

definition kLine :: nat where
  "kLine = 2047"

function parse_lines :: "string \<Rightarrow> expectation \<Rightarrow> expectation" where
  "parse_lines s e =
     (if s = [] then e
      else let (line, s') = fgets kLine s in parse_lines s' (parse_line (trim_line line) e))"
  by pat_completeness auto
termination
proof (relation "measure (\<lambda>(s, e). length s)")
  fix s :: string and e :: expectation and p :: "string \<times> string" and line s'
  assume "s \<noteq> []" "p = fgets kLine s" "(line, s') = p"
  moreover from this have "s' = snd (fgets kLine s)" by (metis snd_conv)
  ultimately show "((s', parse_line (trim_line line) e), s, e) \<in> measure (\<lambda>(s, e). length s)"
    using fgets_shrinks [of kLine s] by (simp add: kLine_def)
qed simp

declare parse_lines.simps [simp del]

text \<open>\<open>parseTest\<close>, of what the file holds; \<open>None\<close> when it cannot be opened.\<close>

definition parseTest :: "string option \<Rightarrow> test_type \<times> string \<times> string list" where
  "parseTest content =
     (case content of
        None \<Rightarrow> (TestUnknown, [], [])
      | Some s \<Rightarrow>
          (let e = parse_lines s \<lparr>e_type = TestUnknown, e_error = False, e_output = [], e_flags = []\<rparr>
           in (if e_error e then TestUnknown else e_type e, e_output e, e_flags e)))"

section \<open>Errors\<close>

text \<open>The lines that \<open>getline\<close> gets: a newline at the end starts no line.\<close>

fun getlines_from :: "string \<Rightarrow> string \<Rightarrow> string list" where
  "getlines_from acc [] = (if acc = [] then [] else [acc])"
| "getlines_from acc (c # s) = (if c = newline then acc # getlines_from [] s else getlines_from (acc @ [c]) s)"

definition sanitizeErrors :: "string \<Rightarrow> string \<Rightarrow> string" where
  "sanitizeErrors output source =
     concat (map (\<lambda>line. drop (length source) line @ [newline])
       (filter (\<lambda>line. take (length source) line = source) (getlines_from [] output)))"

section \<open>One test\<close>

datatype test_result = Pass | Fail | XFail

definition failed :: "string \<Rightarrow> string \<Rightarrow> string" where
  "failed source what = ''Test '' @ source @ '' failed: '' @ what @ [newline]"

text \<open>The result and what is printed to \<open>stderr\<close>, under the lock.\<close>

definition runTest ::
  "'w exec \<Rightarrow> ('w \<Rightarrow> string \<Rightarrow> string option) \<Rightarrow> string \<Rightarrow> string \<Rightarrow> string \<Rightarrow> string list \<Rightarrow> 'w \<Rightarrow> (test_result \<times> string) \<times> 'w" where
  "runTest ex contents source target compiler extraFlags w =
     (let (testType, expectedOutput, testFlags) = parseTest (contents w source);
          compileFlags = [source, ''-o'', target] @ extraFlags @ testFlags
      in case testType of
           TestOk \<Rightarrow>
             (let ((rc, output, error), w1) = run_process ex compiler compileFlags w
              in if rc \<noteq> 0 then
                   ((Fail, failed source (''compilation failed with code '' @ show_int rc) @ ''Errors:'' @ [newline] @ error), w1)
                 else
                   let ((re, output, error), w2) = run_process ex target [] w1
                   in if re \<noteq> 0 then
                        ((Fail, failed source (''running failed with code '' @ show_int re) @ ''Output:'' @ [newline] @ output), w2)
                      else if output \<noteq> expectedOutput then
                        ((Fail, failed source ''output mismatch'' @ ''Expected output:'' @ [newline] @ expectedOutput @
                            ''Actual output:'' @ [newline] @ output), w2)
                      else ((Pass, []), w2))
         | TestError \<Rightarrow>
             (let ((rc, output, error), w1) = run_process ex compiler compileFlags w
              in if rc = 0 then
                   ((Fail, failed source ''compilation should have resulted in errors but did not'' @
                       (if output \<noteq> [] then ''Output:'' @ [newline] @ output else [])), w1)
                 else
                   let errors = sanitizeErrors error source
                   in if errors \<noteq> expectedOutput then
                        ((Fail, failed source ''error output mismatch'' @ ''Expected errors:'' @ [newline] @ expectedOutput @
                            ''Actual errors:'' @ [newline] @ errors), w1)
                      else ((Pass, []), w1))
         | TestXFail \<Rightarrow>
             (let ((rc, output, error), w1) = run_process ex compiler compileFlags w
              in if rc = 0 then ((Fail, failed source ''compilation should have failed but did not''), w1)
                 else ((XFail, []), w1))
         | TestUnknown \<Rightarrow> ((Fail, failed source ''no valid test output detected''), w))"

section \<open>Paths\<close>

definition joinPath :: "string \<Rightarrow> string \<Rightarrow> string" where
  "joinPath left right = left @ (if left \<noteq> [] \<and> last left \<noteq> CHR ''/'' then ''/'' else []) @ right"

text \<open>What is at a path: a directory with its entries in the order of \<open>readdir\<close>, one that cannot be opened, or anything else.\<close>

datatype entry = File | Closed | Dir "(string \<times> entry) list"

fun gatherFilesRec :: "string \<Rightarrow> entry \<Rightarrow> string list" where
  "gatherFilesRec rpath (Dir es) =
     concat (map (\<lambda>(name, e).
       if take 1 name = ''.'' then []
       else case e of
              File \<Rightarrow> [joinPath rpath name]
            | _ \<Rightarrow> gatherFilesRec (joinPath rpath name) e) es)"
| "gatherFilesRec rpath Closed = []"
| "gatherFilesRec rpath File = []"

text \<open>The directories that are made, in order.\<close>

definition createPathRec :: "string \<Rightarrow> string list" where
  "createPathRec path = map (\<lambda>i. take i path) (filter (\<lambda>i. path ! i = CHR ''/'') [1..<length path])"

text \<open>The files that are tests: \<open>rfind\<close> answers the length less five just when the name ends so.\<close>

definition is_test :: "string \<Rightarrow> bool" where
  "is_test f = (5 \<le> length f \<and> drop (length f - 5) f = ''.aike'')"

text \<open>
  Where a test is and where its program goes, under the two roots; the directories on the way to the
  program are made first.
\<close>

definition test_paths :: "string \<Rightarrow> string \<Rightarrow> string \<Rightarrow> string \<times> string" where
  "test_paths sourcePath targetPath f = (joinPath sourcePath f, joinPath targetPath (take (length f - 5) f))"

definition run_file ::
  "'w exec \<Rightarrow> ('w \<Rightarrow> string \<Rightarrow> string option) \<Rightarrow> (string list \<Rightarrow> 'w \<Rightarrow> 'w) \<Rightarrow> string \<Rightarrow> string \<Rightarrow> string \<Rightarrow> string list \<Rightarrow>
   string \<Rightarrow> 'w \<Rightarrow> (test_result \<times> string) \<times> 'w" where
  "run_file ex contents mkdirs sourcePath targetPath compiler extraFlags f w =
     (let (source, target) = test_paths sourcePath targetPath f
      in runTest ex contents source target compiler extraFlags (mkdirs (createPathRec target) w))"

section \<open>The threads\<close>

text \<open>
  Where a thread stands in its loop: before \<open>index++\<close>, with the index it got, with the paths made, in
  \<open>runTest\<close> after \<open>total++\<close>, with the result of the test, or out of the loop.
\<close>

datatype worker = Top | Fetched nat | Made nat | Running nat | Ran test_result | Finished

type_synonym counter = "32 word"

record runner =
  n_index :: counter
  n_workers :: "worker list"
  n_total :: counter
  n_passed :: counter
  n_failed :: counter
  n_xfail :: counter
  n_log :: "(nat \<times> test_result) list"

definition runner0 :: "nat \<Rightarrow> runner" where
  "runner0 jobs =
     \<lparr>n_index = 0, n_workers = replicate jobs Top, n_total = 0, n_passed = 0, n_failed = 0, n_xfail = 0, n_log = []\<rparr>"

abbreviation move :: "nat \<Rightarrow> worker \<Rightarrow> runner \<Rightarrow> runner" where
  "move t w s \<equiv> s\<lparr>n_workers := (n_workers s)[t := w]\<rparr>"

fun count_result :: "test_result \<Rightarrow> runner \<Rightarrow> runner" where
  "count_result Pass s = s\<lparr>n_passed := n_passed s + 1\<rparr>"
| "count_result Fail s = s\<lparr>n_failed := n_failed s + 1\<rparr>"
| "count_result XFail s = s\<lparr>n_xfail := n_xfail s + 1\<rparr>"

text \<open>
  The atomic steps of thread \<open>t\<close>. Other threads may run between any two. What \<open>runTest\<close> answers is
  left open, so that it may depend on all that other threads do; \<open>n_log\<close> records it, and no step reads it.
\<close>

inductive worker_step :: "string list \<Rightarrow> runner \<Rightarrow> runner \<Rightarrow> bool" for files where
  fetch: "t < length (n_workers s) \<Longrightarrow> n_workers s ! t = Top \<Longrightarrow>
    worker_step files s (move t (Fetched (unat (n_index s))) (s\<lparr>n_index := n_index s + 1\<rparr>))"
| leave: "t < length (n_workers s) \<Longrightarrow> n_workers s ! t = Fetched i \<Longrightarrow> i \<ge> length files \<Longrightarrow>
    worker_step files s (move t Finished s)"
| skip: "t < length (n_workers s) \<Longrightarrow> n_workers s ! t = Fetched i \<Longrightarrow> i < length files \<Longrightarrow> \<not> is_test (files ! i) \<Longrightarrow>
    worker_step files s (move t Top s)"
| make: "t < length (n_workers s) \<Longrightarrow> n_workers s ! t = Fetched i \<Longrightarrow> i < length files \<Longrightarrow> is_test (files ! i) \<Longrightarrow>
    worker_step files s (move t (Made i) s)"
| start: "t < length (n_workers s) \<Longrightarrow> n_workers s ! t = Made i \<Longrightarrow>
    worker_step files s (move t (Running i) (s\<lparr>n_total := n_total s + 1\<rparr>))"
| run: "t < length (n_workers s) \<Longrightarrow> n_workers s ! t = Running i \<Longrightarrow>
    worker_step files s (move t (Ran r) (s\<lparr>n_log := n_log s @ [(i, r)]\<rparr>))"
| tally: "t < length (n_workers s) \<Longrightarrow> n_workers s ! t = Ran r \<Longrightarrow>
    worker_step files s (move t Top (count_result r s))"

inductive_cases worker_stepE: "worker_step files s s'"

text \<open>After \<open>join\<close>: every thread has left its loop.\<close>

definition joined :: "runner \<Rightarrow> bool" where
  "joined s = (\<forall>w \<in> set (n_workers s). w = Finished)"

section \<open>The program\<close>

text \<open>
  The arguments: the source, the target, the compiler and the flags for it; on the left what is printed
  when there are too few. A source that ends in a slash is a directory of tests, any other a single test,
  and an empty one is not defined in C++.
\<close>

record run_options =
  ro_source :: string
  ro_target :: string
  ro_compiler :: string
  ro_flags :: "string list"

definition run_options :: "string list \<Rightarrow> string + run_options" where
  "run_options argv =
     (if length argv < 4 then
        Inl (''Usage: '' @ (case argv of a # _ \<Rightarrow> a | [] \<Rightarrow> []) @ '' [test.aike] [test.aike.o] [aikec-path] [aikec-flags]'' @ [newline])
      else Inr \<lparr>ro_source = argv ! 1, ro_target = argv ! 2, ro_compiler = argv ! 3, ro_flags = drop 4 argv\<rparr>)"

definition is_single :: "run_options \<Rightarrow> bool" where
  "is_single opts = (last (ro_source opts) \<noteq> CHR ''/'')"

definition main_single :: "'w exec \<Rightarrow> ('w \<Rightarrow> string \<Rightarrow> string option) \<Rightarrow> run_options \<Rightarrow> 'w \<Rightarrow> int \<times> 'w" where
  "main_single ex contents opts w =
     (let ((r, msg), w') = runTest ex contents (ro_source opts) (ro_target opts) (ro_compiler opts) (ro_flags opts) w
      in (if r = Fail then 1 else 0, w'))"

definition summary :: "runner \<Rightarrow> string" where
  "summary s =
     (if n_failed s \<noteq> 0 then
        ''FAILURE: '' @ show_nat (unat (n_failed s)) @ '' out of '' @ show_nat (unat (n_total s)) @ '' tests failed.'' @ [newline]
      else ''Success: '' @ show_nat (unat (n_total s)) @ '' tests passed.'' @ [newline]) @
     (if n_xfail s \<noteq> 0 then show_nat (unat (n_xfail s)) @ '' tests failed as expected'' @ [newline] else [])"

definition exit_code :: "runner \<Rightarrow> int" where
  "exit_code s = (if n_failed s \<noteq> 0 then 1 else 0)"

end
