(* ===== verification/TestRunnerCorrect.thy ===== *)
theory TestRunnerCorrect
  imports TestRunner "HOL-Library.Multiset"
begin

text \<open>
  The threads of the test runner share the list of tests without losing or repeating one, and their
  counters add up; the pipe loop forgets a stream that is silent once; what a test expects is read back
  from its comments.
\<close>

section \<open>What the threads hold\<close>

text \<open>The test a thread has taken and not finished, whether it has seen the end, and what it has yet to count.\<close>

fun held :: "string list \<Rightarrow> worker \<Rightarrow> nat multiset" where
  "held files (Fetched i) = (if i < length files \<and> is_test (files ! i) then {#i#} else {#})"
| "held files (Made i) = {#i#}"
| "held files (Running i) = {#i#}"
| "held files _ = {#}"

fun past :: "string list \<Rightarrow> worker \<Rightarrow> nat" where
  "past files (Fetched i) = (if length files \<le> i then 1 else 0)"
| "past files Finished = 1"
| "past files _ = 0"

definition inside :: "worker \<Rightarrow> nat" where
  "inside w = (case w of Running i \<Rightarrow> 1 | _ \<Rightarrow> 0)"

definition untold :: "test_result \<Rightarrow> worker \<Rightarrow> nat" where
  "untold r w = (if w = Ran r then 1 else 0)"

fun tally_of :: "test_result \<Rightarrow> runner \<Rightarrow> counter" where
  "tally_of Pass s = n_passed s"
| "tally_of Fail s = n_failed s"
| "tally_of XFail s = n_xfail s"

definition over :: "(worker \<Rightarrow> 'a::comm_monoid_add) \<Rightarrow> worker list \<Rightarrow> 'a" where
  "over f ws = sum_list (map f ws)"

definition tests_below :: "string list \<Rightarrow> nat \<Rightarrow> nat list" where
  "tests_below files k = filter (\<lambda>i. is_test (files ! i)) [0..<k]"

text \<open>The tests that were run, with their results.\<close>

definition results :: "test_result \<Rightarrow> runner \<Rightarrow> nat" where
  "results r s = count_list (map snd (n_log s)) r"

definition runner_inv :: "string list \<Rightarrow> nat \<Rightarrow> runner \<Rightarrow> bool" where
  "runner_inv files jobs s \<longleftrightarrow>
     length (n_workers s) = jobs \<and>
     over (held files) (n_workers s) + mset (map fst (n_log s)) =
       mset (tests_below files (min (unat (n_index s)) (length files))) \<and>
     unat (n_index s) \<le> length files + over (past files) (n_workers s) \<and>
     (0 < over (past files) (n_workers s) \<longrightarrow> length files < unat (n_index s)) \<and>
     unat (n_total s) = length (n_log s) + over inside (n_workers s) \<and>
     (\<forall>r. unat (tally_of r s) + over (untold r) (n_workers s) = results r s)"

lemma over_replace:
  "t < length ws \<Longrightarrow> over f (ws[t := w]) + f (ws ! t) = over f ws + f w"
proof (induction ws arbitrary: t)
  case (Cons a ws)
  then show ?case by (cases t) (simp_all add: over_def ac_simps)
qed simp

lemma past_le: "past files w \<le> Suc 0"
  by (cases w) auto

lemma over_past_le: "over (past files) ws \<le> length ws"
  using sum_list_mono [of ws "past files" "\<lambda>_. 1"] by (simp add: over_def past_le sum_list_triv)

lemma over_past_lt:
  assumes "t < length ws" "past files (ws ! t) = 0"
  shows "over (past files) ws < length ws"
  using over_replace [OF assms(1), of "past files" Finished] over_past_le [of files "ws[t := Finished]"] assms(2) by simp

lemma over_inside_le: "over inside ws \<le> size (over (held files) ws)"
proof -
  have "inside w \<le> size (held files w)" for w by (cases w) (auto simp: inside_def)
  then show ?thesis unfolding over_def by (induction ws) (auto intro: add_mono)
qed

lemma tests_below_le: "length (tests_below files k) \<le> k"
  using length_filter_le [of "\<lambda>i. is_test (files ! i)" "[0..<k]"] by (simp add: tests_below_def)

lemma unat_succ: "unat x + 1 < 2 ^ 32 \<Longrightarrow> unat (x + 1) = unat (x :: counter) + 1"
  by (simp add: unat_word_ariths)

lemma tests_below_Suc:
  "tests_below files (Suc k) = tests_below files k @ (if is_test (files ! k) then [k] else [])"
  by (simp add: tests_below_def)

section \<open>The invariant\<close>

lemma runner_inv_results:
  "runner_inv files jobs s \<Longrightarrow> unat (tally_of r s) + over (untold r) (n_workers s) = results r s"
  by (simp add: runner_inv_def)

lemma runner_inv_total:
  assumes "runner_inv files jobs s"
  shows "length (n_log s) + size (over (held files) (n_workers s)) \<le> length files"
proof -
  have "size (over (held files) (n_workers s) + mset (map fst (n_log s))) \<le> length files"
    using assms tests_below_le [of files "min (unat (n_index s)) (length files)"]
    by (simp add: runner_inv_def del: mset_map)
  then show ?thesis by simp
qed

lemma runner_inv0: "runner_inv files jobs (runner0 jobs)"
proof -
  have "tally_of r (runner0 jobs) = 0" for r by (cases r) (simp_all add: runner0_def)
  moreover have "sum_list (replicate jobs {#}) = {#}" for jobs by (induction jobs) simp_all
  ultimately show ?thesis
    by (simp add: runner_inv_def runner0_def over_def results_def tests_below_def sum_list_replicate
          untold_def inside_def)
qed

lemma tally_update [simp]:
  "tally_of r (s\<lparr>n_index := i\<rparr>) = tally_of r s" "tally_of r (s\<lparr>n_total := n\<rparr>) = tally_of r s"
  "tally_of r (s\<lparr>n_log := l\<rparr>) = tally_of r s" "tally_of r (s\<lparr>n_workers := ws\<rparr>) = tally_of r s"
  by (cases r; simp)+

lemma tally_count: "tally_of r (count_result r' s) = tally_of r s + (if r = r' then 1 else 0)"
  by (cases r; cases r') simp_all

lemma count_result_sel [simp]:
  "n_index (count_result r s) = n_index s" "n_workers (count_result r s) = n_workers s"
  "n_total (count_result r s) = n_total s" "n_log (count_result r s) = n_log s"
  by (cases r; simp)+

lemma worker_step_inv:
  assumes "worker_step files s s'" "runner_inv files jobs s" "length files + jobs < 2 ^ 32"
  shows "runner_inv files jobs s'"
  using assms(1)
proof cases
  case (fetch t)
  note sums = over_replace [OF fetch(2), of _ "Fetched (unat (n_index s))", unfolded fetch(3)]
  have lt: "over (past files) (n_workers s) < jobs"
    using over_past_lt [OF fetch(2), of files] fetch(3) assms(2) by (simp add: runner_inv_def)
  have idx: "unat (n_index s + 1) = Suc (unat (n_index s))"
    using unat_succ [of "n_index s"] lt assms(2,3) by (simp add: runner_inv_def)
  show ?thesis
    using assms(2) idx sums [of "held files"] sums [of "past files"] sums [of inside] sums [of "untold _"]
    unfolding fetch(1) runner_inv_def
    by (auto simp: results_def inside_def untold_def tally_count tests_below_Suc min_def not_le less_eq_Suc_le)
next
  case (leave t i)
  note sums = over_replace [OF leave(2), of _ Finished, unfolded leave(3)]
  show ?thesis
    using assms(2) leave(4) sums [of "held files"] sums [of "past files"] sums [of inside] sums [of "untold _"]
    unfolding leave(1) runner_inv_def by (auto simp: results_def inside_def untold_def tally_count)
next
  case (skip t i)
  note sums = over_replace [OF skip(2), of _ Top, unfolded skip(3)]
  show ?thesis
    using assms(2) skip(4,5) sums [of "held files"] sums [of "past files"] sums [of inside] sums [of "untold _"]
    unfolding skip(1) runner_inv_def by (auto simp: results_def inside_def untold_def tally_count)
next
  case (make t i)
  note sums = over_replace [OF make(2), of _ "Made i", unfolded make(3)]
  show ?thesis
    using assms(2) make(4,5) sums [of "held files"] sums [of "past files"] sums [of inside] sums [of "untold _"]
    unfolding make(1) runner_inv_def by (auto simp: results_def inside_def untold_def tally_count)
next
  case (start t i)
  note sums = over_replace [OF start(2), of _ "Running i", unfolded start(3)]
  have "unat (n_total s + 1) = Suc (unat (n_total s))"
    using unat_succ [of "n_total s"] runner_inv_total [OF assms(2)] over_inside_le [of "n_workers s" files] assms(2,3) start(2)
    by (auto simp: runner_inv_def)
  then show ?thesis
    using assms(2) sums [of "held files"] sums [of "past files"] sums [of inside] sums [of "untold _"]
    unfolding start(1) runner_inv_def by (auto simp: results_def inside_def untold_def tally_count)
next
  case (run t i r)
  note sums = over_replace [OF run(2), of _ "Ran r", unfolded run(3)]
  show ?thesis
    using assms(2) sums [of "held files", symmetric] sums [of "past files"] sums [of inside] sums [of "untold _"]
    unfolding run(1) runner_inv_def by (auto simp: results_def inside_def untold_def)
next
  case (tally t r)
  note sums = over_replace [OF tally(2), of _ Top, unfolded tally(3)]
  have "unat (tally_of r s) + 1 \<le> length (n_log s)"
    using runner_inv_results [OF assms(2), of r] sums [of "untold r"] count_le_length [of "map snd (n_log s)" r]
    by (simp add: untold_def results_def)
  then have succ: "unat (tally_of r s + 1) = unat (tally_of r s) + 1"
    using unat_succ [of "tally_of r s"] runner_inv_total [OF assms(2)] assms(3) by simp
  have counts: "unat (tally_of q (count_result r s)) + over (untold q) ((n_workers s)[t := Top]) = results q s" for q
    using runner_inv_results [OF assms(2), of q] sums [of "untold q"] succ
    by (cases "q = r") (simp_all add: tally_count untold_def)
  show ?thesis
    using assms(2) counts sums [of "held files"] sums [of "past files"] sums [of inside]
    unfolding tally(1) runner_inv_def by (simp add: results_def inside_def)
qed

lemma runner_reachable:
  assumes "(worker_step files)\<^sup>*\<^sup>* (runner0 jobs) s" "length files + jobs < 2 ^ 32"
  shows "runner_inv files jobs s"
  using assms(1)
proof (induction rule: rtranclp_induct)
  case (step s s')
  show ?case by (rule worker_step_inv [OF step(2,3) assms(2)])
qed (rule runner_inv0)

lemma over_joined:
  assumes "joined s"
  shows "over f (n_workers s) = sum_list (replicate (length (n_workers s)) (f Finished))"
proof -
  have "\<forall>w \<in> set ws. w = Finished \<Longrightarrow> map f ws = replicate (length ws) (f Finished)" for ws
    by (induction ws) auto
  from this [of "n_workers s"] have "map f (n_workers s) = replicate (length (n_workers s)) (f Finished)"
    using assms by (simp add: joined_def)
  then show ?thesis by (simp only: over_def)
qed

lemma joined_inv:
  assumes "runner_inv files jobs s" "joined s" "0 < jobs"
  shows "mset (map fst (n_log s)) = mset (tests_below files (length files))"
    "unat (n_total s) = length (n_log s)" "unat (tally_of r s) = results r s"
proof -
  have z: "sum_list (replicate k {#}) = {#}" for k by (induction k) simp_all
  have "over (past files) (n_workers s) = jobs"
    using over_joined [OF assms(2), of "past files"] assms(1) by (simp add: sum_list_replicate runner_inv_def)
  then have "length files \<le> unat (n_index s)" using assms(1,3) by (simp add: runner_inv_def)
  then show "mset (map fst (n_log s)) = mset (tests_below files (length files))"
    using over_joined [OF assms(2), of "held files"] assms(1) by (simp add: runner_inv_def z)
  show "unat (n_total s) = length (n_log s)"
    using over_joined [OF assms(2), of inside] assms(1) by (simp add: sum_list_replicate runner_inv_def inside_def)
  show "unat (tally_of r s) = results r s"
    using over_joined [OF assms(2), of "untold r"] runner_inv_results [OF assms(1), of r]
    by (simp add: sum_list_replicate untold_def)
qed

lemma results_zero: "results r s = 0 \<longleftrightarrow> r \<notin> snd ` set (n_log s)"
  by (simp add: results_def count_list_0_iff)

text \<open>
  C36: However the threads interleave, when all have left their loops every file that is a test was run
  exactly once, no other file was, the counters of the results are the numbers of tests with those
  results, their total is \<open>total\<close>, and the exit code says whether a test failed.
\<close>

theorem runner_runs_each_once:
  assumes "(worker_step files)\<^sup>*\<^sup>* (runner0 jobs) s" "joined s" "0 < jobs" "length files + jobs < 2 ^ 32"
  shows "distinct (map fst (n_log s)) \<and>
    set (map fst (n_log s)) = {i. i < length files \<and> is_test (files ! i)} \<and>
    unat (n_total s) = length (n_log s) \<and>
    unat (n_passed s) = results Pass s \<and> unat (n_failed s) = results Fail s \<and> unat (n_xfail s) = results XFail s \<and>
    exit_code s = (if \<exists>i. (i, Fail) \<in> set (n_log s) then 1 else 0)"
proof -
  note inv = joined_inv [OF runner_reachable [OF assms(1,4)] assms(2,3)]
  have m: "mset (map fst (n_log s)) = mset (tests_below files (length files))" by (rule inv(1))
  have "distinct (map fst (n_log s))"
    unfolding mset_eq_imp_distinct_iff [OF m] by (simp add: tests_below_def)
  moreover have "set (map fst (n_log s)) = {i. i < length files \<and> is_test (files ! i)}"
    unfolding mset_eq_setD [OF m] by (auto simp: tests_below_def)
  moreover have "n_failed s = 0 \<longleftrightarrow> (\<nexists>i. (i, Fail) \<in> set (n_log s))"
    using inv(3) [of Fail] results_zero [of Fail s] unat_eq_zero [of "n_failed s"] by force
  moreover have "unat (n_total s) = length (n_log s)" by (rule inv(2))
  moreover have "unat (n_passed s) = results Pass s" using inv(3) [of Pass] by simp
  moreover have "unat (n_failed s) = results Fail s" using inv(3) [of Fail] by simp
  moreover have "unat (n_xfail s) = results XFail s" using inv(3) [of XFail] by simp
  ultimately show ?thesis by (simp only: exit_code_def) simp
qed

lemma rtranclp_first: "r a b \<Longrightarrow> r\<^sup>*\<^sup>* b c \<Longrightarrow> r\<^sup>*\<^sup>* a c"
  by (rule converse_rtranclp_into_rtranclp)

theorem runner_runs_each_once_witness:
  "\<exists>s. (worker_step [''a.aike'', ''b''])\<^sup>*\<^sup>* (runner0 1) s \<and> unat (n_passed s) = 1 \<and> results Pass s = 1"
proof -
  let ?step = "worker_step [''a.aike'', ''b'']"
  let ?s = "\<lambda>i w n p l. \<lparr>n_index = i, n_workers = [w], n_total = n, n_passed = p, n_failed = 0, n_xfail = 0, n_log = l\<rparr>"
  let ?l = "[(0, Pass)]"
  have "?step (?s 0 Top 0 0 []) (?s 1 (Fetched 0) 0 0 [])" using fetch [of 0 "?s 0 Top 0 0 []"] by simp
  moreover have "?step (?s 1 (Fetched 0) 0 0 []) (?s 1 (Made 0) 0 0 [])"
    using make [of 0 "?s 1 (Fetched 0) 0 0 []" 0] by (simp add: is_test_def)
  moreover have "?step (?s 1 (Made 0) 0 0 []) (?s 1 (Running 0) 1 0 [])" using start [of 0 "?s 1 (Made 0) 0 0 []" 0] by simp
  moreover have "?step (?s 1 (Running 0) 1 0 []) (?s 1 (Ran Pass) 1 0 ?l)" using run [of 0 "?s 1 (Running 0) 1 0 []" 0] by simp
  moreover have "?step (?s 1 (Ran Pass) 1 0 ?l) (?s 1 Top 1 1 ?l)" using tally [of 0 "?s 1 (Ran Pass) 1 0 ?l" Pass] by simp
  moreover have "?step (?s 1 Top 1 1 ?l) (?s 2 (Fetched 1) 1 1 ?l)" using fetch [of 0 "?s 1 Top 1 1 ?l"] by simp
  moreover have "?step (?s 2 (Fetched 1) 1 1 ?l) (?s 2 Top 1 1 ?l)"
    using skip [of 0 "?s 2 (Fetched 1) 1 1 ?l" 1] by (simp add: is_test_def)
  moreover have "?step (?s 2 Top 1 1 ?l) (?s 3 (Fetched 2) 1 1 ?l)" using fetch [of 0 "?s 2 Top 1 1 ?l"] by simp
  moreover have "?step (?s 3 (Fetched 2) 1 1 ?l) (?s 3 Finished 1 1 ?l)"
    using leave [of 0 "?s 3 (Fetched 2) 1 1 ?l" 2] by simp
  ultimately have r: "?step\<^sup>*\<^sup>* (?s 0 Top 0 0 []) (?s 3 Finished 1 1 ?l)"
    by (meson rtranclp_first rtranclp.rtrancl_refl)
  then have r0: "?step\<^sup>*\<^sup>* (runner0 1) (?s 3 Finished 1 1 ?l)" by (simp add: runner0_def)
  have "unat (n_passed (?s 3 Finished 1 1 ?l)) = results Pass (?s 3 Finished 1 1 ?l)"
    using runner_runs_each_once [OF r0] by (simp add: joined_def)
  with r0 show ?thesis by (intro exI [of _ "?s 3 Finished 1 1 ?l"]) simp
qed

section \<open>Every run ends\<close>

fun weight :: "string list \<Rightarrow> worker \<Rightarrow> nat" where
  "weight files Top = 2"
| "weight files (Fetched i) = (if i < length files then 6 else 1)"
| "weight files (Made i) = 5"
| "weight files (Running i) = 4"
| "weight files (Ran r) = 3"
| "weight files Finished = 0"

definition to_do :: "string list \<Rightarrow> runner \<Rightarrow> nat" where
  "to_do files s = 5 * (length files - unat (n_index s)) + over (weight files) (n_workers s)"

lemma worker_step_less:
  assumes "worker_step files s s'" "runner_inv files jobs s" "length files + jobs < 2 ^ 32"
  shows "to_do files s' < to_do files s"
  using assms(1)
proof cases
  case (fetch t)
  have lt: "over (past files) (n_workers s) < jobs"
    using over_past_lt [OF fetch(2), of files] fetch(3) assms(2) by (simp add: runner_inv_def)
  have "unat (n_index s + 1) = Suc (unat (n_index s))"
    using unat_succ [of "n_index s"] lt assms(2,3) by (simp add: runner_inv_def)
  then show ?thesis
    using over_replace [OF fetch(2), of "weight files" "Fetched (unat (n_index s))"] fetch(3)
    unfolding fetch(1) to_do_def by (auto split: if_splits)
next
  case (tally t r)
  then show ?thesis
    using over_replace [OF tally(2), of "weight files" Top] by (simp add: to_do_def)
next
  case (run t i r)
  then show ?thesis
    using over_replace [OF run(2), of "weight files" "Ran r"] by (simp add: to_do_def)
next
  case (start t i)
  then show ?thesis
    using over_replace [OF start(2), of "weight files" "Running i"] by (simp add: to_do_def)
next
  case (make t i)
  then show ?thesis
    using over_replace [OF make(2), of "weight files" "Made i"] by (simp add: to_do_def)
next
  case (skip t i)
  then show ?thesis
    using over_replace [OF skip(2), of "weight files" Top] by (simp add: to_do_def)
next
  case (leave t i)
  then show ?thesis
    using over_replace [OF leave(2), of "weight files" Finished] by (simp add: to_do_def)
qed

lemma worker_can_step:
  assumes "\<not> joined s"
  shows "\<exists>s'. worker_step files s s'"
proof -
  from assms obtain t where t: "t < length (n_workers s)" "n_workers s ! t \<noteq> Finished"
    by (auto simp: joined_def in_set_conv_nth)
  show ?thesis
  proof (cases "n_workers s ! t")
    case (Fetched i)
    then show ?thesis using leave [OF t(1) Fetched] skip [OF t(1) Fetched] make [OF t(1) Fetched]
      by (metis not_le)
  qed (use t fetch [OF t(1)] start [OF t(1)] run [OF t(1)] tally [OF t(1)] in blast)+
qed

text \<open>
  C37: Every run of the threads ends: no interleaving has more than five steps for each file and two for
  each thread, and as long as a thread is in its loop some thread can go on.
\<close>

theorem runner_ends:
  assumes "(worker_step files ^^ k) (runner0 jobs) s" "length files + jobs < 2 ^ 32"
  shows "k \<le> 5 * length files + 2 * jobs \<and> (joined s \<or> (\<exists>s'. worker_step files s s'))"
proof -
  have "k + to_do files s \<le> to_do files (runner0 jobs)"
    using assms(1)
  proof (induction k arbitrary: s)
    case (Suc k)
    then obtain s1 where s1: "(worker_step files ^^ k) (runner0 jobs) s1" "worker_step files s1 s" by auto
    have "runner_inv files jobs s1"
      by (rule runner_reachable [OF relpowp_imp_rtranclp [OF s1(1)] assms(2)])
    from worker_step_less [OF s1(2) this assms(2)] Suc.IH [OF s1(1)] show ?case by simp
  qed simp
  moreover have "to_do files (runner0 jobs) = 5 * length files + 2 * jobs"
    by (simp add: to_do_def runner0_def over_def sum_list_replicate)
  ultimately show ?thesis using worker_can_step by force
qed

theorem runner_ends_witness: "joined (runner0 1) \<or> (\<exists>s'. worker_step [''a.aike''] (runner0 1) s')"
  using runner_ends [of 0 "[''a.aike'']" 1 "runner0 1"] by simp

text \<open>
  Without threads, which is what a count of processors that is not known gives, no test is run and
  the runner reports success.
\<close>

theorem no_threads_succeed:
  "{s. (worker_step files)\<^sup>*\<^sup>* (runner0 0) s} = {runner0 0} \<and> joined (runner0 0) \<and>
   exit_code (runner0 0) = 0 \<and> summary (runner0 0) = ''Success: 0 tests passed.'' @ [newline]"
proof -
  have stuck: "\<not> worker_step files (runner0 0) s" for s
    by (auto elim!: worker_stepE simp: runner0_def)
  have "s = runner0 0" if "(worker_step files)\<^sup>*\<^sup>* (runner0 0) s" for s
    using that by (cases rule: converse_rtranclpE) (auto simp: stuck)
  moreover have "show_nat 0 = ''0''" by code_simp
  ultimately show ?thesis by (auto simp: joined_def exit_code_def summary_def runner0_def)
qed

section \<open>What is collected\<close>

text \<open>The reads of a stream before the first time it was silent or at its end.\<close>

definition collected :: "string option list \<Rightarrow> string" where
  "collected rs = concat (map the (takeWhile (\<lambda>r. r \<noteq> None \<and> r \<noteq> Some []) rs))"

lemma collected_simps [simp]:
  "collected [] = []" "collected (None # rs) = []" "collected (Some [] # rs) = []"
  "buf \<noteq> [] \<Longrightarrow> collected (Some buf # rs) = buf @ collected rs"
  by (simp_all add: collected_def)

lemma pump_one_collected:
  "(b, acc') = pump_one r isset acc \<Longrightarrow>
     acc' @ (if b then collected rs else []) = acc @ (if isset then collected (r # rs) else [])"
  by (cases r) (auto simp: pump_one_def split: if_splits)

lemma pump_collected:
  "pump rs so se out err =
     (out @ (if so then collected (map r_out rs) else []), err @ (if se then collected (map r_err rs) else []))"
proof (induction rs so se out err rule: pump.induct)
  case (2 r rs so se out err)
  obtain so' out' se' err' where p: "pump_one (r_out r) so out = (so', out')" "pump_one (r_err r) se err = (se', err')"
    by (metis surj_pair)
  show ?case
  proof (cases "so \<or> se")
    case True
    then have "pump rs so' se' out' err' = (out' @ (if so' then collected (map r_out rs) else []),
        err' @ (if se' then collected (map r_err rs) else []))"
      using 2 p by simp
    with True p show ?thesis
      using pump_one_collected [OF p(1) [symmetric], of "map r_out rs"] pump_one_collected [OF p(2) [symmetric], of "map r_err rs"]
      by simp
  qed simp
qed simp

text \<open>
  C39: What is collected of a process is, of each stream, what was read before the first time that
  \<open>select\<close> reported only the other one, or the end came: from then on the stream is never read again.
\<close>

theorem pump_reads_until_silent:
  "pump rs True True [] [] = (collected (map r_out rs), collected (map r_err rs))"
  by (simp add: pump_collected)

lemma pump_loses_output:
  "pump [\<lparr>r_out = None, r_err = Some ''warning''\<rparr>, \<lparr>r_out = Some ''result'', r_err = None\<rparr>] True True [] []
     = ([], ''warning'')"
  by (simp add: pump_one_def)

section \<open>What a test expects\<close>

text \<open>A line that one \<open>fgets\<close> reads with its newline, and the flags of a test.\<close>

definition line_ok :: "string \<Rightarrow> bool" where
  "line_ok l = (newline \<notin> set l \<and> CHR 0x00 \<notin> set l \<and> length l < kLine)"

definition lines_of :: "string list \<Rightarrow> string" where
  "lines_of ls = concat (map (\<lambda>l. l @ [newline]) ls)"

definition flag_words :: "string list \<Rightarrow> string" where
  "flag_words fs = concat (map (\<lambda>f. CHR '' '' # f) fs)"

definition flag_ok :: "string \<Rightarrow> bool" where
  "flag_ok f = (f \<noteq> [] \<and> CHR '' '' \<notin> set f)"

fun type_line :: "test_type \<Rightarrow> string" where
  "type_line TestOk = ''## OK''"
| "type_line TestError = ''## ERROR''"
| "type_line TestXFail = ''## XFAIL''"
| "type_line TestUnknown = ''##''"

text \<open>The comments of a test.\<close>

definition render_test :: "test_type \<Rightarrow> string list \<Rightarrow> string list \<Rightarrow> string" where
  "render_test t fs ls = lines_of ([type_line t, ''## FLAGS'' @ flag_words fs] @ map (\<lambda>l. ''# '' @ l) ls)"

lemma fgets_line:
  assumes "newline \<notin> set l" "length l < n"
  shows "fgets n (l @ newline # s) = (l @ [newline], s)"
proof -
  obtain m where m: "n - length l = Suc m" using assms(2) by (metis Suc_diff_Suc)
  have "takeWhile (\<lambda>c. c \<noteq> newline) (l @ newline # take m s) = l"
    by (rule takeWhile_append_stop) (use assms(1) in auto)
  then show ?thesis using m assms(2) by (simp add: fgets_def)
qed

lemma trim_line_ok:
  assumes "line_ok l"
  shows "trim_line (l @ [newline]) = l"
proof -
  have "takeWhile (\<lambda>c. c \<noteq> CHR 0x00) (l @ [newline]) = l @ [newline]"
    using assms by (subst takeWhile_eq_all_conv) (auto simp: line_ok_def)
  then show ?thesis by (simp add: trim_line_def)
qed

lemma parse_lines_Cons:
  assumes "line_ok l"
  shows "parse_lines (l @ newline # s) e = parse_lines s (parse_line l e)"
proof -
  have "fgets kLine (l @ newline # s) = (l @ [newline], s)"
    by (rule fgets_line) (use assms in \<open>auto simp: line_ok_def\<close>)
  then show ?thesis
    using trim_line_ok [OF assms] parse_lines.simps [of "l @ newline # s" e] by simp
qed

lemma parse_lines_all:
  "\<forall>l \<in> set ls. line_ok l \<Longrightarrow> parse_lines (lines_of ls) e = fold parse_line ls e"
proof (induction ls arbitrary: e)
  case Nil
  then show ?case by (subst parse_lines.simps) (simp add: lines_of_def)
qed (simp add: lines_of_def parse_lines_Cons)

lemma split_flags_word:
  "flag_ok f \<Longrightarrow> s = [] \<or> hd s = CHR '' '' \<Longrightarrow> split_flags (CHR '' '' # f @ s) = f # split_flags s"
proof -
  assume f: "flag_ok f" and s: "s = [] \<or> hd s = CHR '' ''"
  then obtain c f' where c: "f = c # f'" "c \<noteq> CHR '' ''" by (cases f) (auto simp: flag_ok_def)
  have "takeWhile (\<lambda>x. x \<noteq> CHR '' '') (f @ s) = f" "dropWhile (\<lambda>x. x \<noteq> CHR '' '') (f @ s) = s"
    using f s by (auto simp: flag_ok_def intro: takeWhile_append_stop dropWhile_append_stop)
  with c show ?thesis by (simp add: Let_def)
qed

lemma split_flag_words: "\<forall>f \<in> set fs. flag_ok f \<Longrightarrow> split_flags (flag_words fs) = fs"
proof (induction fs)
  case (Cons f fs)
  have "flag_words fs = [] \<or> hd (flag_words fs) = CHR '' ''" by (cases fs) (simp_all add: flag_words_def)
  with Cons split_flags_word [of f "flag_words fs"] show ?case by (simp add: flag_words_def)
qed (simp add: flag_words_def)

lemma fold_expected:
  "e_type e \<noteq> TestUnknown \<Longrightarrow>
     fold parse_line (map (\<lambda>l. ''# '' @ l) ls) e = e\<lparr>e_output := e_output e @ lines_of ls\<rparr>"
  by (induction ls arbitrary: e) (simp_all add: parse_line_def lines_of_def)

lemma parseTest_reads_back_lines:
  assumes "t \<noteq> TestUnknown" "fs \<noteq> []" "\<forall>f \<in> set fs. flag_ok f" "line_ok (''## FLAGS'' @ flag_words fs)"
    "\<forall>l \<in> set ls. line_ok (''# '' @ l)"
  shows "parseTest (Some (render_test t fs ls)) = (t, lines_of ls, fs)"
proof -
  let ?e0 = "\<lparr>e_type = TestUnknown, e_error = False, e_output = [], e_flags = []\<rparr>"
  have t: "line_ok (type_line t)" "parse_line (type_line t) ?e0 = ?e0\<lparr>e_type := t\<rparr>"
    using assms(1) by (cases t; simp add: line_ok_def kLine_def parse_line_def set_type_def)+
  have f: "parse_line (''## FLAGS'' @ flag_words fs) e = e\<lparr>e_flags := e_flags e @ fs\<rparr>" for e
    using assms(2,3) split_flag_words [OF assms(3)] by (cases fs) (simp_all add: parse_line_def flag_words_def)
  have "parse_lines (render_test t fs ls) ?e0
      = fold parse_line ([type_line t, ''## FLAGS'' @ flag_words fs] @ map (\<lambda>l. ''# '' @ l) ls) ?e0"
    unfolding render_test_def by (rule parse_lines_all) (use assms t in auto)
  also have "\<dots> = \<lparr>e_type = t, e_error = False, e_output = lines_of ls, e_flags = fs\<rparr>"
    using assms(1) by (simp add: t f fold_expected del: append_Cons)
  finally show ?thesis by (simp add: parseTest_def)
qed

section \<open>The verdict on a test that expects errors\<close>

lemma getlines_line: "newline \<notin> set l \<Longrightarrow> getlines_from acc (l @ newline # s) = (acc @ l) # getlines_from [] s"
  by (induction l arbitrary: acc) auto

lemma getlines_lines: "\<forall>l \<in> set ls. newline \<notin> set l \<Longrightarrow> getlines_from [] (lines_of ls) = ls"
  by (induction ls) (simp_all add: lines_of_def getlines_line)

lemma lines_of_inject:
  "\<forall>l \<in> set ls. newline \<notin> set l \<Longrightarrow> \<forall>l \<in> set ms. newline \<notin> set l \<Longrightarrow> lines_of ls = lines_of ms \<longleftrightarrow> ls = ms"
  by (metis getlines_lines)

lemma sanitize_lines:
  assumes "newline \<notin> set source" "\<forall>m \<in> set ms. newline \<notin> set m"
  shows "sanitizeErrors (lines_of (map (\<lambda>m. source @ m) ms)) source = lines_of ms"
proof -
  have "getlines_from [] (lines_of (map (\<lambda>m. source @ m) ms)) = map (\<lambda>m. source @ m) ms"
    by (rule getlines_lines) (use assms in auto)
  then show ?thesis by (simp add: sanitizeErrors_def lines_of_def filter_map comp_def)
qed



end
