(* ===== verification/Signals.thy ===== *)
theory Signals
  imports Memory
begin

text \<open>
  Failures and signals of the runtime: \<open>runtime/common.cpp\<close>, the text of a backtrace in
  \<open>runtime/backtrace_unix.cpp\<close>, and \<open>runtime/signal_unix.cpp\<close>, on Linux. The dynamic linker, the
  demangler, \<open>errno\<close> and the answers of the operating system are parameters.
\<close>

section \<open>Text\<close>

definition hex_digit :: "nat \<Rightarrow> char" where
  "hex_digit d = (if d < 10 then digit_char d else char_of (87 + d))"

text \<open>\<open>%016lx\<close> and \<open>%02d\<close>, the latter of a number that is not negative.\<close>

definition show_hex16 :: "size \<Rightarrow> string" where
  "show_hex16 w = map (\<lambda>i. hex_digit (unat w div 16 ^ (15 - i) mod 16)) [0..<16]"

definition show_02 :: "nat \<Rightarrow> string" where
  "show_02 n = (if n < 10 then ''0'' else []) @ show_nat n"

text \<open>What \<open>panic\<close> prints before it aborts, of the formatted message.\<close>

definition panic_text :: "string \<Rightarrow> string" where
  "panic_text msg = ''PANIC: '' @ msg @ [CHR 0x0A]"

definition panicError :: "int \<Rightarrow> string \<Rightarrow> int \<Rightarrow> string \<Rightarrow> string" where
  "panicError errno file line expr =
     panic_text (expr @ '' failed (errno '' @ show_int errno @ '') at '' @ file @ '':'' @ show_int line)"

section \<open>Backtraces\<close>

text \<open>\<open>Dl_info\<close>.\<close>

record dl_info =
  dli_fname :: "string option"
  dli_fbase :: size
  dli_sname :: "string option"
  dli_saddr :: size

text \<open>The part after the last slash, or all.\<close>

definition base_name :: "string \<Rightarrow> string" where
  "base_name s = rev (takeWhile (\<lambda>c. c \<noteq> CHR ''/'') (rev s))"

definition dumpBacktraceFrame ::
  "(size \<Rightarrow> dl_info option) \<Rightarrow> (string \<Rightarrow> string option) \<Rightarrow> nat \<Rightarrow> size \<Rightarrow> string" where
  "dumpBacktraceFrame dladdr demangle frame ip =
     ''#'' @ show_02 frame @ '': '' @ show_hex16 ip @
     (case dladdr ip of
        None \<Rightarrow> []
      | Some di \<Rightarrow>
          (case dli_fname di of
             None \<Rightarrow> []
           | Some fname \<Rightarrow>
               (case dli_sname di of
                  Some sname \<Rightarrow>
                    '' '' @ base_name fname @ [CHR 0x60] @ (case demangle sname of Some d \<Rightarrow> d | None \<Rightarrow> sname) @
                      '' + '' @ show_int (sint (ip - dli_saddr di))
                | None \<Rightarrow> '' '' @ base_name fname @ '' + '' @ show_int (sint (ip - dli_fbase di))))) @
     [CHR 0x0A]"

text \<open>The frames that the walk finds, numbered from 0.\<close>

definition backtrace_text ::
  "(size \<Rightarrow> dl_info option) \<Rightarrow> (string \<Rightarrow> string option) \<Rightarrow> (size \<Rightarrow> size) \<Rightarrow> size \<Rightarrow> size \<Rightarrow> size \<Rightarrow> size \<Rightarrow> string" where
  "backtrace_text dladdr demangle mem stack stackSize ip fp =
     concat (map (\<lambda>(frame, a). dumpBacktraceFrame dladdr demangle frame a)
       (enumerate 0 (backtraceDump mem stack stackSize ip fp)))"

section \<open>Signals\<close>

datatype signal = SIGILL | SIGTRAP | SIGFPE | SIGBUS | SIGSEGV

definition kSignalActions :: "signal list" where
  "kSignalActions = [SIGILL, SIGTRAP, SIGFPE, SIGBUS, SIGSEGV]"

text \<open>
  What the handler prints before it aborts; \<open>running\<close> is the answer of \<open>schedulerGetStack\<close>, the stack
  of the coroutine that runs, if one does.
\<close>

definition signalHandler ::
  "(signal \<Rightarrow> string) \<Rightarrow> (size \<Rightarrow> dl_info option) \<Rightarrow> (string \<Rightarrow> string option) \<Rightarrow> (size \<Rightarrow> size) \<Rightarrow>
   (size \<times> size) option \<Rightarrow> signal \<Rightarrow> size \<Rightarrow> size \<Rightarrow> string" where
  "signalHandler sys_siglist dladdr demangle mem running signum rip rbp =
     ''Signal caught: '' @ sys_siglist signum @ '' at '' @ show_hex16 rip @ [CHR 0x0A] @
     (case running of
        None \<Rightarrow> []
      | Some (stack, stackSize) \<Rightarrow> backtrace_text dladdr demangle mem stack stackSize rip rbp)"

text \<open>
  The calls of the operating system: \<open>sigaltstack\<close> with a new stack, and whether it disables it;
  \<open>sigaction\<close>, and whether an action is given, which is always \<open>signalHandler\<close>.
\<close>

datatype os_call =
    Sigaltstack size size bool
  | Sigaction signal bool

text \<open>\<open>check(call == 0)\<close>: the calls made so far with this one, or the failure.\<close>

definition check_call :: "(os_call \<Rightarrow> bool) \<Rightarrow> (string \<Rightarrow> string) \<Rightarrow> string \<Rightarrow> os_call \<Rightarrow> os_call list \<Rightarrow> os_call list result" where
  "check_call ok message expr c calls =
     (if ok c then Inr (calls @ [c]) else Inl (Panic Location0 (message expr)))"

definition signalSetup ::
  "(size \<Rightarrow> size) \<Rightarrow> (os_call \<Rightarrow> bool) \<Rightarrow> (string \<Rightarrow> string) \<Rightarrow> (stack_made \<times> os_call list) result" where
  "signalSetup mmap ok message =
     (let stack = stackCreate mmap 32768
      in bindR (check_call ok message ''sigaltstack(&stack, nullptr) == 0'' (Sigaltstack (sm_result stack) 32768 False) [])
           (\<lambda>calls. bindR (foldS (\<lambda>id calls. check_call ok message ''sigaction(id, &action, nullptr) == 0'' (Sigaction id True) calls)
               kSignalActions calls) (\<lambda>calls. Inr (stack, calls))))"

text \<open>\<open>MINSIGSTKSZ\<close>, and the stack that \<open>sigaltstack\<close> answers as the old one, a parameter.\<close>

definition MINSIGSTKSZ :: size where
  "MINSIGSTKSZ = 2048"

definition signalTeardown ::
  "size \<times> size \<Rightarrow> (os_call \<Rightarrow> bool) \<Rightarrow> (string \<Rightarrow> string) \<Rightarrow> (range \<times> os_call list) result" where
  "signalTeardown oldStack ok message =
     bindR (foldS (\<lambda>id calls. check_call ok message ''sigaction(id, nullptr, nullptr) == 0'' (Sigaction id False) calls)
         kSignalActions []) (\<lambda>calls.
       bindR (check_call ok message ''sigaltstack(&stack, &oldStack) == 0'' (Sigaltstack 0 MINSIGSTKSZ True) calls) (\<lambda>calls.
         bindR (stackDestroy (fst oldStack) (snd oldStack)) (\<lambda>unmapped. Inr (unmapped, calls))))"

section \<open>What the calls leave\<close>

text \<open>
  What the operating system documents: the alternate stack is the one of the last \<open>sigaltstack\<close>; a
  signal has the handler from the first \<open>sigaction\<close> that gives one, and a null action leaves it.
\<close>

fun alternate :: "os_call list \<Rightarrow> (size \<times> size) option \<Rightarrow> (size \<times> size) option" where
  "alternate [] a = a"
| "alternate (Sigaltstack sp n disable # cs) a = alternate cs (if disable then None else Some (sp, n))"
| "alternate (_ # cs) a = alternate cs a"

definition handled :: "os_call list \<Rightarrow> signal \<Rightarrow> bool" where
  "handled cs signum = (Sigaction signum True \<in> set cs)"

lemmas signal_calls = kSignalActions_def check_call_def bindR_eq_Inr

lemma signalSetup_calls:
  "signalSetup mmap ok message = Inr (stack, calls) \<Longrightarrow>
     stack = stackCreate mmap 32768 \<and>
     calls = Sigaltstack (sm_result stack) 32768 False # map (\<lambda>id. Sigaction id True) kSignalActions"
  by (auto simp: signalSetup_def signal_calls Let_def split: if_splits)

lemma signalTeardown_calls:
  "signalTeardown old ok message = Inr (unmapped, calls) \<Longrightarrow>
     calls = map (\<lambda>id. Sigaction id False) kSignalActions @ [Sigaltstack 0 MINSIGSTKSZ True] \<and>
     stackDestroy (fst old) (snd old) = Inr unmapped"
  by (auto simp: signalTeardown_def signal_calls split: if_splits)



text \<open>The text of an address is its sixteen hexadecimal digits.\<close>

lemma show_hex16_example: "show_hex16 0xDEADBEEF = ''00000000deadbeef''"
  by (simp add: show_hex16_def hex_digit_def digit_char_def char_of_def bit_0 upt_rec [of _ "Suc _"] upt_rec [of _ "numeral _"])

end
